(* ===== verification/Gallery_Prelude.thy ===== *)
theory Gallery_Prelude
  imports Main "HOL-Library.Word" "HOL-Library.Sublist" "HOL-Library.Multiset"
begin

text \<open>
  Shared vocabulary of the Veo gallery development.

  \<^item> The theorem collections that carry the component proofs: \<open>js_defs\<close> (the
    unfoldings of the ECMAScript built-ins), \<open>handler_defs\<close> (the event handlers of
    the \<open>App\<close> component), \<open>view_defs\<close> (the render functions) and \<open>inv_defs\<close> (the
    invariants of the application state).
  \<^item> The representation of JavaScript strings. An ECMAScript string is a sequence of
    UTF-16 code units; \<open>length\<close>, \<open>substring\<close>, \<open>startsWith\<close>, \<open>split\<close> and a regular
    expression without the \<open>u\<close> flag all count and match code units. A string is
    therefore a list of 16-bit words, and a literal of the sources is written
    \<open>ascii ''...''\<close>.
  \<^item> Generic facts about lists (\<open>dropWhile\<close>, \<open>filter\<close>, \<open>prefix\<close>) that several
    components use.
\<close>

section \<open>Theorem collections\<close>

named_theorems js_defs "unfoldings of the modelled ECMAScript built-ins"
named_theorems handler_defs "definitions of the event handlers of App"
named_theorems view_defs "definitions of the render functions"
named_theorems inv_defs "definitions of the state invariants"

section \<open>JavaScript strings as lists of UTF-16 code units\<close>

type_synonym code_unit = "16 word"
type_synonym jsstring = "code_unit list"

definition ascii :: "string \<Rightarrow> jsstring" where
  "ascii s = map of_char s"

lemma ascii_Nil [simp]: "ascii [] = []"
  by (simp add: ascii_def)

lemma ascii_Cons [simp]: "ascii (c # cs) = of_char c # ascii cs"
  by (simp add: ascii_def)

lemma ascii_append: "ascii (s @ t) = ascii s @ ascii t"
  by (simp add: ascii_def)

lemma length_ascii [simp]: "length (ascii s) = length s"
  by (simp add: ascii_def)

text \<open>The double quote, which a string literal of this theory cannot hold.\<close>

definition dquote :: code_unit where
  "dquote = 0x22"

text \<open>
  A value of type \<open>string | undefined\<close>. Interpolating it into a template literal
  applies \<open>ToString\<close>, which turns \<open>undefined\<close> into the nine code units of
  \<open>"undefined"\<close>.
\<close>

type_synonym js_opt_string = "jsstring option"

definition to_template :: "js_opt_string \<Rightarrow> jsstring" where
  "to_template v = (case v of None \<Rightarrow> ascii ''undefined'' | Some s \<Rightarrow> s)"

lemma to_template_simps [simp]:
  "to_template None = ascii ''undefined''"
  "to_template (Some s) = s"
  by (simp_all add: to_template_def)

section \<open>Lists\<close>

lemma dropWhile_all [simp]: "list_all P xs \<Longrightarrow> dropWhile P xs = []"
  by (induction xs) auto

lemma dropWhile_hd: "dropWhile P xs \<noteq> [] \<Longrightarrow> \<not> P (hd (dropWhile P xs))"
  by (simp add: hd_dropWhile)

lemma dropWhile_not_hd [simp]: "xs \<noteq> [] \<Longrightarrow> \<not> P (hd xs) \<Longrightarrow> dropWhile P xs = xs"
  by (cases xs) auto

lemma length_dropWhile_rev_le: "length (rev (dropWhile P (rev xs))) \<le> length xs"
  by (simp add: length_dropWhile_le order_trans [OF length_dropWhile_le])

lemma rev_dropWhile_rev_prefix: "prefix (rev (dropWhile P (rev xs))) xs"
  by (simp add: dropWhile_eq_drop rev_drop take_is_prefix)

lemma prefix_hd: "prefix xs ys \<Longrightarrow> xs \<noteq> [] \<Longrightarrow> hd xs = hd ys"
  by (cases xs; cases ys) auto

lemma filter_idem [simp]: "filter P (filter P xs) = filter P xs"
  by (induction xs) auto

lemma prefix_append_same [simp]: "prefix p (p @ xs)"
  by (simp add: prefix_def)

lemma prefix_hd_differs: "p \<noteq> [] \<Longrightarrow> xs \<noteq> [] \<Longrightarrow> hd p \<noteq> hd xs \<Longrightarrow> \<not> prefix p xs"
  by (cases p; cases xs) auto

lemma distinct_map_filter_le1:
  "distinct (map f xs) \<Longrightarrow> length (filter (\<lambda>x. f x = k) xs) \<le> Suc 0"
  by (induction xs) (auto simp: filter_empty_conv intro: rev_image_eqI)

lemma distinct_map_mset_cong:
  "mset xs = mset ys \<Longrightarrow> distinct (map f xs) \<longleftrightarrow> distinct (map f ys)"
  by (metis mset_eq_imp_distinct_iff mset_map)

lemma takeWhile_replicate_append:
  "\<not> P y \<Longrightarrow> P a \<Longrightarrow> takeWhile P (replicate i a @ y # ys) = replicate i a"
  by (induction i) simp_all

lemma set_take_butlast: "n < length xs \<Longrightarrow> x \<in> set (take n xs) \<Longrightarrow> x \<in> set (butlast xs)"
proof -
  assume "n < length xs" and x: "x \<in> set (take n xs)"
  then have "n \<le> length xs - 1" by simp
  then have "set (take n xs) \<subseteq> set (take (length xs - 1) xs)"
    by (rule set_take_subset_set_take)
  with x show ?thesis by (auto simp: butlast_conv_take)
qed

end
