(* ===== verification/Video_Types.thy ===== *)
theory Video_Types
  imports Gallery_Prelude
begin

text \<open>
  The data model of \<open>src/types.ts\<close>: the interface \<open>Video\<close> as the record \<open>video\<close>
  and \<open>HistoryVideo extends Video\<close> as its extension \<open>history_video\<close>. The field
  \<open>id\<close> is called \<open>video_id\<close> (HOL's \<open>id\<close> is the identity function); a \<open>Date\<close> is
  its time value, the integer number of milliseconds since the epoch that
  \<open>getTime()\<close> returns.

  The object spread \<open>{...newVideo, createdAt: d}\<close> of the sources is \<open>stamp\<close>, and
  passing a \<open>HistoryVideo\<close> where a \<open>Video\<close> is expected is \<open>video_of\<close>.
\<close>

record video =
  video_id :: jsstring
  videoUrl :: jsstring
  title :: jsstring
  description :: jsstring

record history_video = video +
  createdAt :: int

definition stamp :: "video \<Rightarrow> int \<Rightarrow> history_video" where
  "stamp v d = video.extend v (history_video.fields d)"

definition video_of :: "history_video \<Rightarrow> video" where
  "video_of h = video.truncate h"

lemma stamp_sel [simp]:
  "video_id (stamp v d) = video_id v"
  "videoUrl (stamp v d) = videoUrl v"
  "title (stamp v d) = title v"
  "description (stamp v d) = description v"
  "createdAt (stamp v d) = d"
  by (simp_all add: stamp_def video.defs history_video.defs)

lemma video_of_sel [simp]:
  "video_id (video_of h) = video_id h"
  "videoUrl (video_of h) = videoUrl h"
  "title (video_of h) = title h"
  "description (video_of h) = description h"
  by (simp_all add: video_of_def video.defs)

lemma video_of_stamp [simp]: "video_of (stamp v d) = v"
  by (simp add: video_of_def stamp_def video.defs history_video.defs)

lemma stamp_video_of [simp]: "stamp (video_of h) (createdAt h) = h"
  by (simp add: video_of_def stamp_def video.defs history_video.defs)

lemma stamp_inject [simp]: "stamp v d = stamp v' d' \<longleftrightarrow> v = v' \<and> d = d'"
  by (cases v; cases v') (auto simp: stamp_def video.defs history_video.defs)

end
