(* ===== verification/JS_String.thy ===== *)
theory JS_String
  imports Gallery_Prelude
begin

text \<open>
  The ECMAScript built-ins that the sources call on strings and arrays, as functions
  on lists of UTF-16 code units. They are the platform the program runs on, not code
  of the repository; each follows the clause of ECMA-262 named beside it, restricted
  to the way the sources call it.

  \<^item> \<open>trim_js\<close>: \<open>String.prototype.trim\<close> (22.1.3.32), which strips \<open>WhiteSpace\<close> and
    \<open>LineTerminator\<close> code points (all of them in the Basic Multilingual Plane, hence
    single code units) from both ends.
  \<^item> \<open>substring_js\<close>: \<open>String.prototype.substring\<close> (22.1.3.25) on integer arguments.
  \<^item> \<open>startsWith_js\<close>: \<open>String.prototype.startsWith\<close> (22.1.3.24) at position 0.
  \<^item> \<open>split_js\<close>: \<open>String.prototype.split\<close> (22.1.3.23) with a separator of one code
    unit and no limit; \<open>index_js\<close>: reading an array element, \<open>undefined\<close> out of range.
  \<^item> \<open>replace_class\<close>: \<open>String.prototype.replace\<close> with a global regular expression
    that is one character class, without the \<open>u\<close> flag, and a replacement string free
    of \<open>$\<close>; \<open>isWordChar\<close> and \<open>isRegexSpace\<close> are the classes \<open>\w\<close> and \<open>\s\<close>
    (22.2.2.9). The flag \<open>i\<close> adds nothing to \<open>[^\w\s]\<close>: without \<open>u\<close>, \<open>Canonicalize\<close>
    maps no character outside the two classes to one inside.
  \<^item> \<open>isWellFormed\<close>: \<open>String.prototype.isWellFormed\<close>, that is, no code unit of the
    string is a surrogate without its partner; \<open>isPlain\<close>: no code unit is a surrogate
    or above (true of every ASCII literal of the sources).
  \<^item> \<open>number_to_string\<close>: \<open>Number::toString\<close> on a non-negative integer below
    \<open>10\<^sup>2\<^sup>1\<close>, where it is the decimal numeral.
\<close>

section \<open>Definitions\<close>

subsection \<open>White space\<close>

definition isWhiteSpace :: "code_unit \<Rightarrow> bool" where
  "isWhiteSpace c \<longleftrightarrow>
     c = 0x0009 \<or> c = 0x000B \<or> c = 0x000C \<or> c = 0x0020 \<or> c = 0x00A0 \<or> c = 0xFEFF \<or>
     c = 0x1680 \<or> (0x2000 \<le> c \<and> c \<le> 0x200A) \<or> c = 0x202F \<or> c = 0x205F \<or> c = 0x3000"

definition isLineTerminator :: "code_unit \<Rightarrow> bool" where
  "isLineTerminator c \<longleftrightarrow> c = 0x000A \<or> c = 0x000D \<or> c = 0x2028 \<or> c = 0x2029"

definition isStrWhiteSpace :: "code_unit \<Rightarrow> bool" where
  "isStrWhiteSpace c \<longleftrightarrow> isWhiteSpace c \<or> isLineTerminator c"

lemmas white_space_defs [js_defs] = isStrWhiteSpace_def isWhiteSpace_def isLineTerminator_def

subsection \<open>trim\<close>

definition trim_js :: "jsstring \<Rightarrow> jsstring" where
  "trim_js s = rev (dropWhile isStrWhiteSpace (rev (dropWhile isStrWhiteSpace s)))"

declare trim_js_def [js_defs]

subsection \<open>substring and startsWith\<close>

definition substring_js :: "jsstring \<Rightarrow> int \<Rightarrow> int \<Rightarrow> jsstring" where
  "substring_js s start fin =
     (let len = int (length s);
          finalStart = min (max start 0) len;
          finalEnd = min (max fin 0) len;
          from = min finalStart finalEnd;
          to = max finalStart finalEnd
      in take (nat (to - from)) (drop (nat from) s))"

declare substring_js_def [js_defs]

definition startsWith_js :: "jsstring \<Rightarrow> jsstring \<Rightarrow> bool" where
  "startsWith_js s searchString \<longleftrightarrow> prefix searchString s"

declare startsWith_js_def [js_defs]

subsection \<open>split and array indexing\<close>

fun split_js :: "code_unit \<Rightarrow> jsstring \<Rightarrow> jsstring list" where
  "split_js c [] = [[]]"
| "split_js c (x # xs) =
     (if x = c then [] # split_js c xs
      else (case split_js c xs of [] \<Rightarrow> [[x]] | y # ys \<Rightarrow> (x # y) # ys))"

definition index_js :: "'a list \<Rightarrow> nat \<Rightarrow> 'a option" where
  "index_js xs i = (if i < length xs then Some (xs ! i) else None)"

declare index_js_def [js_defs]

fun join_js :: "code_unit \<Rightarrow> jsstring list \<Rightarrow> jsstring" where
  "join_js c [] = []"
| "join_js c [s] = s"
| "join_js c (s # t # ts) = s @ c # join_js c (t # ts)"

text \<open>
  A \<open>data:\<close> URL with a base64 payload (RFC 2397), the form of the string that
  \<open>FileReader.readAsDataURL\<close> produces and of the \<open>src\<close> the handlers build. Neither
  a media type nor base64 text holds a comma, so \<open>split(',')[1]\<close> recovers the payload.
\<close>

definition data_url :: "jsstring \<Rightarrow> jsstring \<Rightarrow> jsstring" where
  "data_url mime payload = ascii ''data:'' @ mime @ ascii '';base64,'' @ payload"

subsection \<open>Regular-expression classes and global replacement\<close>

definition isWordChar :: "code_unit \<Rightarrow> bool" where
  "isWordChar c \<longleftrightarrow>
     (0x41 \<le> c \<and> c \<le> 0x5A) \<or> (0x61 \<le> c \<and> c \<le> 0x7A) \<or> (0x30 \<le> c \<and> c \<le> 0x39) \<or> c = 0x5F"

definition isRegexSpace :: "code_unit \<Rightarrow> bool" where
  "isRegexSpace c \<longleftrightarrow> isWhiteSpace c \<or> isLineTerminator c"

definition replace_class :: "(code_unit \<Rightarrow> bool) \<Rightarrow> jsstring \<Rightarrow> jsstring \<Rightarrow> jsstring" where
  "replace_class cls replacement s = concat (map (\<lambda>c. if cls c then replacement else [c]) s)"

lemmas regex_defs [js_defs] = isWordChar_def isRegexSpace_def replace_class_def

subsection \<open>Surrogates and well-formed strings\<close>

definition isHighSurrogate :: "code_unit \<Rightarrow> bool" where
  "isHighSurrogate c \<longleftrightarrow> 0xD800 \<le> c \<and> c \<le> 0xDBFF"

definition isLowSurrogate :: "code_unit \<Rightarrow> bool" where
  "isLowSurrogate c \<longleftrightarrow> 0xDC00 \<le> c \<and> c \<le> 0xDFFF"

fun isWellFormed :: "jsstring \<Rightarrow> bool" where
  "isWellFormed [] = True"
| "isWellFormed [c] = (\<not> isHighSurrogate c \<and> \<not> isLowSurrogate c)"
| "isWellFormed (c # d # s) =
     (if isHighSurrogate c then isLowSurrogate d \<and> isWellFormed s
      else \<not> isLowSurrogate c \<and> isWellFormed (d # s))"

definition isPlain :: "jsstring \<Rightarrow> bool" where
  "isPlain s \<longleftrightarrow> list_all (\<lambda>c. c < 0xD800) s"

subsection \<open>Numbers in template literals\<close>

fun number_to_string :: "nat \<Rightarrow> jsstring" where
  "number_to_string n =
     (if n < 10 then [0x30 + of_nat n]
      else number_to_string (n div 10) @ [0x30 + of_nat (n mod 10)])"

declare number_to_string.simps [simp del]

section \<open>Lemmas\<close>

subsection \<open>White space\<close>

lemma isStrWhiteSpace_space [simp]: "isStrWhiteSpace 0x20"
  by (simp add: white_space_defs)

subsection \<open>trim\<close>

lemma trim_js_Nil [simp]: "trim_js [] = []"
  by (simp add: trim_js_def)

lemma trim_js_all_space: "list_all isStrWhiteSpace s \<Longrightarrow> trim_js s = []"
  by (simp add: trim_js_def)

lemma trim_js_empty_iff: "trim_js s = [] \<longleftrightarrow> list_all isStrWhiteSpace s"
proof
  let ?d = "dropWhile isStrWhiteSpace s"
  assume "trim_js s = []"
  then have all: "\<forall>x \<in> set ?d. isStrWhiteSpace x"
    by (simp add: trim_js_def)
  have "?d = []"
  proof (rule ccontr)
    assume ne: "?d \<noteq> []"
    then have "\<not> isStrWhiteSpace (hd ?d)" by (rule dropWhile_hd)
    with ne all show False by (meson hd_in_set)
  qed
  then show "list_all isStrWhiteSpace s"
    by (simp add: list_all_iff)
qed (rule trim_js_all_space)

lemma trim_js_no_leading: "trim_js s \<noteq> [] \<Longrightarrow> \<not> isStrWhiteSpace (hd (trim_js s))"
proof -
  let ?d = "dropWhile isStrWhiteSpace s"
  assume ne: "trim_js s \<noteq> []"
  then have d: "?d \<noteq> []"
    by (auto simp: trim_js_def dest: set_dropWhileD)
  from ne have "hd (trim_js s) = hd ?d"
    unfolding trim_js_def by (intro prefix_hd rev_dropWhile_rev_prefix)
  with d show ?thesis
    by (simp add: hd_dropWhile)
qed

lemma trim_js_no_trailing: "trim_js s \<noteq> [] \<Longrightarrow> \<not> isStrWhiteSpace (last (trim_js s))"
  by (simp add: trim_js_def last_rev hd_dropWhile)

lemma trim_js_idem [simp]: "trim_js (trim_js s) = trim_js s"
proof (cases "trim_js s = []")
  case True
  then show ?thesis by simp
next
  case False
  with trim_js_no_leading [of s]
  have "dropWhile isStrWhiteSpace (trim_js s) = trim_js s" by simp
  moreover from False have "rev (trim_js s) \<noteq> []"
    and "\<not> isStrWhiteSpace (hd (rev (trim_js s)))"
    using trim_js_no_trailing [of s] by (simp_all add: hd_rev)
  then have "dropWhile isStrWhiteSpace (rev (trim_js s)) = rev (trim_js s)" by simp
  ultimately show ?thesis
    by (simp add: trim_js_def [of "trim_js s"])
qed

lemma length_trim_js: "length (trim_js s) \<le> length s"
  unfolding trim_js_def
  by (rule order_trans [OF length_dropWhile_rev_le length_dropWhile_le])

lemma set_trim_js: "set (trim_js s) \<subseteq> set s"
  by (auto simp: trim_js_def dest!: set_dropWhileD)

subsection \<open>substring and startsWith\<close>

lemma substring_js_0: "0 \<le> n \<Longrightarrow> substring_js s 0 n = take (nat n) s"
  by (auto simp: substring_js_def Let_def min_def max_def)

lemma length_substring_js_0: "0 \<le> n \<Longrightarrow> length (substring_js s 0 n) = min (nat n) (length s)"
  by (simp add: substring_js_0 min.commute)

lemma startsWith_js_append [simp]: "startsWith_js (p @ s) p"
  by (simp add: startsWith_js_def)

lemma startsWith_js_hd:
  "p \<noteq> [] \<Longrightarrow> s \<noteq> [] \<Longrightarrow> hd p \<noteq> hd s \<Longrightarrow> \<not> startsWith_js s p"
  by (simp add: startsWith_js_def prefix_hd_differs)

subsection \<open>split and array indexing\<close>

lemma split_js_nonempty [simp]: "split_js c s \<noteq> []"
  by (induction s) (auto split: list.splits)

lemma split_js_no_sep: "c \<notin> set s \<Longrightarrow> split_js c s = [s]"
  by (induction s) auto

lemma split_js_append_sep:
  "c \<notin> set a \<Longrightarrow> split_js c (a @ c # b) = a # split_js c b"
  by (induction a) auto

lemma length_split_js: "length (split_js c s) = Suc (count_list s c)"
  by (induction s) (auto split: list.splits)

lemma split_js_segments: "seg \<in> set (split_js c s) \<Longrightarrow> c \<notin> set seg"
proof (induction s arbitrary: seg)
  case Nil
  then show ?case by simp
next
  case (Cons x xs)
  obtain y ys where ys: "split_js c xs = y # ys"
    by (cases "split_js c xs") auto
  with Cons.IH have "c \<notin> set y" and "\<forall>z \<in> set ys. c \<notin> set z" by auto
  with Cons.prems ys show ?case
    by (auto split: if_splits)
qed

lemma join_split_js [simp]: "join_js c (split_js c s) = s"
proof (induction s)
  case Nil
  then show ?case by simp
next
  case (Cons x xs)
  obtain y ys where ys: "split_js c xs = y # ys"
    by (cases "split_js c xs") auto
  with Cons.IH show ?case
    by (cases ys) auto
qed

lemma index_js_split_data:
  "c \<notin> set a \<Longrightarrow> c \<notin> set b \<Longrightarrow> index_js (split_js c (a @ c # b)) (Suc 0) = Some b"
  by (simp add: index_js_def split_js_append_sep split_js_no_sep)

lemma index_js_split_comma:
  "c \<in> set s \<Longrightarrow> index_js (split_js c s) (Suc 0) \<noteq> None"
  by (simp add: index_js_def length_split_js count_list_0_iff)

lemma index_js_split_none: "c \<notin> set s \<Longrightarrow> index_js (split_js c s) (Suc 0) = None"
  by (simp add: index_js_def split_js_no_sep)

lemma split_data_url:
  assumes "0x2C \<notin> set mime" and "0x2C \<notin> set payload"
  shows "index_js (split_js 0x2C (data_url mime payload)) (Suc 0) = Some payload"
proof -
  have "data_url mime payload = (ascii ''data:'' @ mime @ ascii '';base64'') @ 0x2C # payload"
    by (simp add: data_url_def)
  then show ?thesis
    using assms by (simp only:) (rule index_js_split_data, simp_all)
qed

lemma data_url_not_http: "\<not> startsWith_js (data_url mime payload) (ascii ''http'')"
  by (simp add: data_url_def startsWith_js_def)

subsection \<open>Regular-expression classes and global replacement\<close>

lemma replace_class_Nil [simp]: "replace_class cls r [] = []"
  by (simp add: replace_class_def)

lemma replace_class_Cons [simp]:
  "replace_class cls r (c # s) = (if cls c then r else [c]) @ replace_class cls r s"
  by (simp add: replace_class_def)

lemma replace_class_append [simp]:
  "replace_class cls r (s @ t) = replace_class cls r s @ replace_class cls r t"
  by (simp add: replace_class_def)

lemma replace_class_delete: "replace_class cls [] s = filter (\<lambda>c. \<not> cls c) s"
  by (induction s) auto

lemma replace_class_single: "replace_class cls [r] s = map (\<lambda>c. if cls c then r else c) s"
  by (induction s) auto

lemma isRegexSpace_eq: "isRegexSpace = isStrWhiteSpace"
  by (simp add: fun_eq_iff isRegexSpace_def isStrWhiteSpace_def)

lemma underscore_isWordChar [simp]: "isWordChar 0x5F"
  by (simp add: isWordChar_def)

lemma word_not_space: "isWordChar c \<Longrightarrow> \<not> isRegexSpace c"
  unfolding isWordChar_def isRegexSpace_def isWhiteSpace_def isLineTerminator_def
  by (auto simp: word_le_nat_alt word_less_nat_alt)

subsection \<open>Numbers in template literals\<close>

lemma number_to_string_nonempty: "number_to_string n \<noteq> []"
  by (subst number_to_string.simps) simp

subsection \<open>Surrogates and well-formed strings\<close>

lemma surrogate_disjoint: "isHighSurrogate c \<Longrightarrow> \<not> isLowSurrogate c"
  unfolding isHighSurrogate_def isLowSurrogate_def by unat_arith

lemma plain_not_surrogate:
  "c < 0xD800 \<Longrightarrow> \<not> isHighSurrogate c \<and> \<not> isLowSurrogate c"
  unfolding isHighSurrogate_def isLowSurrogate_def by unat_arith

lemma isWellFormed_Cons_plain:
  "\<not> isHighSurrogate c \<Longrightarrow> isWellFormed (c # s) \<longleftrightarrow> \<not> isLowSurrogate c \<and> isWellFormed s"
  by (cases s) auto

lemma isWellFormed_snoc_high: "isHighSurrogate c \<Longrightarrow> \<not> isWellFormed (s @ [c])"
  by (induction s rule: isWellFormed.induct) (auto dest: surrogate_disjoint)

lemma isWellFormed_take:
  "isWellFormed s \<Longrightarrow> n = 0 \<or> length s \<le> n \<or> \<not> isHighSurrogate (s ! (n - 1))
     \<Longrightarrow> isWellFormed (take n s)"
proof (induction s arbitrary: n rule: isWellFormed.induct)
  case 1
  then show ?case by simp
next
  case (2 c)
  then show ?case by (cases n) auto
next
  case (3 c d s)
  consider "n = 0" | "n = 1" | k where "n = Suc (Suc k)"
    by (metis One_nat_def not0_implies_Suc)
  then show ?case
  proof cases
    case 3
    with "3.prems" have cut: "k = 0 \<or> length s \<le> k \<or> \<not> isHighSurrogate (s ! (k - 1))"
      and cut': "length (d # s) \<le> Suc k \<or> \<not> isHighSurrogate ((d # s) ! (Suc k - 1))"
      by (auto simp: nth_Cons')
    show ?thesis
    proof (cases "isHighSurrogate c")
      case True
      with "3.prems" "3.IH"(1) [OF True _ cut] 3 show ?thesis by simp
    next
      case False
      with "3.prems" have "isWellFormed (take (Suc k) (d # s))"
        using "3.IH"(2) [OF False, of "Suc k"] cut' by simp
      with False "3.prems" 3 show ?thesis by (simp add: isWellFormed_Cons_plain)
    qed
  qed (use "3.prems" in \<open>auto split: if_splits\<close>)
qed

text \<open>Cutting a well-formed string leaves it well formed exactly when the cut does
  not fall between the two halves of a surrogate pair.\<close>

lemma isWellFormed_take_iff:
  assumes "isWellFormed s"
  shows "isWellFormed (take n s)
    \<longleftrightarrow> n = 0 \<or> length s \<le> n \<or> \<not> isHighSurrogate (s ! (n - 1))"
proof
  assume wf: "isWellFormed (take n s)"
  show "n = 0 \<or> length s \<le> n \<or> \<not> isHighSurrogate (s ! (n - 1))"
  proof (cases "0 < n \<and> n < length s")
    case True
    then have "take n s = take (n - 1) s @ [s ! (n - 1)]"
      by (cases n) (simp_all add: take_Suc_conv_app_nth)
    with wf isWellFormed_snoc_high [of "s ! (n - 1)" "take (n - 1) s"] show ?thesis by auto
  qed auto
qed (rule isWellFormed_take [OF assms])

lemma isWellFormed_plain: "isPlain s \<Longrightarrow> isWellFormed s"
  unfolding isPlain_def
  by (induction s rule: isWellFormed.induct) (auto dest: plain_not_surrogate)

lemma isWellFormed_plain_append [simp]:
  "isPlain s \<Longrightarrow> isWellFormed (s @ t) \<longleftrightarrow> isWellFormed t"
  unfolding isPlain_def
  by (induction s) (auto simp: isWellFormed_Cons_plain dest: plain_not_surrogate)

lemma isWellFormed_append_plain [simp]:
  "isPlain t \<Longrightarrow> isWellFormed (s @ t) \<longleftrightarrow> isWellFormed s"
proof (induction s rule: isWellFormed.induct)
  case 1
  then show ?case by (simp add: isWellFormed_plain)
next
  case (2 c)
  with isWellFormed_plain [of t] show ?case
    by (cases t) (auto simp: isPlain_def dest: plain_not_surrogate)
next
  case (3 c d s)
  then show ?case by (auto simp: isWellFormed_Cons_plain)
qed

lemma isWellFormed_append:
  "isWellFormed s \<Longrightarrow> isWellFormed t \<Longrightarrow> isWellFormed (s @ t)"
proof (induction s rule: isWellFormed.induct)
  case (2 c)
  then show ?case by (cases t) simp_all
qed auto

lemma of_char_plain: "(of_char c :: code_unit) < 0xD800"
proof -
  have "(of_char c :: nat) < 256"
    using of_char_mod_256 [of c, where ?'a = nat] by (metis mod_less_divisor zero_less_numeral)
  with mod_less_eq_dividend [of "of_char c" 65536] have "(of_char c :: nat) mod 65536 < 55296"
    by linarith
  then have "(of_nat (of_char c) :: code_unit) < 0xD800"
    by (simp add: word_less_nat_alt unat_of_nat)
  then show ?thesis by (simp only: of_nat_of_char)
qed

lemma isPlain_ascii [simp]: "isPlain (ascii cs)"
  by (simp add: isPlain_def ascii_def list_all_iff of_char_plain)

lemma isPlain_replicate [simp]: "c < 0xD800 \<Longrightarrow> isPlain (replicate n c)"
  by (simp add: isPlain_def list_all_iff)

lemma isPlain_append [simp]: "isPlain (s @ t) \<longleftrightarrow> isPlain s \<and> isPlain t"
  by (simp add: isPlain_def)

lemma isPlain_dquote [simp]: "isPlain [dquote]"
  by (simp add: isPlain_def dquote_def)

end
