(* ===== verification/JS_Promise.thy ===== *)
theory JS_Promise
  imports Gallery_Prelude
begin

text \<open>
  How an asynchronous computation of the sources ends. A promise is fulfilled with a
  value, rejected with an error, or never settled; an \<open>async\<close> function that is
  awaited forever does not return. The three outcomes are the values of
  \<open>'a promise\<close>: \<open>Some (Inr x)\<close>, \<open>Some (Inl e)\<close> and \<open>None\<close>, written
  \<open>Fulfilled x\<close>, \<open>Rejected e\<close> and \<open>Pending\<close>.

  \<^item> \<open>await p k\<close> is \<open>const x = await p; k x\<close> inside an \<open>async\<close> function: a rejection
    of \<open>p\<close> is thrown and, uncaught, rejects the function's own promise.
  \<^item> \<open>promise_all\<close> is \<open>Promise.all\<close> (ECMA-262 27.2.4.1): rejected as soon as one
    element is rejected, fulfilled with all values in order when every element is
    fulfilled, pending otherwise. When several elements are rejected the real
    \<open>Promise.all\<close> reports the one that was rejected first in time; the model reports
    the first in list order. No caller in the sources looks at which error it got.
\<close>

datatype js_error =
    Error jsstring
  | TypeError
  | URIError
  | DOMException jsstring
  | Rejection jsstring

text \<open>
  The \<open>name\<close> property of a thrown value: the constructor's name for the built-in
  errors, the given name for a \<open>DOMException\<close>, and \<open>undefined\<close> for a value that is
  not an error object (\<open>Rejection\<close>, described by a text).
\<close>

fun error_name :: "js_error \<Rightarrow> js_opt_string" where
  "error_name (Error message) = Some (ascii ''Error'')"
| "error_name TypeError = Some (ascii ''TypeError'')"
| "error_name URIError = Some (ascii ''URIError'')"
| "error_name (DOMException name) = Some name"
| "error_name (Rejection what) = None"

type_synonym 'a settled = "js_error + 'a"
type_synonym 'a promise = "'a settled option"

abbreviation Fulfilled :: "'a \<Rightarrow> 'a promise" where
  "Fulfilled x \<equiv> Some (Inr x)"

abbreviation Rejected :: "js_error \<Rightarrow> 'a promise" where
  "Rejected e \<equiv> Some (Inl e)"

abbreviation Pending :: "'a promise" where
  "Pending \<equiv> None"

definition await :: "'a promise \<Rightarrow> ('a \<Rightarrow> 'b promise) \<Rightarrow> 'b promise" where
  "await p k = (case p of None \<Rightarrow> None | Some (Inl e) \<Rightarrow> Some (Inl e) | Some (Inr x) \<Rightarrow> k x)"

lemma await_simps [simp]:
  "await Pending k = Pending"
  "await (Rejected e) k = Rejected e"
  "await (Fulfilled x) k = k x"
  by (simp_all add: await_def)

lemma await_Fulfilled_iff:
  "await p k = Fulfilled y \<longleftrightarrow> (\<exists>x. p = Fulfilled x \<and> k x = Fulfilled y)"
  by (auto simp: await_def split: option.splits sum.splits)

lemma await_Rejected_iff:
  "await p k = Rejected e \<longleftrightarrow> p = Rejected e \<or> (\<exists>x. p = Fulfilled x \<and> k x = Rejected e)"
  by (auto simp: await_def split: option.splits sum.splits)

lemma await_Pending_iff:
  "await p k = Pending \<longleftrightarrow> p = Pending \<or> (\<exists>x. p = Fulfilled x \<and> k x = Pending)"
  by (auto simp: await_def split: option.splits sum.splits)

lemma await_Some_iff:
  "await p k = Some r \<longleftrightarrow>
     (\<exists>e. p = Rejected e \<and> r = Inl e) \<or> (\<exists>x. p = Fulfilled x \<and> k x = Some r)"
  by (auto simp: await_def split: option.splits sum.splits)

lemmas await_iffs = await_Fulfilled_iff await_Rejected_iff await_Pending_iff

lemma await_settled_mono:
  "await p f = Some r \<Longrightarrow> (\<And>x. f x = Some r \<Longrightarrow> g x = Some r) \<Longrightarrow> await p g = Some r"
  by (auto simp: await_def split: option.splits sum.splits)

lemma await_assoc: "await (await p f) g = await p (\<lambda>x. await (f x) g)"
  by (simp add: await_def split: option.splits sum.splits)

section \<open>Promise.all\<close>

fun first_rejection :: "'a promise list \<Rightarrow> js_error option" where
  "first_rejection [] = None"
| "first_rejection (Some (Inl e) # ps) = Some e"
| "first_rejection (p # ps) = first_rejection ps"

fun all_fulfilled :: "'a promise list \<Rightarrow> 'a list option" where
  "all_fulfilled [] = Some []"
| "all_fulfilled (Some (Inr x) # ps) = map_option ((#) x) (all_fulfilled ps)"
| "all_fulfilled (p # ps) = None"

definition promise_all :: "'a promise list \<Rightarrow> 'a list promise" where
  "promise_all ps =
     (case first_rejection ps of
        Some e \<Rightarrow> Rejected e
      | None \<Rightarrow> map_option Inr (all_fulfilled ps))"

lemma first_rejection_Some_iff:
  "(\<exists>e. first_rejection ps = Some e) \<longleftrightarrow> (\<exists>e. Rejected e \<in> set ps)"
  by (induction ps rule: first_rejection.induct) auto

lemma first_rejection_mem: "first_rejection ps = Some e \<Longrightarrow> Rejected e \<in> set ps"
  by (induction ps rule: first_rejection.induct) auto

lemma all_fulfilled_Some_iff:
  "all_fulfilled ps = Some xs \<longleftrightarrow> ps = map Fulfilled xs"
  by (induction ps arbitrary: xs rule: all_fulfilled.induct) auto

lemma all_fulfilled_length: "all_fulfilled ps = Some xs \<Longrightarrow> length xs = length ps"
  by (simp add: all_fulfilled_Some_iff)

lemma first_rejection_map_Fulfilled [simp]: "first_rejection (map Fulfilled xs) = None"
  by (induction xs) auto

lemma promise_all_Fulfilled_iff:
  "promise_all ps = Fulfilled xs \<longleftrightarrow> ps = map Fulfilled xs"
  by (auto simp: promise_all_def all_fulfilled_Some_iff split: option.splits)

lemma promise_all_Rejected_iff:
  "(\<exists>e. promise_all ps = Rejected e) \<longleftrightarrow> (\<exists>e. Rejected e \<in> set ps)"
  using first_rejection_Some_iff [of ps]
  by (auto simp: promise_all_def split: option.splits)

lemma promise_all_Rejected_mem: "promise_all ps = Rejected e \<Longrightarrow> Rejected e \<in> set ps"
  by (auto simp: promise_all_def first_rejection_mem split: option.splits)

lemma promise_all_Pending_iff:
  "promise_all ps = Pending \<longleftrightarrow> Pending \<in> set ps \<and> (\<forall>e. Rejected e \<notin> set ps)"
proof -
  have "first_rejection ps = None \<Longrightarrow> all_fulfilled ps = None \<longleftrightarrow> Pending \<in> set ps"
    by (induction ps rule: all_fulfilled.induct) auto
  moreover have "first_rejection ps = None \<longleftrightarrow> (\<forall>e. Rejected e \<notin> set ps)"
    using first_rejection_Some_iff [of ps] by auto
  ultimately show ?thesis
    by (auto simp: promise_all_def split: option.splits)
qed

lemma promise_all_length: "promise_all ps = Fulfilled xs \<Longrightarrow> length xs = length ps"
  by (simp add: promise_all_Fulfilled_iff)

end
