(* ===== verification/Data_URL.thy ===== *)
theory Data_URL
  imports JS_String
begin

text \<open>
  Data URLs, as the browser makes and reads them. They are the platform the program
  runs on, not code of the repository.

  \<^item> \<open>base64\<close> is the encoding of RFC 4648, section 4: three bytes are joined to a
    group of 24 bits (\<open>group3\<close>), which is cut into four groups of six bits
    (\<open>sextets\<close>), each written as one character of \<open>base64_alphabet\<close>; a last group
    of one or two bytes is filled with zero bits and its unused characters are
    written as \<open>=\<close>. \<open>base64_decode\<close> is the inverse on padded input.
  \<^item> \<open>reader_url\<close> is the result of \<open>FileReader.readAsDataURL\<close> for a blob with a
    given media type and content (File API, packaging data as a data URL).
  \<^item> \<open>data_url_decode\<close> is the way the browser reads the \<open>src\<close> of a media element
    that is a \<open>data:\<close> URL (Fetch, data URL processor), for URLs marked \<open>;base64\<close>:
    the media type is what stands before the first comma, the content is the
    decoded rest.
\<close>

unbundle bit_operations_syntax

section \<open>Definitions\<close>

subsection \<open>Base64\<close>

type_synonym byte = "8 word"
type_synonym sextet = "6 word"

definition base64_alphabet :: jsstring where
  "base64_alphabet =
     ascii ''ABCDEFGHIJKLMNOPQRSTUVWXYZabcdefghijklmnopqrstuvwxyz0123456789+/''"

definition pad :: code_unit where
  "pad = 0x3D"

fun index_of :: "'a \<Rightarrow> 'a list \<Rightarrow> nat option" where
  "index_of c [] = None"
| "index_of c (x # xs) = (if x = c then Some 0 else map_option Suc (index_of c xs))"

definition b64_char :: "sextet \<Rightarrow> code_unit" where
  "b64_char s = base64_alphabet ! unat s"

definition b64_index :: "code_unit \<Rightarrow> sextet option" where
  "b64_index c = map_option of_nat (index_of c base64_alphabet)"

definition group3 :: "byte \<Rightarrow> byte \<Rightarrow> byte \<Rightarrow> 24 word" where
  "group3 a b c = word_cat (word_cat a b :: 16 word) c"

definition sextets :: "24 word \<Rightarrow> sextet list" where
  "sextets n = [ucast (drop_bit 18 n), ucast (drop_bit 12 n), ucast (drop_bit 6 n), ucast n]"

definition group4 :: "sextet \<Rightarrow> sextet \<Rightarrow> sextet \<Rightarrow> sextet \<Rightarrow> 24 word" where
  "group4 s1 s2 s3 s4 = word_cat (word_cat (word_cat s1 s2 :: 12 word) s3 :: 18 word) s4"

definition bytes :: "24 word \<Rightarrow> byte list" where
  "bytes n = [ucast (drop_bit 16 n), ucast (drop_bit 8 n), ucast n]"

fun base64 :: "byte list \<Rightarrow> jsstring" where
  "base64 [] = []"
| "base64 [a] = map b64_char (take 2 (sextets (group3 a 0 0))) @ [pad, pad]"
| "base64 [a, b] = map b64_char (take 3 (sextets (group3 a b 0))) @ [pad]"
| "base64 (a # b # c # bs) = map b64_char (sextets (group3 a b c)) @ base64 bs"

definition quad :: "code_unit \<Rightarrow> code_unit \<Rightarrow> code_unit \<Rightarrow> code_unit \<Rightarrow> byte list option" where
  "quad c1 c2 c3 c4 =
     (case (b64_index c1, b64_index c2, b64_index c3, b64_index c4) of
        (Some s1, Some s2, Some s3, Some s4) \<Rightarrow> Some (bytes (group4 s1 s2 s3 s4))
      | _ \<Rightarrow> None)"

fun base64_decode :: "jsstring \<Rightarrow> byte list option" where
  "base64_decode [] = Some []"
| "base64_decode (c1 # c2 # c3 # c4 # cs) =
     (if cs = [] \<and> c4 = pad
      then (if c3 = pad then map_option (take 1) (quad c1 c2 (b64_char 0) (b64_char 0))
            else map_option (take 2) (quad c1 c2 c3 (b64_char 0)))
      else (case quad c1 c2 c3 c4 of
              None \<Rightarrow> None
            | Some bs \<Rightarrow> map_option ((@) bs) (base64_decode cs)))"
| "base64_decode cs = None"

subsection \<open>Data URLs\<close>

definition reader_url :: "jsstring \<Rightarrow> byte list \<Rightarrow> jsstring" where
  "reader_url mime content = data_url mime (base64 content)"

definition data_url_decode :: "jsstring \<Rightarrow> (jsstring \<times> byte list) option" where
  "data_url_decode url =
     (if \<not> startsWith_js url (ascii ''data:'') then None
      else let rest = drop 5 url;
               head = takeWhile (\<lambda>c. c \<noteq> 0x2C) rest
           in if head = rest \<or> \<not> suffix (ascii '';base64'') head then None
              else map_option (Pair (take (length head - 7) head))
                     (base64_decode (drop (Suc (length head)) rest)))"

section \<open>Lemmas\<close>

subsection \<open>Groups of bits\<close>

lemma bytes_group3 [simp]: "bytes (group3 a b c) = [a, b, c]"
  unfolding bytes_def group3_def
  by (auto intro!: bit_word_eqI simp: bit_simps split: if_splits)

lemma group4_sextets:
  "sextets n = [s1, s2, s3, s4] \<Longrightarrow> group4 s1 s2 s3 s4 = n"
  unfolding group4_def sextets_def
  by (auto intro!: bit_word_eqI simp: bit_simps split: if_splits)

lemma sextets_pad2: "\<exists>s1 s2. sextets (group3 a 0 0) = [s1, s2, 0, 0]"
  unfolding sextets_def group3_def
  by (auto intro!: bit_word_eqI simp: bit_simps split: if_splits)

lemma sextets_pad1: "\<exists>s1 s2 s3. sextets (group3 a b 0) = [s1, s2, s3, 0]"
  unfolding sextets_def group3_def
  by (auto intro!: bit_word_eqI simp: bit_simps split: if_splits)

lemma sextets_four: "\<exists>s1 s2 s3 s4. sextets n = [s1, s2, s3, s4]"
  by (simp add: sextets_def)

subsection \<open>The alphabet\<close>

lemma index_of_nth: "distinct xs \<Longrightarrow> n < length xs \<Longrightarrow> index_of (xs ! n) xs = Some n"
proof (induction xs arbitrary: n)
  case Nil
  then show ?case by simp
next
  case (Cons x xs)
  then show ?case by (cases n) auto
qed

lemma length_base64_alphabet [simp]: "length base64_alphabet = 64"
  by (simp add: base64_alphabet_def)

lemma distinct_base64_alphabet: "distinct base64_alphabet"
  by (simp add: base64_alphabet_def)

lemma unat_sextet: "unat (s :: sextet) < 64"
  using unsigned_less [of s, where ?'a = nat] by simp

lemma b64_char_alphabet: "b64_char s \<in> set base64_alphabet"
  by (simp add: b64_char_def unat_sextet)

lemma b64_index_char [simp]: "b64_index (b64_char s) = Some s"
  by (simp add: b64_index_def b64_char_def index_of_nth distinct_base64_alphabet unat_sextet)

lemma alphabet_no_pad: "pad \<notin> set base64_alphabet"
  by (simp add: base64_alphabet_def pad_def)

lemma alphabet_no_comma: "0x2C \<notin> set base64_alphabet"
  by (simp add: base64_alphabet_def)

lemma b64_char_not_pad [simp]: "b64_char s \<noteq> pad"
  using b64_char_alphabet [of s] alphabet_no_pad by auto

lemma b64_char_not_comma [simp]: "b64_char s \<noteq> 0x2C"
  using b64_char_alphabet [of s] alphabet_no_comma by auto

subsection \<open>Encoding and decoding\<close>

lemma quad_chars [simp]:
  "quad (b64_char s1) (b64_char s2) (b64_char s3) (b64_char s4) = Some (bytes (group4 s1 s2 s3 s4))"
  by (simp add: quad_def)

lemma base64_decode_base64 [simp]: "base64_decode (base64 bs) = Some bs"
proof (induction bs rule: base64.induct)
  case 1
  show ?case by simp
next
  case (2 a)
  from sextets_pad2 [of a] obtain s1 s2 where s: "sextets (group3 a 0 0) = [s1, s2, 0, 0]"
    by blast
  from group4_sextets [OF this] s show ?case by simp
next
  case (3 a b)
  from sextets_pad1 [of a b] obtain s1 s2 s3 where s: "sextets (group3 a b 0) = [s1, s2, s3, 0]"
    by blast
  from group4_sextets [OF this] s show ?case by simp
next
  case (4 a b c bs)
  from sextets_four [of "group3 a b c"] obtain s1 s2 s3 s4
    where s: "sextets (group3 a b c) = [s1, s2, s3, s4]"
    by blast
  from group4_sextets [OF this] s 4 show ?case by simp
qed

lemma base64_inj: "base64 bs = base64 bs' \<Longrightarrow> bs = bs'"
  by (metis base64_decode_base64 option.inject)

lemma length_base64: "length (base64 bs) = 4 * ((length bs + 2) div 3)"
  by (induction bs rule: base64.induct) (simp_all add: sextets_def, arith)

lemma base64_no_comma [simp]: "0x2C \<notin> set (base64 bs)"
  by (induction bs rule: base64.induct) (auto simp: pad_def sextets_def)

subsection \<open>Data URLs\<close>

lemma takeWhile_until: "c \<notin> set xs \<Longrightarrow> takeWhile (\<lambda>x. x \<noteq> c) (xs @ c # ys) = xs"
  by (induction xs) auto

lemma data_url_decode_data_url:
  assumes "0x2C \<notin> set mime"
  shows "data_url_decode (data_url mime payload)
     = map_option (Pair mime) (base64_decode payload)"
proof -
  let ?rest = "mime @ ascii '';base64'' @ 0x2C # payload"
  have "takeWhile (\<lambda>c. c \<noteq> 0x2C) ?rest = mime @ ascii '';base64''"
    using assms takeWhile_until [of "0x2C" "mime @ ascii '';base64''" payload] by simp
  moreover have "data_url mime payload = ascii ''data:'' @ ?rest"
    by (simp add: data_url_def)
  ultimately show ?thesis
    by (simp add: data_url_decode_def startsWith_js_def Let_def suffix_def)
qed

lemma data_url_decode_reader_url:
  "0x2C \<notin> set mime \<Longrightarrow> data_url_decode (reader_url mime content) = Some (mime, content)"
  by (simp add: reader_url_def data_url_decode_data_url)

end
