(* ===== verification/URI_Decode.thy ===== *)
theory URI_Decode
  imports JS_String JS_Promise
begin

text \<open>
  \<open>decodeURIComponent\<close>, the built-in that \<open>generateVideoFromText\<close> applies to the URI
  of every generated video before it downloads it, as ECMA-262 defines it (19.2.6.3,
  through the abstract operation \<open>Decode\<close> of 19.2.6.6 with an empty set of preserved
  escapes), on strings as lists of UTF-16 code units. It is the platform, not code of
  the repository.

  \<^item> \<open>ParseHexOctet\<close> reads two hexadecimal digits; \<open>leading_ones\<close> counts the leading
    1 bits of an octet; \<open>continuation\<close> reads the \<open>%XX\<close> groups that follow the
    first octet of a multi-byte sequence; \<open>valid_utf8\<close> is the table of well-formed
    UTF-8 byte sequences of the Unicode standard (table 3-7) and \<open>utf8_value\<close> the
    code point such a sequence stands for; \<open>UTF16EncodeCodePoint\<close> is the operation
    of that name (11.1.1).
  \<^item> \<open>decode_escape\<close> is what \<open>Decode\<close> does after a percent sign: the code units
    the escape stands for and the number of code units it takes, or nothing where
    ECMA-262 throws a \<open>URIError\<close>. \<open>Decode\<close> is the loop over the string.
  \<^item> \<open>Encode\<close> is \<open>encodeURIComponent\<close> (19.2.6.5 with the unreserved marks and
    alphanumerics left as they are). The program does not call it; it is the
    reference against which \<open>Decode\<close> is checked.

  Octets and code points are natural numbers, as the numbers of ECMA-262 are; nothing
  here can overflow. The lemmas show that decoding undoes encoding, that encoding
  succeeds exactly on well-formed strings, that the table of UTF-8 sequences is the
  image of the arithmetic encoder on the scalar values from \<open>0x80\<close>, that decoding
  never lengthens a string and leaves it unchanged exactly when it has no percent
  sign, and that it keeps a string well formed.
\<close>

section \<open>Definitions\<close>

subsection \<open>Octets in hexadecimal\<close>

definition hex_value :: "code_unit \<Rightarrow> nat option" where
  "hex_value c =
     (if 0x30 \<le> c \<and> c \<le> 0x39 then Some (unat c - 0x30)
      else if 0x41 \<le> c \<and> c \<le> 0x46 then Some (unat c - 0x37)
      else if 0x61 \<le> c \<and> c \<le> 0x66 then Some (unat c - 0x57)
      else None)"

fun ParseHexOctet :: "jsstring \<Rightarrow> nat option" where
  "ParseHexOctet (h # l # s) =
     (case (hex_value h, hex_value l) of
        (Some a, Some b) \<Rightarrow> Some (16 * a + b)
      | _ \<Rightarrow> None)"
| "ParseHexOctet s = None"

definition hex_digit :: "nat \<Rightarrow> code_unit" where
  "hex_digit d = (if d < 10 then of_nat (0x30 + d) else of_nat (0x37 + d))"

definition hex_octet :: "nat \<Rightarrow> jsstring" where
  "hex_octet B = [hex_digit (B div 16), hex_digit (B mod 16)]"

definition escape :: "nat \<Rightarrow> jsstring" where
  "escape B = 0x25 # hex_octet B"

subsection \<open>UTF-8\<close>

definition leading_ones :: "nat \<Rightarrow> nat" where
  "leading_ones B = length (takeWhile (bit B) [7, 6, 5, 4, 3, 2, 1, 0])"

definition continuation_octet :: "nat \<Rightarrow> bool" where
  "continuation_octet b \<longleftrightarrow> 0x80 \<le> b \<and> b \<le> 0xBF"

fun valid_utf8 :: "nat list \<Rightarrow> bool" where
  "valid_utf8 [b0, b1] \<longleftrightarrow> 0xC2 \<le> b0 \<and> b0 \<le> 0xDF \<and> continuation_octet b1"
| "valid_utf8 [b0, b1, b2] \<longleftrightarrow>
     (b0 = 0xE0 \<and> 0xA0 \<le> b1 \<and> b1 \<le> 0xBF
      \<or> 0xE1 \<le> b0 \<and> b0 \<le> 0xEC \<and> continuation_octet b1
      \<or> b0 = 0xED \<and> 0x80 \<le> b1 \<and> b1 \<le> 0x9F
      \<or> 0xEE \<le> b0 \<and> b0 \<le> 0xEF \<and> continuation_octet b1)
     \<and> continuation_octet b2"
| "valid_utf8 [b0, b1, b2, b3] \<longleftrightarrow>
     (b0 = 0xF0 \<and> 0x90 \<le> b1 \<and> b1 \<le> 0xBF
      \<or> 0xF1 \<le> b0 \<and> b0 \<le> 0xF3 \<and> continuation_octet b1
      \<or> b0 = 0xF4 \<and> 0x80 \<le> b1 \<and> b1 \<le> 0x8F)
     \<and> continuation_octet b2 \<and> continuation_octet b3"
| "valid_utf8 bs \<longleftrightarrow> False"

fun utf8_value :: "nat list \<Rightarrow> nat" where
  "utf8_value [b0, b1] = (b0 mod 32) * 64 + b1 mod 64"
| "utf8_value [b0, b1, b2] = (b0 mod 16) * 4096 + (b1 mod 64) * 64 + b2 mod 64"
| "utf8_value [b0, b1, b2, b3] =
     (b0 mod 8) * 262144 + (b1 mod 64) * 4096 + (b2 mod 64) * 64 + b3 mod 64"
| "utf8_value bs = 0"

definition utf8_encode :: "nat \<Rightarrow> nat list" where
  "utf8_encode cp =
     (if cp < 0x80 then [cp]
      else if cp < 0x800 then [0xC0 + cp div 64, 0x80 + cp mod 64]
      else if cp < 0x10000 then
        [0xE0 + cp div 4096, 0x80 + cp div 64 mod 64, 0x80 + cp mod 64]
      else [0xF0 + cp div 262144, 0x80 + cp div 4096 mod 64, 0x80 + cp div 64 mod 64,
            0x80 + cp mod 64])"

subsection \<open>UTF-16\<close>

definition UTF16EncodeCodePoint :: "nat \<Rightarrow> jsstring" where
  "UTF16EncodeCodePoint cp =
     (if cp \<le> 0xFFFF then [of_nat cp]
      else [of_nat ((cp - 0x10000) div 0x400 + 0xD800),
            of_nat ((cp - 0x10000) mod 0x400 + 0xDC00)])"

definition UTF16SurrogatePairToCodePoint :: "code_unit \<Rightarrow> code_unit \<Rightarrow> nat" where
  "UTF16SurrogatePairToCodePoint lead trail =
     (unat lead - 0xD800) * 0x400 + (unat trail - 0xDC00) + 0x10000"

definition scalar_value :: "nat \<Rightarrow> bool" where
  "scalar_value cp \<longleftrightarrow> cp < 0xD800 \<or> 0xE000 \<le> cp \<and> cp \<le> 0x10FFFF"

subsection \<open>Decode\<close>

fun continuation :: "nat \<Rightarrow> jsstring \<Rightarrow> nat list option" where
  "continuation 0 s = Some []"
| "continuation (Suc j) s =
     (case s of
        p # s' \<Rightarrow>
          if p \<noteq> 0x25 then None
          else (case ParseHexOctet s' of
                  None \<Rightarrow> None
                | Some b \<Rightarrow> map_option ((#) b) (continuation j (drop 2 s')))
      | [] \<Rightarrow> None)"

definition decode_escape :: "jsstring \<Rightarrow> (jsstring \<times> nat) option" where
  "decode_escape s =
     (case ParseHexOctet s of
        None \<Rightarrow> None
      | Some B \<Rightarrow>
          if leading_ones B = 0 then Some ([of_nat B], 2)
          else if leading_ones B = 1 \<or> 4 < leading_ones B then None
          else (case continuation (leading_ones B - 1) (drop 2 s) of
                  None \<Rightarrow> None
                | Some bs \<Rightarrow>
                    if \<not> valid_utf8 (B # bs) then None
                    else Some (UTF16EncodeCodePoint (utf8_value (B # bs)),
                               2 + 3 * (leading_ones B - 1))))"

fun Decode :: "jsstring \<Rightarrow> jsstring option" where
  "Decode [] = Some []"
| "Decode (C # s) =
     (if C \<noteq> 0x25 then map_option ((#) C) (Decode s)
      else (case decode_escape s of
              None \<Rightarrow> None
            | Some (S, k) \<Rightarrow> map_option ((@) S) (Decode (drop k s))))"

definition decodeURIComponent_js :: "jsstring \<Rightarrow> js_error + jsstring" where
  "decodeURIComponent_js uri = (case Decode uri of None \<Rightarrow> Inl URIError | Some s \<Rightarrow> Inr s)"

subsection \<open>Encode\<close>

definition uriUnescaped :: "code_unit \<Rightarrow> bool" where
  "uriUnescaped c \<longleftrightarrow>
     0x30 \<le> c \<and> c \<le> 0x39 \<or> 0x41 \<le> c \<and> c \<le> 0x5A \<or> 0x61 \<le> c \<and> c \<le> 0x7A
     \<or> c \<in> set (ascii ''-_.!~*()'') \<or> c = 0x27"

fun Encode :: "jsstring \<Rightarrow> jsstring option" where
  "Encode [] = Some []"
| "Encode (C # s) =
     (if uriUnescaped C then map_option ((#) C) (Encode s)
      else if isLowSurrogate C then None
      else if isHighSurrogate C then
        (case s of
           [] \<Rightarrow> None
         | D # t \<Rightarrow>
             if isLowSurrogate D
             then map_option
                    ((@) (concat (map escape (utf8_encode (UTF16SurrogatePairToCodePoint C D)))))
                    (Encode t)
             else None)
      else map_option ((@) (concat (map escape (utf8_encode (unat C))))) (Encode s))"


section \<open>Lemmas\<close>

subsection \<open>Hexadecimal digits and leading bits\<close>

lemma unat_code_unit: "n < 65536 \<Longrightarrow> unat (of_nat n :: code_unit) = n"
  by (simp add: unat_of_nat)

lemma hex_value_of_nat:
  "n < 65536 \<Longrightarrow> hex_value (of_nat n) =
     (if 48 \<le> n \<and> n \<le> 57 then Some (n - 48)
      else if 65 \<le> n \<and> n \<le> 70 then Some (n - 55)
      else if 97 \<le> n \<and> n \<le> 102 then Some (n - 87) else None)"
  by (simp add: hex_value_def word_le_nat_alt unat_code_unit)

lemma hex_value_digit: "d < 16 \<Longrightarrow> hex_value (hex_digit d) = Some d"
  using hex_value_of_nat [of "48 + d"] hex_value_of_nat [of "55 + d"]
  by (simp add: hex_digit_def)

lemma ParseHexOctet_hex_octet [simp]: "B < 256 \<Longrightarrow> ParseHexOctet (hex_octet B @ s) = Some B"
  by (simp add: hex_octet_def hex_value_digit less_mult_imp_div_less)

lemma length_hex_octet [simp]: "length (hex_octet B) = 2"
  by (simp add: hex_octet_def)

lemma mod_range:
  fixes b :: nat
  assumes "q * m \<le> b" and "b < Suc q * m"
  shows "b mod m = b - q * m" and "b div m = q"
proof -
  show "b div m = q"
    using assms by (intro div_nat_eqI) (simp_all add: mult.commute)
  then show "b mod m = b - q * m"
    by (simp add: modulo_nat_def)
qed

lemma bit_range:
  fixes B :: nat
  assumes "q * 2 ^ n \<le> B" and "B < Suc q * 2 ^ n"
  shows "bit B n \<longleftrightarrow> odd q"
  using mod_range(2) [OF assms] by (simp add: bit_iff_odd)

lemma leading_ones_0: "B < 0x80 \<Longrightarrow> leading_ones B = 0"
  using bit_range [of 0 7 B] by (simp add: leading_ones_def)

lemma leading_ones_1: "0x80 \<le> B \<Longrightarrow> B < 0xC0 \<Longrightarrow> leading_ones B = 1"
  using bit_range [of 1 7 B] bit_range [of 2 6 B] by (simp add: leading_ones_def)

lemma leading_ones_2: "0xC0 \<le> B \<Longrightarrow> B < 0xE0 \<Longrightarrow> leading_ones B = 2"
  using bit_range [of 1 7 B] bit_range [of 3 6 B] bit_range [of 6 5 B]
  by (simp add: leading_ones_def)

lemma leading_ones_3: "0xE0 \<le> B \<Longrightarrow> B < 0xF0 \<Longrightarrow> leading_ones B = 3"
  using bit_range [of 1 7 B] bit_range [of 3 6 B] bit_range [of 7 5 B] bit_range [of 14 4 B]
  by (simp add: leading_ones_def)

lemma leading_ones_4: "0xF0 \<le> B \<Longrightarrow> B < 0xF8 \<Longrightarrow> leading_ones B = 4"
  using bit_range [of 1 7 B] bit_range [of 3 6 B] bit_range [of 7 5 B] bit_range [of 15 4 B]
    bit_range [of 30 3 B]
  by (simp add: leading_ones_def)

lemma leading_ones_more: "0xF8 \<le> B \<Longrightarrow> B < 0x100 \<Longrightarrow> 4 < leading_ones B"
  using bit_range [of 1 7 B] bit_range [of 3 6 B] bit_range [of 7 5 B] bit_range [of 15 4 B]
    bit_range [of 31 3 B]
  by (simp add: leading_ones_def)

lemmas leading_ones_simps =
  leading_ones_0 leading_ones_1 leading_ones_2 leading_ones_3 leading_ones_4

subsection \<open>UTF-8: the table and the arithmetic\<close>

lemma valid_utf8_cases [consumes 1, case_names two three four]:
  assumes "valid_utf8 bs"
  obtains b0 b1 where "bs = [b0, b1]" and "valid_utf8 [b0, b1]"
  | b0 b1 b2 where "bs = [b0, b1, b2]" and "valid_utf8 [b0, b1, b2]"
  | b0 b1 b2 b3 where "bs = [b0, b1, b2, b3]" and "valid_utf8 [b0, b1, b2, b3]"
  using assms by (cases bs rule: valid_utf8.cases) auto

lemma valid_utf8_lead: "valid_utf8 bs \<Longrightarrow> leading_ones (hd bs) = length bs"
  by (erule valid_utf8_cases) (auto simp: leading_ones_simps)

lemma valid_utf8_octets: "valid_utf8 bs \<Longrightarrow> list_all (\<lambda>b. b < 256) bs"
  by (erule valid_utf8_cases) (auto simp: continuation_octet_def)

lemma octet_mod:
  fixes b :: nat
  shows "128 \<le> b \<Longrightarrow> b \<le> 191 \<Longrightarrow> b mod 64 = b - 128"
    and "192 \<le> b \<Longrightarrow> b \<le> 223 \<Longrightarrow> b mod 32 = b - 192"
    and "224 \<le> b \<Longrightarrow> b \<le> 239 \<Longrightarrow> b mod 16 = b - 224"
    and "240 \<le> b \<Longrightarrow> b \<le> 247 \<Longrightarrow> b mod 8 = b - 240"
  using mod_range(1) [of 2 64 b] mod_range(1) [of 6 32 b] mod_range(1) [of 14 16 b]
    mod_range(1) [of 30 8 b]
  by simp_all

lemma valid_utf8_value2:
  "valid_utf8 [b0, b1] \<Longrightarrow> 0x80 \<le> utf8_value [b0, b1] \<and> utf8_value [b0, b1] < 0x800"
  by (auto simp: continuation_octet_def octet_mod)

lemma valid_utf8_value3:
  "valid_utf8 [b0, b1, b2] \<Longrightarrow>
     0x800 \<le> utf8_value [b0, b1, b2] \<and> utf8_value [b0, b1, b2] < 0x10000
     \<and> scalar_value (utf8_value [b0, b1, b2])"
  by (auto simp: continuation_octet_def scalar_value_def octet_mod)

lemma valid_utf8_value4:
  "valid_utf8 [b0, b1, b2, b3] \<Longrightarrow>
     0x10000 \<le> utf8_value [b0, b1, b2, b3] \<and> utf8_value [b0, b1, b2, b3] \<le> 0x10FFFF"
  by (auto simp: continuation_octet_def octet_mod)

lemma valid_utf8_scalar:
  assumes "valid_utf8 bs"
  shows "scalar_value (utf8_value bs) \<and> 0x80 \<le> utf8_value bs"
  using assms
proof (cases rule: valid_utf8_cases)
  case (two b0 b1)
  with valid_utf8_value2 [OF two(2)] show ?thesis
    by (simp add: scalar_value_def)
next
  case (three b0 b1 b2)
  with valid_utf8_value3 [OF three(2)] show ?thesis
    by simp
next
  case (four b0 b1 b2 b3)
  with valid_utf8_value4 [OF four(2)] show ?thesis
    by (simp add: scalar_value_def)
qed

lemma lead_mod:
  fixes q :: nat
  shows "q < 64 \<Longrightarrow> (128 + q) mod 64 = q"
    and "q < 32 \<Longrightarrow> (192 + q) mod 32 = q"
    and "q < 16 \<Longrightarrow> (224 + q) mod 16 = q"
    and "q < 8 \<Longrightarrow> (240 + q) mod 8 = q"
  using mod_range(1) [of 2 64 "128 + q"] mod_range(1) [of 6 32 "192 + q"]
    mod_range(1) [of 14 16 "224 + q"] mod_range(1) [of 30 8 "240 + q"]
  by simp_all

lemma digits64:
  fixes cp :: nat
  shows "cp div 64 * 64 + cp mod 64 = cp"
    and "cp div 4096 * 4096 + cp div 64 mod 64 * 64 + cp mod 64 = cp"
    and "cp div 262144 * 262144 + cp div 4096 mod 64 * 4096 + cp div 64 mod 64 * 64 + cp mod 64
          = cp"
proof -
  have a: "cp div 4096 = cp div 64 div 64" and b: "cp div 262144 = cp div 4096 div 64"
    by (simp_all add: div_mult2_eq [symmetric])
  show "cp div 64 * 64 + cp mod 64 = cp"
    by simp
  then show "cp div 4096 * 4096 + cp div 64 mod 64 * 64 + cp mod 64 = cp"
    using div_mult_mod_eq [of "cp div 64" 64] unfolding a by linarith
  then show "cp div 262144 * 262144 + cp div 4096 mod 64 * 4096 + cp div 64 mod 64 * 64
      + cp mod 64 = cp"
    using div_mult_mod_eq [of "cp div 4096" 64] unfolding b by linarith
qed

lemma utf8_value_encode:
  assumes "0x80 \<le> cp" and "cp \<le> 0x10FFFF"
  shows "utf8_value (utf8_encode cp) = cp"
proof -
  have "cp < 0x800 \<Longrightarrow> cp div 64 < 32" "cp < 0x10000 \<Longrightarrow> cp div 4096 < 16"
    "cp div 262144 < 8"
    using assms by linarith+
  then show ?thesis
    using assms by (simp add: utf8_encode_def lead_mod digits64)
qed

lemma utf8_encode_valid_2:
  assumes "0x80 \<le> cp" and "cp < 0x800"
  shows "valid_utf8 (utf8_encode cp)"
proof -
  from assms have "2 \<le> cp div 64" "cp div 64 < 32"
    by linarith+
  with assms show ?thesis
    by (simp add: utf8_encode_def continuation_octet_def)
qed

lemma utf8_encode_valid_3:
  assumes "scalar_value cp" and "0x800 \<le> cp" and "cp < 0x10000"
  shows "valid_utf8 (utf8_encode cp)"
proof -
  define x z w where "x = cp div 4096" and "z = cp div 64 mod 64" and "w = cp mod 64"
  note defs = x_def z_def w_def
  have bounds: "z < 64" "w < 64"
    by (simp_all add: defs)
  have "x * 4096 + z * 64 + w = cp"
    unfolding defs by (rule digits64)
  with assms bounds have "x < 16" "x = 0 \<longrightarrow> 32 \<le> z" "x = 13 \<longrightarrow> z < 32"
    unfolding scalar_value_def by linarith+
  moreover from assms have "utf8_encode cp = [224 + x, 128 + z, 128 + w]"
    by (simp add: utf8_encode_def defs)
  ultimately show ?thesis
    using bounds by (auto simp: continuation_octet_def)
qed

lemma utf8_encode_valid_4:
  assumes "0x10000 \<le> cp" and "cp \<le> 0x10FFFF"
  shows "valid_utf8 (utf8_encode cp)"
proof -
  define x y z w where "x = cp div 262144" and "y = cp div 4096 mod 64"
    and "z = cp div 64 mod 64" and "w = cp mod 64"
  note defs = x_def y_def z_def w_def
  have bounds: "y < 64" "z < 64" "w < 64"
    by (simp_all add: defs)
  have "x * 262144 + y * 4096 + z * 64 + w = cp"
    unfolding defs by (rule digits64)
  with assms bounds have "x \<le> 4" "x = 0 \<longrightarrow> 16 \<le> y" "x = 4 \<longrightarrow> y < 16"
    by linarith+
  moreover from assms have "utf8_encode cp = [240 + x, 128 + y, 128 + z, 128 + w]"
    by (simp add: utf8_encode_def defs)
  ultimately show ?thesis
    using bounds by (auto simp: continuation_octet_def)
qed

lemma utf8_encode_valid:
  assumes "scalar_value cp" and "0x80 \<le> cp"
  shows "valid_utf8 (utf8_encode cp)"
proof -
  consider "cp < 0x800" | "0x800 \<le> cp" "cp < 0x10000" | "0x10000 \<le> cp" "cp \<le> 0x10FFFF"
    using assms(1) unfolding scalar_value_def by linarith
  then show ?thesis
    using assms by cases (simp_all add: utf8_encode_valid_2 utf8_encode_valid_3 utf8_encode_valid_4)
qed

lemma digits_div_mod:
  fixes x y :: nat
  assumes "y < 64"
  shows "(x * 64 + y) div 64 = x" and "(x * 64 + y) mod 64 = y"
  using assms by simp_all

lemma div_steps:
  fixes t :: nat
  shows "t div 4096 = t div 64 div 64" and "t div 262144 = t div 64 div 64 div 64"
  by (simp_all add: div_mult2_eq [symmetric])

lemma digits_3:
  fixes x y z :: nat
  assumes "y < 64" and "z < 64"
  shows "((x * 64 + y) * 64 + z) div 4096 = x" and "((x * 64 + y) * 64 + z) div 64 mod 64 = y"
    and "((x * 64 + y) * 64 + z) mod 64 = z"
  using assms unfolding div_steps by (simp_all only: digits_div_mod)

lemma digits_4:
  fixes x y z w :: nat
  assumes "y < 64" and "z < 64" and "w < 64"
  shows "(((x * 64 + y) * 64 + z) * 64 + w) div 262144 = x"
    and "(((x * 64 + y) * 64 + z) * 64 + w) div 4096 mod 64 = y"
    and "(((x * 64 + y) * 64 + z) * 64 + w) div 64 mod 64 = z"
    and "(((x * 64 + y) * 64 + z) * 64 + w) mod 64 = w"
  using assms unfolding div_steps by (simp_all only: digits_div_mod)

lemma utf8_encode_2:
  assumes "2 \<le> x" "x < 32" "y < 64"
  shows "utf8_encode (x * 64 + y) = [192 + x, 128 + y]"
proof -
  from assms have "128 \<le> x * 64 + y" "x * 64 + y < 2048"
    by linarith+
  with assms show ?thesis
    unfolding utf8_encode_def by (simp add: digits_div_mod)
qed

lemma utf8_encode_3:
  assumes "x < 16" "y < 64" "z < 64" "0x800 \<le> (x * 64 + y) * 64 + z"
  shows "utf8_encode ((x * 64 + y) * 64 + z) = [224 + x, 128 + y, 128 + z]"
proof -
  from assms have "(x * 64 + y) * 64 + z < 0x10000"
    by simp
  with assms show ?thesis
    unfolding utf8_encode_def by (simp only: digits_3) simp
qed

lemma utf8_encode_4:
  assumes "y < 64" "z < 64" "w < 64" "0x10000 \<le> ((x * 64 + y) * 64 + z) * 64 + w"
  shows "utf8_encode (((x * 64 + y) * 64 + z) * 64 + w) = [240 + x, 128 + y, 128 + z, 128 + w]"
  using assms unfolding utf8_encode_def by (simp only: digits_4) simp

lemma utf8_encode_value:
  assumes "valid_utf8 bs"
  shows "utf8_encode (utf8_value bs) = bs"
  using assms
proof (cases rule: valid_utf8_cases)
  case (two b0 b1)
  define x y where "x = b0 - 192" and "y = b1 - 128"
  with two(2) have *: "b0 = 192 + x" "b1 = 128 + y" "2 \<le> x" "x < 32" "y < 64"
    by (auto simp: continuation_octet_def)
  then have v: "utf8_value bs = x * 64 + y"
    by (simp add: two(1) lead_mod)
  have "utf8_encode (utf8_value bs) = [192 + x, 128 + y]"
    unfolding v using * by (intro utf8_encode_2)
  also have "\<dots> = bs"
    by (simp add: two(1) *(1,2))
  finally show ?thesis .
next
  case (three b0 b1 b2)
  define x y z where "x = b0 - 224" and "y = b1 - 128" and "z = b2 - 128"
  with three(2) have *: "b0 = 224 + x" "b1 = 128 + y" "b2 = 128 + z" "x < 16" "y < 64" "z < 64"
    by (auto simp: continuation_octet_def)
  then have v: "utf8_value bs = (x * 64 + y) * 64 + z"
    by (simp add: three(1) lead_mod)
  with valid_utf8_value3 [OF three(2)] three(1) have "0x800 \<le> (x * 64 + y) * 64 + z"
    by simp
  then have "utf8_encode (utf8_value bs) = [224 + x, 128 + y, 128 + z]"
    unfolding v using * by (intro utf8_encode_3)
  also have "\<dots> = bs"
    by (simp add: three(1) *(1-3))
  finally show ?thesis .
next
  case (four b0 b1 b2 b3)
  define x y z w where "x = b0 - 240" and "y = b1 - 128" and "z = b2 - 128" and "w = b3 - 128"
  with four(2) have *: "b0 = 240 + x" "b1 = 128 + y" "b2 = 128 + z" "b3 = 128 + w"
    "y < 64" "z < 64" "w < 64" "x < 8"
    by (auto simp: continuation_octet_def)
  then have v: "utf8_value bs = ((x * 64 + y) * 64 + z) * 64 + w"
    by (simp add: four(1) lead_mod)
  with valid_utf8_value4 [OF four(2)] four(1) have "0x10000 \<le> ((x * 64 + y) * 64 + z) * 64 + w"
    by simp
  then have "utf8_encode (utf8_value bs) = [240 + x, 128 + y, 128 + z, 128 + w]"
    unfolding v using * by (intro utf8_encode_4)
  also have "\<dots> = bs"
    by (simp add: four(1) *(1-4))
  finally show ?thesis .
qed

lemma valid_utf8_iff:
  "valid_utf8 bs \<longleftrightarrow> (\<exists>cp. scalar_value cp \<and> 0x80 \<le> cp \<and> bs = utf8_encode cp)"
proof
  assume "valid_utf8 bs"
  with valid_utf8_scalar [of bs] utf8_encode_value [of bs]
  show "\<exists>cp. scalar_value cp \<and> 0x80 \<le> cp \<and> bs = utf8_encode cp"
    by (intro exI [of _ "utf8_value bs"]) simp
next
  assume "\<exists>cp. scalar_value cp \<and> 0x80 \<le> cp \<and> bs = utf8_encode cp"
  then show "valid_utf8 bs"
    by (auto intro: utf8_encode_valid)
qed


subsection \<open>UTF-16\<close>

lemma unat_code_unit_less: "unat (C :: code_unit) < 65536"
  using unsigned_less [of C, where ?'a = nat] by simp

lemma UTF16EncodeCodePoint_unit [simp]: "UTF16EncodeCodePoint (unat C) = [C]"
  using unat_code_unit_less [of C] by (simp add: UTF16EncodeCodePoint_def)

lemma surrogate_unat:
  "isHighSurrogate C \<longleftrightarrow> 0xD800 \<le> unat C \<and> unat C \<le> 0xDBFF"
  "isLowSurrogate C \<longleftrightarrow> 0xDC00 \<le> unat C \<and> unat C \<le> 0xDFFF"
  by (simp_all add: isHighSurrogate_def isLowSurrogate_def word_le_nat_alt)

lemma surrogate_pair_range:
  assumes "isHighSurrogate C" and "isLowSurrogate D"
  shows "0x10000 \<le> UTF16SurrogatePairToCodePoint C D"
    and "UTF16SurrogatePairToCodePoint C D \<le> 0x10FFFF"
  using assms unfolding surrogate_unat UTF16SurrogatePairToCodePoint_def by linarith+

lemma UTF16EncodeCodePoint_pair:
  assumes "isHighSurrogate C" and "isLowSurrogate D"
  shows "UTF16EncodeCodePoint (UTF16SurrogatePairToCodePoint C D) = [C, D]"
proof -
  define c d where "c = unat C - 0xD800" and "d = unat D - 0xDC00"
  from assms have *: "unat C = c + 0xD800" "unat D = d + 0xDC00" "d < 0x400"
    unfolding surrogate_unat c_def d_def by linarith+
  have "UTF16SurrogatePairToCodePoint C D - 0x10000 = c * 0x400 + d"
    by (simp add: UTF16SurrogatePairToCodePoint_def c_def d_def)
  moreover have "of_nat (c + 0xD800) = C" "of_nat (d + 0xDC00) = D"
    by (simp_all flip: *(1,2))
  ultimately show ?thesis
    using surrogate_pair_range [OF assms] * by (simp add: UTF16EncodeCodePoint_def)
qed

subsection \<open>Decoding what was encoded\<close>

lemma append_single: "(@) [x] = (#) x"
  by (simp add: fun_eq_iff)

lemma length_escapes [simp]: "length (concat (map escape bs)) = 3 * length bs"
  by (induction bs) (simp_all add: escape_def)

lemma continuation_escapes:
  "list_all (\<lambda>b. b < 256) bs \<Longrightarrow>
     continuation (length bs) (concat (map escape bs) @ t) = Some bs"
  by (induction bs) (simp_all add: escape_def)

lemma Decode_no_percent: "0x25 \<notin> set s \<Longrightarrow> Decode (s @ t) = map_option ((@) s) (Decode t)"
  by (cases "Decode t") (induction s; simp)+

lemma Decode_plain: "0x25 \<notin> set s \<Longrightarrow> Decode s = Some s"
  using Decode_no_percent [of s "[]"] by simp

lemma decode_escape_ascii:
  "B < 0x80 \<Longrightarrow> decode_escape (hex_octet B @ t) = Some ([of_nat B], 2)"
  by (simp add: decode_escape_def leading_ones_0)

lemma decode_escape_utf8:
  assumes "valid_utf8 (B # bs)"
  shows "decode_escape (hex_octet B @ concat (map escape bs) @ t)
    = Some (UTF16EncodeCodePoint (utf8_value (B # bs)), 2 + 3 * length bs)"
proof -
  from valid_utf8_lead [OF assms] have "leading_ones B = Suc (length bs)"
    by simp
  moreover from assms have "bs \<noteq> []" "length bs \<le> 3"
    by (cases rule: valid_utf8_cases; simp)+
  moreover from valid_utf8_octets [OF assms] have "B < 256" "list_all (\<lambda>b. b < 256) bs"
    by simp_all
  ultimately show ?thesis
    using assms by (simp add: decode_escape_def continuation_escapes)
qed

lemma decodeURIComponent_js_plain [simp]: "0x25 \<notin> set s \<Longrightarrow> decodeURIComponent_js s = Inr s"
  by (simp add: decodeURIComponent_js_def Decode_plain)

lemma Decode_escape_ascii:
  "B < 0x80 \<Longrightarrow> Decode (escape B @ t) = map_option ((#) (of_nat B)) (Decode t)"
  by (simp add: escape_def decode_escape_ascii append_single)

lemma Decode_escape_utf8:
  assumes "valid_utf8 bs"
  shows "Decode (concat (map escape bs) @ t)
    = map_option ((@) (UTF16EncodeCodePoint (utf8_value bs))) (Decode t)"
proof -
  from assms obtain B bs' where "bs = B # bs'"
    by (cases rule: valid_utf8_cases) auto
  with assms show ?thesis
    by (simp add: escape_def decode_escape_utf8)
qed

lemma Decode_code_point:
  assumes "scalar_value cp"
  shows "Decode (concat (map escape (utf8_encode cp)) @ t)
    = map_option ((@) (UTF16EncodeCodePoint cp)) (Decode t)"
proof (cases "cp < 0x80")
  case True
  then show ?thesis
    using Decode_escape_ascii [of cp t]
    by (simp add: utf8_encode_def UTF16EncodeCodePoint_def append_single)
next
  case False
  with assms have "0x80 \<le> cp" "cp \<le> 0x10FFFF"
    by (auto simp: scalar_value_def)
  with assms show ?thesis
    by (simp add: Decode_escape_utf8 utf8_encode_valid utf8_value_encode)
qed

lemma scalar_value_unit:
  "\<not> isHighSurrogate C \<Longrightarrow> \<not> isLowSurrogate C \<Longrightarrow> scalar_value (unat C)"
  using unat_code_unit_less [of C] unfolding surrogate_unat scalar_value_def by linarith

lemma scalar_value_pair:
  "isHighSurrogate C \<Longrightarrow> isLowSurrogate D \<Longrightarrow> scalar_value (UTF16SurrogatePairToCodePoint C D)"
  using surrogate_pair_range [of C D] by (simp add: scalar_value_def)

lemma uriUnescaped_not_percent: "uriUnescaped C \<Longrightarrow> C \<noteq> 0x25"
  by (auto simp: uriUnescaped_def)

lemma Decode_Encode: "Encode s = Some e \<Longrightarrow> Decode e = Some s"
proof (induction s arbitrary: e rule: Encode.induct)
  case 1
  then show ?case by simp
next
  case (2 C s)
  show ?case
  proof (cases "uriUnescaped C")
    case True
    with 2 show ?thesis
      by (auto simp: uriUnescaped_not_percent)
  next
    case False
    with 2 show ?thesis
      by (auto simp: Decode_code_point scalar_value_unit scalar_value_pair
          UTF16EncodeCodePoint_pair split: if_splits list.splits)
  qed
qed

lemma length_UTF16EncodeCodePoint: "length (UTF16EncodeCodePoint cp) \<le> 2"
  by (simp add: UTF16EncodeCodePoint_def)

lemma uriUnescaped_plain: "uriUnescaped C \<Longrightarrow> \<not> isHighSurrogate C \<and> \<not> isLowSurrogate C"
  unfolding uriUnescaped_def isHighSurrogate_def isLowSurrogate_def
  by (elim disjE) (simp_all, unat_arith+)

lemma isWellFormed_Cons:
  "isWellFormed (C # s) \<longleftrightarrow>
     (if isHighSurrogate C then (case s of [] \<Rightarrow> False | D # t \<Rightarrow> isLowSurrogate D \<and> isWellFormed t)
      else \<not> isLowSurrogate C \<and> isWellFormed s)"
  by (cases s) simp_all

lemma Encode_Some_iff: "Encode s \<noteq> None \<longleftrightarrow> isWellFormed s"
proof (induction s rule: Encode.induct)
  case 1
  then show ?case by simp
next
  case (2 C s)
  show ?case
  proof (cases "uriUnescaped C")
    case True
    with 2 uriUnescaped_plain [OF True] show ?thesis
      by (simp add: isWellFormed_Cons)
  next
    case False
    with 2 show ?thesis
      by (cases s) (auto simp: isWellFormed_Cons surrogate_disjoint simp del: isWellFormed.simps)
  qed
qed

subsection \<open>What an escape sequence decodes to\<close>

lemma hex_value_less: "hex_value c = Some d \<Longrightarrow> d < 16 \<and> c < 0x80"
  unfolding hex_value_def by (auto simp: word_le_nat_alt word_less_nat_alt split: if_splits)

lemma ParseHexOctet_Some:
  assumes "ParseHexOctet s = Some B"
  shows "B < 256" and "2 \<le> length s" and "list_all (\<lambda>c. c < 0x80) (take 2 s)"
proof -
  from assms obtain h l t a b where "s = h # l # t" "hex_value h = Some a" "hex_value l = Some b"
    "B = 16 * a + b"
    by (cases s rule: ParseHexOctet.cases) (auto split: option.splits)
  with hex_value_less [of h a] hex_value_less [of l b]
  show "B < 256" and "2 \<le> length s" and "list_all (\<lambda>c. c < 0x80) (take 2 s)"
    by simp_all
qed

lemma continuation_Some:
  "continuation j s = Some bs \<Longrightarrow>
     length bs = j \<and> 3 * j \<le> length s \<and> list_all (\<lambda>c. c < 0x80) (take (3 * j) s)"
proof (induction j arbitrary: s bs)
  case 0
  then show ?case by simp
next
  case (Suc j)
  from Suc.prems obtain s' b bs' where s: "s = 0x25 # s'" and b: "ParseHexOctet s' = Some b"
    and bs': "continuation j (drop 2 s') = Some bs'" and bs: "bs = b # bs'"
    by (auto split: list.splits if_splits option.splits)
  have "take (3 * Suc j) s = 0x25 # take (2 + 3 * j) s'"
    unfolding s by (simp only: mult_Suc_right numeral_3_eq_3 numeral_2_eq_2 add_Suc take_Suc_Cons)
  also have "take (2 + 3 * j) s' = take 2 s' @ take (3 * j) (drop 2 s')"
    by (rule take_add)
  finally have "take (3 * Suc j) s = 0x25 # take 2 s' @ take (3 * j) (drop 2 s')" .
  with Suc.IH [OF bs'] ParseHexOctet_Some(2,3) [OF b] s bs show ?case
    by auto
qed

lemma leading_ones_0D: "B < 256 \<Longrightarrow> leading_ones B = 0 \<Longrightarrow> B < 0x80"
  using leading_ones_1 [of B] leading_ones_2 [of B] leading_ones_3 [of B] leading_ones_4 [of B]
    leading_ones_more [of B]
  by (cases "B < 0x80"; cases "B < 0xC0"; cases "B < 0xE0"; cases "B < 0xF0"; cases "B < 0xF8")
    simp_all

lemma UTF16EncodeCodePoint_wellformed:
  assumes "scalar_value cp"
  shows "isWellFormed (UTF16EncodeCodePoint cp @ r) \<longleftrightarrow> isWellFormed r"
proof (cases "cp \<le> 0xFFFF")
  case True
  with assms have "\<not> isHighSurrogate (of_nat cp)" "\<not> isLowSurrogate (of_nat cp)"
    by (auto simp: surrogate_unat unat_code_unit scalar_value_def)
  with True show ?thesis
    by (simp add: UTF16EncodeCodePoint_def isWellFormed_Cons)
next
  case False
  define c d where "c = (cp - 0x10000) div 0x400 + 0xD800" and "d = (cp - 0x10000) mod 0x400 + 0xDC00"
  from False assms have "0xD800 \<le> c" "c \<le> 0xDBFF" "0xDC00 \<le> d" "d \<le> 0xDFFF"
    unfolding c_def d_def scalar_value_def by linarith+
  then have "isHighSurrogate (of_nat c)" "isLowSurrogate (of_nat d)"
    by (simp_all add: surrogate_unat unat_code_unit)
  with False show ?thesis
    by (simp add: UTF16EncodeCodePoint_def isWellFormed_Cons flip: c_def d_def)
qed

lemma ascii_unit_wellformed:
  "B < 0x80 \<Longrightarrow> isWellFormed (of_nat B # r) \<longleftrightarrow> isWellFormed r"
  by (simp add: isWellFormed_Cons surrogate_unat unat_code_unit)

lemma decode_escape_cases [consumes 1, case_names ascii utf8]:
  assumes "decode_escape s = Some (S, k)"
  obtains B where "ParseHexOctet s = Some B" and "B < 0x80" and "S = [of_nat B]" and "k = 2"
  | B bs where "ParseHexOctet s = Some B" and "continuation (length bs) (drop 2 s) = Some bs"
      and "valid_utf8 (B # bs)" and "S = UTF16EncodeCodePoint (utf8_value (B # bs))"
      and "k = 2 + 3 * length bs"
proof -
  from assms obtain B where B: "ParseHexOctet s = Some B"
    by (auto simp: decode_escape_def split: option.splits)
  show thesis
  proof (cases "leading_ones B = 0")
    case True
    with assms B leading_ones_0D [OF ParseHexOctet_Some(1) [OF B]] show thesis
      by (intro that(1) [of B]) (simp_all add: decode_escape_def)
  next
    case False
    with assms B obtain bs where bs: "continuation (leading_ones B - 1) (drop 2 s) = Some bs"
      and *: "valid_utf8 (B # bs)" "S = UTF16EncodeCodePoint (utf8_value (B # bs))"
        "k = 2 + 3 * (leading_ones B - 1)"
      by (auto simp: decode_escape_def split: option.splits if_splits)
    from continuation_Some [OF bs] have "leading_ones B - 1 = length bs"
      by simp
    with bs * B show thesis
      by (intro that(2) [of B bs]) simp_all
  qed
qed

lemma decode_escape_Some:
  assumes "decode_escape s = Some (S, k)"
  shows "2 \<le> k \<and> k \<le> length s \<and> length S \<le> 2 \<and> list_all (\<lambda>c. c < 0x80) (take k s)
    \<and> (isWellFormed (S @ r) \<longleftrightarrow> isWellFormed r)"
  using assms
proof (cases rule: decode_escape_cases)
  case (ascii B)
  with ParseHexOctet_Some [OF ascii(1)] show ?thesis
    by (simp add: ascii_unit_wellformed)
next
  case (utf8 B bs)
  from continuation_Some [OF utf8(2)] ParseHexOctet_Some [OF utf8(1)]
  have "3 * length bs \<le> length s - 2" "2 \<le> length s"
    and ascii: "list_all (\<lambda>c. c < 0x80) (take 2 s @ take (3 * length bs) (drop 2 s))"
    by simp_all
  then have "2 \<le> k" "k \<le> length s"
    unfolding utf8(5) by linarith+
  moreover have "take k s = take 2 s @ take (3 * length bs) (drop 2 s)"
    unfolding utf8(5) by (rule take_add)
  ultimately show ?thesis
    using ascii valid_utf8_scalar [OF utf8(3)]
    by (simp add: utf8(4) length_UTF16EncodeCodePoint UTF16EncodeCodePoint_wellformed)
qed

subsection \<open>Length and well-formedness of the result\<close>

lemma percent_not_surrogate: "\<not> isHighSurrogate 0x25" "\<not> isLowSurrogate 0x25"
  by (simp_all add: isHighSurrogate_def isLowSurrogate_def)

lemma isWellFormed_ascii_append:
  "list_all (\<lambda>c. c < 0x80) s \<Longrightarrow> isWellFormed (s @ t) \<longleftrightarrow> isWellFormed t"
  by (rule isWellFormed_plain_append) (auto simp: isPlain_def list_all_iff intro: order.strict_trans)

lemma Decode_percent:
  assumes "Decode (0x25 # s) = Some r"
  obtains S k r' where "decode_escape s = Some (S, k)" and "Decode (drop k s) = Some r'"
    and "r = S @ r'"
  using assms by (auto split: option.splits)

lemma length_Decode:
  "Decode s = Some r \<Longrightarrow> length r \<le> length s \<and> (0x25 \<in> set s \<longrightarrow> length r < length s)"
proof (induction s arbitrary: r rule: Decode.induct)
  case 1
  then show ?case by simp
next
  case (2 C s)
  show ?case
  proof (cases "C = 0x25")
    case False
    with 2 show ?thesis
      by auto
  next
    case True
    with 2(3) have "Decode (0x25 # s) = Some r"
      by simp
    then obtain S k r' where *: "decode_escape s = Some (S, k)"
      "Decode (drop k s) = Some r'" "r = S @ r'"
      by (rule Decode_percent)
    from 2(2) [OF _ *(1) refl *(2)] True have "length r' \<le> length s - k"
      by simp
    with decode_escape_Some [OF *(1), of "[]"] *(3) show ?thesis
      by auto
  qed
qed

lemma Decode_id_iff: "Decode s = Some s \<longleftrightarrow> 0x25 \<notin> set s"
  using length_Decode [of s s] Decode_plain [of s] by auto

lemma Decode_wellformed: "isWellFormed s \<Longrightarrow> Decode s = Some r \<Longrightarrow> isWellFormed r"
proof (induction "length s" arbitrary: s r rule: less_induct)
  case less
  show ?case
  proof (cases s)
    case Nil
    with less.prems show ?thesis by simp
  next
    case (Cons C s')
    consider "C = 0x25" | "isHighSurrogate C" | "C \<noteq> 0x25" "\<not> isHighSurrogate C"
      by blast
    then show ?thesis
    proof cases
      case 1
      with less.prems(2) Cons have "Decode (0x25 # s') = Some r"
        by simp
      then obtain S k r' where *: "decode_escape s' = Some (S, k)"
        "Decode (drop k s') = Some r'" "r = S @ r'"
        by (rule Decode_percent)
      note e = decode_escape_Some [OF *(1)]
      from less.prems(1) Cons 1 have "isWellFormed (take k s' @ drop k s')"
        by (simp add: isWellFormed_Cons percent_not_surrogate)
      with e [of "[]"] have "isWellFormed (drop k s')"
        by (simp only: isWellFormed_ascii_append)
      with less.hyps [OF _ _ *(2)] Cons e [of r'] *(3) show ?thesis
        by simp
    next
      case 2
      with less.prems(1) Cons obtain D t where s': "s' = D # t" and D: "isLowSurrogate D"
        and t: "isWellFormed t"
        by (auto simp: isWellFormed_Cons split: list.splits)
      from 2 D have "C \<noteq> 0x25" "D \<noteq> 0x25"
        using percent_not_surrogate by auto
      with less.prems(2) Cons s' obtain r' where "Decode t = Some r'" "r = C # D # r'"
        by auto
      with less.hyps [OF _ t, of r'] Cons s' 2 D show ?thesis
        by (simp add: isWellFormed_Cons)
    next
      case 3
      with less.prems Cons obtain r' where "Decode s' = Some r'" "r = C # r'"
        by auto
      with less.hyps [of s' r'] less.prems(1) Cons 3 show ?thesis
        by (simp add: isWellFormed_Cons)
    qed
  qed
qed

end
