(* ===== verification/Generate_Video.thy ===== *)
theory Generate_Video
  imports JS_String JS_Promise Data_URL URI_Decode
begin

text \<open>
  The request, poll and assemble workflow of the application file
  (\<open>src/unnamed/part_000\<close>, lines 18 to 78): \<open>bloblToBase64\<close> and
  \<open>generateVideoFromText\<close>.

  Everything outside the program that the workflow talks to is one record,
  \<open>remote_env\<close>: the SDK calls \<open>ai.models.generateVideos\<close> and
  \<open>ai.operations.getVideosOperation\<close>, \<open>fetch\<close>, \<open>FileReader.readAsDataURL\<close>,
  \<open>decodeURIComponent\<close> and \<open>process.env.API_KEY\<close>. Each call that returns a promise
  yields a value of type \<open>promise\<close>, so it may be fulfilled, be rejected or never
  settle. The service changes between polls: the answer to the \<open>k\<close>-th poll is
  \<open>getVideosOperation env k\<close>. A \<open>FileReader\<close> whose read fails never fires \<open>onload\<close>;
  \<open>readAsDataURL env b = None\<close> is that case.

  The \<open>while (!operation.done)\<close> loop is \<open>poll_loop\<close>, a
  \<^theory_text>\<open>partial_function (option)\<close>: a service that never reports \<open>done\<close> makes it
  \<open>Pending\<close>. \<open>poll_fuel\<close> is the same loop bounded by a number of polls (out of
  fuel is \<open>Pending\<close>); the lemmas show that the loop returns exactly when some
  amount of fuel is enough, and then returns the same. \<open>poll_count\<close> counts the polls
  of a run, each of which follows a timer of \<open>POLL_INTERVAL\<close> milliseconds.

  The callback given to \<open>videos.map\<close> is \<open>fetch_video\<close>; \<open>request_url\<close> is the
  argument it computes for \<open>fetch\<close>, which throws where \<open>generatedVideo.video\<close> is
  undefined or \<open>decodeURIComponent\<close> throws. Of the environment nothing is assumed;
  \<open>follows_ecma262\<close> and \<open>follows_file_api\<close> are the hypotheses of the theorems that
  need \<open>decodeURIComponent\<close> and \<open>FileReader\<close> to be the ones of the standards.
\<close>

section \<open>The remote service and the browser\<close>

record generate_request =
  model :: jsstring
  prompt :: jsstring
  numberOfVideos :: nat
  aspectRatio :: jsstring

record sdk_video =
  uri :: js_opt_string

record generated_video =
  video :: "sdk_video option"

record generate_response =
  generatedVideos :: "generated_video list option"

record operation =
  op_done :: "bool option"
  response :: "generate_response option"

record js_blob =
  blob_type :: jsstring
  blob_bytes :: "8 word list"

record http_response =
  ok :: bool
  status :: nat
  statusText :: jsstring
  blob :: "js_blob promise"

record remote_env =
  API_KEY :: js_opt_string
  generateVideos :: "generate_request \<Rightarrow> operation promise"
  getVideosOperation :: "nat \<Rightarrow> operation \<Rightarrow> operation promise"
  decodeURIComponent :: "jsstring \<Rightarrow> js_error + jsstring"
  fetch :: "jsstring \<Rightarrow> http_response promise"
  readAsDataURL :: "js_blob \<Rightarrow> jsstring option"

section \<open>bloblToBase64\<close>

definition VEO_MODEL_NAME :: jsstring where
  "VEO_MODEL_NAME = ascii ''veo-2.0-generate-001''"

definition bloblToBase64 :: "remote_env \<Rightarrow> js_blob \<Rightarrow> js_opt_string promise" where
  "bloblToBase64 env b =
     (case readAsDataURL env b of
        None \<Rightarrow> Pending
      | Some url \<Rightarrow> Fulfilled (index_js (split_js 0x2C url) 1))"

section \<open>The polling loop\<close>

definition POLL_INTERVAL :: nat where
  "POLL_INTERVAL = 10000"

definition is_done :: "operation \<Rightarrow> bool" where
  "is_done operation \<longleftrightarrow> op_done operation = Some True"

partial_function (option) poll_loop :: "remote_env \<Rightarrow> nat \<Rightarrow> operation \<Rightarrow> operation promise" where
  "poll_loop env k operation =
     (if is_done operation then Fulfilled operation
      else (case getVideosOperation env k operation of
              None \<Rightarrow> Pending
            | Some (Inl e) \<Rightarrow> Rejected e
            | Some (Inr operation') \<Rightarrow> poll_loop env (Suc k) operation'))"

fun poll_fuel :: "nat \<Rightarrow> remote_env \<Rightarrow> nat \<Rightarrow> operation \<Rightarrow> operation promise" where
  "poll_fuel 0 env k operation = (if is_done operation then Fulfilled operation else Pending)"
| "poll_fuel (Suc n) env k operation =
     (if is_done operation then Fulfilled operation
      else await (getVideosOperation env k operation) (poll_fuel n env (Suc k)))"

fun poll_count :: "nat \<Rightarrow> remote_env \<Rightarrow> nat \<Rightarrow> operation \<Rightarrow> nat option" where
  "poll_count 0 env k operation = (if is_done operation then Some 0 else None)"
| "poll_count (Suc n) env k operation =
     (if is_done operation then Some 0
      else (case getVideosOperation env k operation of
              None \<Rightarrow> None
            | Some (Inl e) \<Rightarrow> Some 1
            | Some (Inr operation') \<Rightarrow> map_option Suc (poll_count n env (Suc k) operation')))"

definition poll_wait :: "nat \<Rightarrow> remote_env \<Rightarrow> nat \<Rightarrow> operation \<Rightarrow> nat option" where
  "poll_wait n env k operation =
     map_option (\<lambda>c. c * POLL_INTERVAL) (poll_count n env k operation)"

section \<open>generateVideoFromText\<close>

definition no_videos_generated :: js_error where
  "no_videos_generated = Error (ascii ''No videos generated'')"

definition failed_to_fetch :: "http_response \<Rightarrow> js_error" where
  "failed_to_fetch res =
     Error (ascii ''Failed to fetch video: '' @ number_to_string (status res)
            @ ascii '' '' @ statusText res)"

definition request_url :: "remote_env \<Rightarrow> generated_video \<Rightarrow> js_error + jsstring" where
  "request_url env generatedVideo =
     (case video generatedVideo of
        None \<Rightarrow> Inl TypeError
      | Some v \<Rightarrow>
          (case decodeURIComponent env (to_template (uri v)) of
             Inl e \<Rightarrow> Inl e
           | Inr url \<Rightarrow> Inr (url @ ascii ''&key='' @ to_template (API_KEY env))))"

definition fetch_blob :: "remote_env \<Rightarrow> generated_video \<Rightarrow> js_blob promise" where
  "fetch_blob env generatedVideo =
     (case request_url env generatedVideo of
        Inl e \<Rightarrow> Rejected e
      | Inr url \<Rightarrow>
          await (fetch env url) (\<lambda>res.
            if \<not> ok res then Rejected (failed_to_fetch res) else blob res))"

definition fetch_video :: "remote_env \<Rightarrow> generated_video \<Rightarrow> js_opt_string promise" where
  "fetch_video env generatedVideo =
     (case request_url env generatedVideo of
        Inl e \<Rightarrow> Rejected e
      | Inr url \<Rightarrow>
          await (fetch env url) (\<lambda>res.
            if \<not> ok res then Rejected (failed_to_fetch res)
            else await (blob res) (bloblToBase64 env)))"

definition video_request :: "jsstring \<Rightarrow> nat \<Rightarrow> generate_request" where
  "video_request p n =
     \<lparr>model = VEO_MODEL_NAME, prompt = p, numberOfVideos = n, aspectRatio = ascii ''16:9''\<rparr>"

definition assemble :: "remote_env \<Rightarrow> operation \<Rightarrow> js_opt_string list promise" where
  "assemble env operation =
     (case response operation of
        None \<Rightarrow> Rejected no_videos_generated
      | Some resp \<Rightarrow>
          (case generatedVideos resp of
             None \<Rightarrow> Rejected no_videos_generated
           | Some videos \<Rightarrow>
               if videos = [] then Rejected no_videos_generated
               else promise_all (map (fetch_video env) videos)))"

definition generateVideoFromText ::
  "remote_env \<Rightarrow> jsstring \<Rightarrow> nat \<Rightarrow> js_opt_string list promise" where
  "generateVideoFromText env p n =
     await (generateVideos env (video_request p n)) (\<lambda>operation.
       await (poll_loop env 0 operation) (assemble env))"

section \<open>What is downloaded\<close>

text \<open>
  \<open>fetch_blob\<close> above is the callback given to \<open>videos.map\<close> up to \<open>await res.blob()\<close>;
  \<open>delivered\<close> is \<open>generateVideoFromText\<close> with the callback cut there: the blobs
  that a call downloads, in the order of the videos of the finished operation. They
  serve to say what the strings that the call returns are made from.

  \<open>follows_file_api\<close> says of a browser that what its \<open>FileReader\<close> produces for a
  blob is the data URL of the File API: the blob's media type and the base64
  encoding of its content. For a blob without a media type the File API leaves the
  media type out; browsers in use write \<open>application/octet-stream\<close>. Both are
  allowed (\<open>reader_types\<close>).

  \<open>follows_ecma262\<close> says that \<open>decodeURIComponent\<close> is the function of that name of
  ECMA-262 (theory \<open>URI_Decode\<close>). \<open>request_url\<close> above is the argument of \<open>fetch\<close>:
  the decoded URI of the video, followed by \<open>&key=\<close> and the API key.
\<close>

definition fetch_blobs :: "remote_env \<Rightarrow> operation \<Rightarrow> js_blob list promise" where
  "fetch_blobs env operation =
     (case response operation of
        None \<Rightarrow> Rejected no_videos_generated
      | Some resp \<Rightarrow>
          (case generatedVideos resp of
             None \<Rightarrow> Rejected no_videos_generated
           | Some videos \<Rightarrow>
               if videos = [] then Rejected no_videos_generated
               else promise_all (map (fetch_blob env) videos)))"

definition delivered :: "remote_env \<Rightarrow> jsstring \<Rightarrow> nat \<Rightarrow> js_blob list promise" where
  "delivered env p n =
     await (generateVideos env (video_request p n)) (\<lambda>operation.
       await (poll_loop env 0 operation) (fetch_blobs env))"

definition reader_types :: "jsstring \<Rightarrow> jsstring list" where
  "reader_types t = (if t = [] then [[], ascii ''application/octet-stream''] else [t])"

definition follows_ecma262 :: "remote_env \<Rightarrow> bool" where
  "follows_ecma262 env \<longleftrightarrow> decodeURIComponent env = decodeURIComponent_js"

definition follows_file_api :: "remote_env \<Rightarrow> bool" where
  "follows_file_api env \<longleftrightarrow>
     (\<forall>b url. readAsDataURL env b = Some url \<longrightarrow>
        (\<exists>mime \<in> set (reader_types (blob_type b)). url = reader_url mime (blob_bytes b)))"

section \<open>The declared types\<close>

text \<open>
  \<open>generateVideoFromText\<close> is declared to return \<open>Promise<string[]>\<close>, and
  \<open>bloblToBase64\<close> to return \<open>Promise<string>\<close>. The compiler accepts both because
  indexing an array is typed as if the element were always there. \<open>well_typed\<close> says that a result
  has the declared type; \<open>reads_data_urls\<close> is the assumption under which it has: what
  \<open>FileReader\<close> produces contains a comma, as every data URL does.
\<close>

definition well_typed :: "js_opt_string list \<Rightarrow> bool" where
  "well_typed xs \<longleftrightarrow> list_all (\<lambda>x. x \<noteq> None) xs"

definition reads_data_urls :: "remote_env \<Rightarrow> bool" where
  "reads_data_urls env \<longleftrightarrow> (\<forall>b url. readAsDataURL env b = Some url \<longrightarrow> 0x2C \<in> set url)"

section \<open>Example environments\<close>

text \<open>
  The concrete inputs at which the theorems below are applied: a service that reports
  \<open>done\<close> on the second poll and serves one MP4 (\<open>demo_env\<close>), the same service
  when it never finishes (\<open>stalled_env\<close>), when its finished operation carries no
  response (\<open>empty_env\<close>), when the download is refused (\<open>forbidden_env\<close>) and when
  the blob's media type lists two codecs (\<open>codecs_env\<close>), and when the URI of the
  video ends in a percent sign (\<open>malformed_env\<close>).
\<close>

definition demo_payload :: jsstring where
  "demo_payload = ascii ''AAAAIGZ0eXA=''"

definition demo_bytes :: "byte list" where
  "demo_bytes = [0x00, 0x00, 0x00, 0x20, 0x66, 0x74, 0x79, 0x70]"

definition demo_video :: "string \<Rightarrow> generated_video" where
  "demo_video u = \<lparr>video = Some \<lparr>uri = Some (ascii u)\<rparr>\<rparr>"

definition demo_operation :: "bool \<Rightarrow> operation" where
  "demo_operation fin =
     \<lparr>op_done = (if fin then Some True else None),
      response = (if fin then Some \<lparr>generatedVideos = Some [demo_video ''https://v.test/1'']\<rparr>
                  else None)\<rparr>"

definition demo_env :: remote_env where
  "demo_env =
     \<lparr>API_KEY = Some (ascii ''k''),
      generateVideos = (\<lambda>req. Fulfilled (demo_operation False)),
      getVideosOperation = (\<lambda>k operation. Fulfilled (demo_operation (1 \<le> k))),
      decodeURIComponent = decodeURIComponent_js,
      fetch = (\<lambda>url. Fulfilled \<lparr>ok = True, status = 200, statusText = ascii ''OK'',
                 blob = Fulfilled \<lparr>blob_type = ascii ''video/mp4'', blob_bytes = demo_bytes\<rparr>\<rparr>),
      readAsDataURL = (\<lambda>b. Some (reader_url (blob_type b) (blob_bytes b)))\<rparr>"

definition stalled_env :: remote_env where
  "stalled_env =
     demo_env\<lparr>getVideosOperation := (\<lambda>k operation. Fulfilled (demo_operation False))\<rparr>"

definition empty_env :: remote_env where
  "empty_env =
     demo_env\<lparr>generateVideos := (\<lambda>req. Fulfilled \<lparr>op_done = Some True, response = None\<rparr>)\<rparr>"

definition forbidden_env :: remote_env where
  "forbidden_env =
     demo_env\<lparr>fetch := (\<lambda>url. Fulfilled \<lparr>ok = False, status = 403,
                 statusText = ascii ''Forbidden'', blob = Pending\<rparr>)\<rparr>"

definition codecs_type :: jsstring where
  "codecs_type = ascii ''video/mp4; codecs=avc1.42E01E, mp4a.40.2''"

definition codecs_env :: remote_env where
  "codecs_env = demo_env\<lparr>readAsDataURL := (\<lambda>b. Some (data_url codecs_type demo_payload))\<rparr>"

definition percent_video :: generated_video where
  "percent_video = \<lparr>video = Some \<lparr>uri = Some (ascii ''https://v.test/100%'')\<rparr>\<rparr>"

definition malformed_env :: remote_env where
  "malformed_env =
     demo_env\<lparr>getVideosOperation := (\<lambda>k operation. Fulfilled
       \<lparr>op_done = Some True, response = Some \<lparr>generatedVideos = Some [percent_video]\<rparr>\<rparr>)\<rparr>"

lemmas generate_defs =
  generateVideoFromText_def assemble_def fetch_video_def request_url_def bloblToBase64_def
  video_request_def
  is_done_def no_videos_generated_def failed_to_fetch_def VEO_MODEL_NAME_def


section \<open>The loop returns exactly when some number of polls is enough\<close>

lemma poll_loop_already_done [simp]:
  "is_done operation \<Longrightarrow> poll_loop env k operation = Fulfilled operation"
  by (subst poll_loop.simps) simp

lemma poll_fuel_loop:
  "poll_fuel n env k operation = Some r \<Longrightarrow> poll_loop env k operation = Some r"
proof (induction n arbitrary: k operation)
  case 0
  then show ?case by (subst poll_loop.simps) (simp split: if_splits)
next
  case (Suc n)
  show ?case
  proof (cases "is_done operation")
    case True
    with Suc.prems show ?thesis by simp
  next
    case False
    with Suc.prems show ?thesis
      by (subst poll_loop.simps)
         (auto simp: await_def split: option.splits sum.splits intro: Suc.IH)
  qed
qed

lemma poll_fuel_Suc:
  "poll_fuel n env k operation = Some r \<Longrightarrow> poll_fuel (Suc n) env k operation = Some r"
proof (induction n arbitrary: k operation)
  case 0
  then show ?case by (simp split: if_splits)
next
  case (Suc n)
  show ?case
  proof (cases "is_done operation")
    case True
    with Suc.prems show ?thesis by simp
  next
    case False
    with Suc.prems
    have "await (getVideosOperation env k operation) (poll_fuel n env (Suc k)) = Some r"
      by simp
    then have "await (getVideosOperation env k operation) (poll_fuel (Suc n) env (Suc k)) = Some r"
      by (rule await_settled_mono) (rule Suc.IH)
    with False show ?thesis
      by (simp del: poll_fuel.simps(2) add: poll_fuel.simps(2) [of "Suc n" env k])
  qed
qed

lemma poll_fuel_mono:
  "poll_fuel n env k operation = Some r \<Longrightarrow> n \<le> m \<Longrightarrow> poll_fuel m env k operation = Some r"
  by (induction m) (auto simp: le_Suc_eq simp del: poll_fuel.simps intro: poll_fuel_Suc)

lemma poll_loop_fuel:
  assumes "poll_loop env k operation = Some r"
  shows "\<exists>n. poll_fuel n env k operation = Some r"
proof (rule poll_loop.raw_induct
    [where P = "\<lambda>env k operation r. \<exists>n. poll_fuel n env k operation = Some r", OF _ assms])
  fix f env k operation r
  assume IH: "\<And>env k operation r. f env k operation = Some r
      \<Longrightarrow> \<exists>n. poll_fuel n env k operation = Some r"
    and eq: "(if is_done operation then Fulfilled operation
        else case getVideosOperation env k operation of None \<Rightarrow> Pending
             | Some (Inl e) \<Rightarrow> Rejected e
             | Some (Inr operation') \<Rightarrow> f env (Suc k) operation') = Some r"
  show "\<exists>n. poll_fuel n env k operation = Some r"
  proof (cases "is_done operation")
    case True
    with eq have "poll_fuel 0 env k operation = Some r" by simp
    then show ?thesis ..
  next
    case False
    show ?thesis
    proof (cases "getVideosOperation env k operation")
      case None
      with eq False show ?thesis by simp
    next
      case (Some a)
      show ?thesis
      proof (cases a)
        case (Inl e)
        with eq False Some have "r = Inl e" by simp
        with False Some Inl have "poll_fuel 1 env k operation = Some r" by simp
        then show ?thesis ..
      next
        case (Inr operation')
        with eq False Some have "f env (Suc k) operation' = Some r" by simp
        then obtain n where "poll_fuel n env (Suc k) operation' = Some r" using IH by blast
        with False Some Inr have "poll_fuel (Suc n) env k operation = Some r" by simp
        then show ?thesis ..
      qed
    qed
  qed
qed

lemma poll_fuel_done: "poll_fuel n env k operation = Fulfilled operation' \<Longrightarrow> is_done operation'"
  by (induction n arbitrary: k operation) (auto simp: await_iffs split: if_splits)

lemma poll_loop_done: "poll_loop env k operation = Fulfilled operation' \<Longrightarrow> is_done operation'"
  by (blast dest: poll_loop_fuel poll_fuel_done)

section \<open>Counting the polls\<close>

lemma poll_count_le: "poll_count n env k operation = Some c \<Longrightarrow> c \<le> n"
  by (induction n arbitrary: k operation c) (auto split: if_splits option.splits sum.splits)

lemma poll_count_enough:
  "poll_count n env k operation = Some c
     \<Longrightarrow> poll_fuel c env k operation = poll_fuel n env k operation"
proof (induction n arbitrary: k operation c)
  case 0
  then show ?case by (simp split: if_splits)
next
  case (Suc n)
  then show ?case
    by (cases c) (auto split: if_splits option.splits sum.splits)
qed

lemma poll_count_settles:
  "poll_count n env k operation = Some c \<Longrightarrow> poll_fuel n env k operation \<noteq> Pending"
  by (induction n arbitrary: k operation c) (auto split: if_splits option.splits sum.splits)

lemma poll_count_least:
  "poll_count n env k operation = Some c \<Longrightarrow> m < c \<Longrightarrow> poll_fuel m env k operation = Pending"
proof (induction n arbitrary: k operation c m)
  case 0
  then show ?case by (simp split: if_splits)
next
  case (Suc n)
  then show ?case
    by (cases m) (auto split: if_splits option.splits sum.splits)
qed

lemma poll_count_defined:
  "poll_fuel n env k operation = Some r \<Longrightarrow> \<exists>c. poll_count n env k operation = Some c"
  by (induction n arbitrary: k operation) (auto simp: await_Some_iff split: if_splits)

section \<open>What generateVideoFromText returns\<close>

lemma bloblToBase64_not_Rejected: "bloblToBase64 env b \<noteq> Rejected e"
  by (simp add: bloblToBase64_def split: option.splits)

lemma assemble_Fulfilled:
  "assemble env operation = Fulfilled xs \<Longrightarrow>
     \<exists>resp videos. response operation = Some resp \<and> generatedVideos resp = Some videos \<and>
       videos \<noteq> [] \<and> map (fetch_video env) videos = map Fulfilled xs"
  by (auto simp: assemble_def promise_all_Fulfilled_iff split: option.splits if_splits)

lemma generate_Fulfilled:
  "generateVideoFromText env p n = Fulfilled xs \<Longrightarrow>
     \<exists>op0 operation resp videos.
       generateVideos env (video_request p n) = Fulfilled op0 \<and>
       poll_loop env 0 op0 = Fulfilled operation \<and> is_done operation \<and>
       response operation = Some resp \<and> generatedVideos resp = Some videos \<and>
       videos \<noteq> [] \<and> map (fetch_video env) videos = map Fulfilled xs"
  by (auto simp: generateVideoFromText_def await_iffs
           dest!: assemble_Fulfilled dest: poll_loop_done)

lemma generate_Fulfilled_elem:
  assumes "generateVideoFromText env p n = Fulfilled xs" and "x \<in> set xs"
  shows "\<exists>g. fetch_video env g = Fulfilled x"
proof -
  from generate_Fulfilled [OF assms(1)] obtain videos
    where "map (fetch_video env) videos = map Fulfilled xs" by blast
  with assms(2) show ?thesis
    by (metis (no_types, lifting) imageE image_eqI list.set_map)
qed

section \<open>What the returned strings are made from\<close>

lemma fetch_video_fetch_blob:
  "fetch_video env g = await (fetch_blob env g) (bloblToBase64 env)"
  by (simp add: fetch_video_def fetch_blob_def await_def
      split: option.splits sum.splits)

lemma reader_types_comma_free:
  "0x2C \<notin> set t \<Longrightarrow> mime \<in> set (reader_types t) \<Longrightarrow> 0x2C \<notin> set mime"
  by (auto simp: reader_types_def split: if_splits)

lemma follows_file_api_reads: "follows_file_api env \<Longrightarrow> reads_data_urls env"
  by (fastforce simp: follows_file_api_def reads_data_urls_def reader_url_def data_url_def)

lemma bloblToBase64_file_api:
  assumes "follows_file_api env" and "0x2C \<notin> set (blob_type b)"
    and "bloblToBase64 env b = Fulfilled x"
  shows "x = Some (base64 (blob_bytes b))"
proof -
  from assms(3) obtain url where url: "readAsDataURL env b = Some url"
    and x: "x = index_js (split_js 0x2C url) 1"
    by (auto simp: bloblToBase64_def split: option.splits)
  from assms(1) url obtain mime where "mime \<in> set (reader_types (blob_type b))"
    and "url = data_url mime (base64 (blob_bytes b))"
    by (auto simp: follows_file_api_def reader_url_def)
  with assms(2) x show ?thesis
    by (simp add: split_data_url reader_types_comma_free)
qed

lemma fetch_blobs_of_videos:
  "map (fetch_video env) videos = map Fulfilled xs \<Longrightarrow>
     \<exists>bs. map (fetch_blob env) videos = map Fulfilled bs
       \<and> map (bloblToBase64 env) bs = map Fulfilled xs"
proof (induction videos arbitrary: xs)
  case Nil
  then show ?case by simp
next
  case (Cons g videos)
  then obtain x xs' where xs: "xs = x # xs'" and g: "fetch_video env g = Fulfilled x"
    and rest: "map (fetch_video env) videos = map Fulfilled xs'"
    by (cases xs) auto
  from g obtain b where "fetch_blob env g = Fulfilled b" "bloblToBase64 env b = Fulfilled x"
    by (auto simp: fetch_video_fetch_blob await_iffs)
  moreover from Cons.IH [OF rest] obtain bs where "map (fetch_blob env) videos = map Fulfilled bs"
    "map (bloblToBase64 env) bs = map Fulfilled xs'"
    by blast
  ultimately have "map (fetch_blob env) (g # videos) = map Fulfilled (b # bs)
    \<and> map (bloblToBase64 env) (b # bs) = map Fulfilled xs"
    by (simp add: xs)
  then show ?case by blast
qed

lemma generate_delivered:
  assumes "generateVideoFromText env p n = Fulfilled xs"
  shows "\<exists>bs. delivered env p n = Fulfilled bs \<and> map (bloblToBase64 env) bs = map Fulfilled xs"
proof -
  from generate_Fulfilled [OF assms] obtain op0 operation resp videos where
    run: "generateVideos env (video_request p n) = Fulfilled op0"
      "poll_loop env 0 op0 = Fulfilled operation"
      "response operation = Some resp" "generatedVideos resp = Some videos" "videos \<noteq> []"
    and fetched: "map (fetch_video env) videos = map Fulfilled xs"
    by blast
  from fetch_blobs_of_videos [OF fetched] obtain bs
    where bs: "map (fetch_blob env) videos = map Fulfilled bs"
      "map (bloblToBase64 env) bs = map Fulfilled xs"
    by blast
  from run bs(1) have "delivered env p n = Fulfilled bs"
    by (simp add: delivered_def fetch_blobs_def promise_all_Fulfilled_iff)
  with bs(2) show ?thesis by blast
qed

lemma delivered_strings:
  assumes "follows_file_api env" and "generateVideoFromText env p n = Fulfilled xs"
    and "delivered env p n = Fulfilled bs"
  shows "length bs = length xs
    \<and> (i < length xs \<longrightarrow> 0x2C \<notin> set (blob_type (bs ! i))
           \<longrightarrow> xs ! i = Some (base64 (blob_bytes (bs ! i))))"
proof -
  from generate_delivered [OF assms(2)] assms(3)
  have read: "map (bloblToBase64 env) bs = map Fulfilled xs"
    by auto
  then have len: "length bs = length xs"
    by (rule map_eq_imp_length_eq)
  have "xs ! i = Some (base64 (blob_bytes (bs ! i)))"
    if "i < length xs" and type: "0x2C \<notin> set (blob_type (bs ! i))"
  proof -
    from read len that(1) have "bloblToBase64 env (bs ! i) = Fulfilled (xs ! i)"
      by (metis nth_map)
    with assms(1) type show ?thesis by (rule bloblToBase64_file_api)
  qed
  with len show ?thesis by simp
qed

section \<open>The address that is requested\<close>

lemma fetch_video_request_error: "request_url env g = Inl e \<Longrightarrow> fetch_video env g = Rejected e"
  by (simp add: fetch_video_def)

lemma request_url_ecma262:
  "follows_ecma262 env \<Longrightarrow>
     request_url env \<lparr>video = Some \<lparr>uri = Some u\<rparr>\<rparr>
       = (case Decode u of
            None \<Rightarrow> Inl URIError
          | Some url \<Rightarrow> Inr (url @ ascii ''&key='' @ to_template (API_KEY env)))"
  by (simp add: request_url_def follows_ecma262_def decodeURIComponent_js_def
      split: option.splits)

lemma request_url_well_formed:
  assumes "follows_ecma262 env" and "isWellFormed u" and "isWellFormed (to_template (API_KEY env))"
    and "request_url env \<lparr>video = Some \<lparr>uri = Some u\<rparr>\<rparr> = Inr url"
  shows "isWellFormed url"
proof -
  from assms(1,4) obtain r where r: "Decode u = Some r"
    and url: "url = r @ (ascii ''&key='' @ to_template (API_KEY env))"
    by (auto simp: request_url_ecma262 split: option.splits)
  from assms(3) have "isWellFormed (ascii ''&key='' @ to_template (API_KEY env))"
    by (simp del: ascii_Cons)
  with Decode_wellformed [OF assms(2) r] show ?thesis
    unfolding url by (rule isWellFormed_append)
qed

lemma Decode_percent_end: "0x25 \<notin> set s \<Longrightarrow> Decode (s @ [0x25]) = None"
  by (simp add: Decode_no_percent decode_escape_def)

lemma escaped_delimiters_decoded:
  "Decode (ascii ''https://v.test/f?sig=a%2Bb%26c%23d'') = Some (ascii ''https://v.test/f?sig=a+b&c#d'')"
  by code_simp

section \<open>Facts about the example environments\<close>

lemmas demo_defs =
  demo_env_def demo_operation_def demo_video_def demo_payload_def stalled_env_def empty_env_def

lemma demo_poll: "poll_fuel 2 demo_env 0 (demo_operation False) = Fulfilled (demo_operation True)"
  by (simp add: numeral_2_eq_2 demo_defs is_done_def)

lemma base64_demo_bytes [simp]: "base64 demo_bytes = demo_payload"
  unfolding demo_bytes_def demo_payload_def by code_simp

lemma demo_file_api: "follows_file_api demo_env"
  by (simp add: follows_file_api_def demo_env_def reader_types_def)

lemma demo_split:
  "index_js (split_js 0x2C (data_url (ascii ''video/mp4'') demo_payload)) (Suc 0) = Some demo_payload"
  by (rule split_data_url) (simp_all add: demo_payload_def)

lemma demo_generate: "generateVideoFromText demo_env p 1 = Fulfilled [Some demo_payload]"
proof -
  have "poll_loop demo_env 0 (demo_operation False) = Fulfilled (demo_operation True)"
    by (rule poll_fuel_loop [OF demo_poll])
  moreover have "assemble demo_env (demo_operation True) = Fulfilled [Some demo_payload]"
    using demo_split
    by (simp add: assemble_def fetch_video_def request_url_def bloblToBase64_def promise_all_def
        demo_env_def demo_operation_def demo_video_def reader_url_def)
  ultimately show ?thesis
    by (simp add: generateVideoFromText_def demo_env_def)
qed

lemma demo_delivered:
  "delivered demo_env p 1
     = Fulfilled [\<lparr>blob_type = ascii ''video/mp4'', blob_bytes = demo_bytes\<rparr>]"
proof -
  have "poll_loop demo_env 0 (demo_operation False) = Fulfilled (demo_operation True)"
    by (rule poll_fuel_loop [OF demo_poll])
  then show ?thesis
    by (simp add: delivered_def fetch_blobs_def fetch_blob_def request_url_def promise_all_def
        demo_env_def demo_operation_def demo_video_def)
qed

lemma forbidden_fetch:
  "fetch_video forbidden_env (demo_video ''https://v.test/1'')
     = Rejected (failed_to_fetch \<lparr>ok = False, status = 403, statusText = ascii ''Forbidden'',
                                   blob = Pending\<rparr>)"
  by (simp add: fetch_video_def request_url_def forbidden_env_def demo_env_def demo_video_def)

lemma forbidden_poll:
  "poll_loop forbidden_env 0 (demo_operation False) = Fulfilled (demo_operation True)"
  by (rule poll_fuel_loop [of 2])
     (simp add: numeral_2_eq_2 forbidden_env_def demo_defs is_done_def)

lemma demo_ecma262: "follows_ecma262 demo_env"
  by (simp add: follows_ecma262_def demo_env_def)

lemma malformed_ecma262: "follows_ecma262 malformed_env"
  by (simp add: follows_ecma262_def malformed_env_def demo_env_def)

lemma malformed_poll:
  "poll_loop malformed_env 0 (demo_operation False)
     = Fulfilled \<lparr>op_done = Some True, response = Some \<lparr>generatedVideos = Some [percent_video]\<rparr>\<rparr>"
  by (rule poll_fuel_loop [of 1]) (simp add: malformed_env_def demo_defs is_done_def)

lemma stalled_fuel: "poll_fuel n stalled_env k (demo_operation False) = Pending"
  by (induction n arbitrary: k) (simp_all add: demo_defs is_done_def)

section \<open>Properties of the workflow\<close>





text \<open>C14. When \<open>generateVideoFromText\<close> returns normally, the array it returns is not
  empty: the finished operation carried a response with at least one video, and every
  video was fetched and read. The callers' test \<open>videoObjects.length === 0\<close> never
  holds.\<close>

theorem generate_Fulfilled_nonempty:
  "generateVideoFromText env p n = Fulfilled xs \<Longrightarrow> xs \<noteq> []"
  by (auto dest!: generate_Fulfilled)

theorem generate_Fulfilled_nonempty_witness:
  "generateVideoFromText demo_env [] 1 = Fulfilled [Some demo_payload]
     \<and> [Some demo_payload] \<noteq> []"
  using generate_Fulfilled_nonempty [of demo_env "[]" 1 "[Some demo_payload]"] demo_generate
  by simp

text \<open>Reading a blob whose data URL has a media type and a payload without a comma
  gives back exactly the payload: \<open>split(',')[1]\<close> undoes the framing that
  \<open>readAsDataURL\<close> adds.\<close>

lemma bloblToBase64_payload:
  assumes "readAsDataURL env b = Some (data_url mime payload)"
    and "0x2C \<notin> set mime" and "0x2C \<notin> set payload"
  shows "bloblToBase64 env b = Fulfilled (Some payload)"
  using assms by (simp add: bloblToBase64_def split_data_url)

text \<open>C10. The strings that \<open>generateVideoFromText\<close> returns are the downloaded
  videos. In a browser whose \<open>FileReader\<close> follows the File API, a call that returns
  has downloaded one blob for each string it returns, and for every blob whose media
  type holds no comma the string is the base64 encoding of the blob's content:
  decoding it gives back the bytes that the service served.\<close>

theorem returned_strings_encode_downloads:
  assumes "follows_file_api env" and "generateVideoFromText env p n = Fulfilled xs"
  shows "\<exists>bs. delivered env p n = Fulfilled bs \<and> length bs = length xs \<and>
     (\<forall>i<length xs. 0x2C \<notin> set (blob_type (bs ! i)) \<longrightarrow>
        xs ! i = Some (base64 (blob_bytes (bs ! i)))
        \<and> Option.bind (xs ! i) base64_decode = Some (blob_bytes (bs ! i)))"
proof -
  from generate_delivered [OF assms(2)] obtain bs where "delivered env p n = Fulfilled bs"
    by blast
  with delivered_strings [OF assms this] show ?thesis by auto
qed

theorem returned_strings_encode_downloads_witness:
  "follows_file_api demo_env
   \<and> generateVideoFromText demo_env [] 1 = Fulfilled [Some demo_payload]
   \<and> delivered demo_env [] 1
       = Fulfilled [\<lparr>blob_type = ascii ''video/mp4'', blob_bytes = demo_bytes\<rparr>]
   \<and> base64_decode demo_payload = Some demo_bytes"
  using returned_strings_encode_downloads [of demo_env "[]" 1 "[Some demo_payload]"]
    demo_generate [of "[]"] demo_file_api demo_delivered [of "[]"]
  by auto

text \<open>C39. A media type that itself holds a comma (a \<open>codecs\<close> parameter naming two
  codecs) breaks \<open>bloblToBase64\<close>: element 1 of the split is the rest of the media
  type followed by \<open>;base64\<close>, not the payload.\<close>

theorem bloblToBase64_comma_in_type:
  assumes "readAsDataURL env b = Some (data_url (pre @ 0x2C # post) payload)"
    and "0x2C \<notin> set pre" and "0x2C \<notin> set post"
  shows "bloblToBase64 env b = Fulfilled (Some (post @ ascii '';base64''))"
proof -
  let ?a = "ascii ''data:'' @ pre" and ?b = "post @ ascii '';base64''"
  have eq: "data_url (pre @ 0x2C # post) payload = ?a @ 0x2C # (?b @ 0x2C # payload)"
    by (simp add: data_url_def)
  have "split_js 0x2C (?a @ 0x2C # (?b @ 0x2C # payload)) = ?a # split_js 0x2C (?b @ 0x2C # payload)"
    using assms(2) by (intro split_js_append_sep) simp
  also have "split_js 0x2C (?b @ 0x2C # payload) = ?b # split_js 0x2C payload"
    using assms(3) by (intro split_js_append_sep) simp
  finally show ?thesis
    using assms(1) by (simp add: bloblToBase64_def index_js_def eq)
qed

theorem bloblToBase64_comma_in_type_witness:
  "bloblToBase64 codecs_env \<lparr>blob_type = codecs_type, blob_bytes = []\<rparr>
     = Fulfilled (Some (ascii '' mp4a.40.2;base64''))"
  using bloblToBase64_comma_in_type [of codecs_env "\<lparr>blob_type = codecs_type, blob_bytes = []\<rparr>"
      "ascii ''video/mp4; codecs=avc1.42E01E''" "ascii '' mp4a.40.2''" demo_payload]
  by (simp add: codecs_env_def codecs_type_def demo_env_def)

text \<open>C11. Decoding undoes encoding: when the service gives the address of the video
  in percent-encoded form (the result of \<open>encodeURIComponent\<close> on an address \<open>u\<close>), the
  request goes to \<open>u\<close> followed by \<open>&key=\<close> and the API key, whatever characters \<open>u\<close>
  holds.\<close>

theorem request_undoes_encoding:
  assumes "follows_ecma262 env" and "Encode u = Some e"
  shows "request_url env \<lparr>video = Some \<lparr>uri = Some e\<rparr>\<rparr>
    = Inr (u @ ascii ''&key='' @ to_template (API_KEY env))"
  using assms by (simp add: request_url_ecma262 Decode_Encode)

theorem request_undoes_encoding_witness:
  "follows_ecma262 demo_env
   \<and> Encode (ascii ''a b/'' @ [0x20AC]) = Some (ascii ''a%20b%2F%E2%82%AC'')
   \<and> request_url demo_env \<lparr>video = Some \<lparr>uri = Some (ascii ''a%20b%2F%E2%82%AC'')\<rparr>\<rparr>
       = Inr (ascii ''a b/'' @ [0x20AC] @ ascii ''&key=k'')"
proof -
  have e: "Encode (ascii ''a b/'' @ [0x20AC]) = Some (ascii ''a%20b%2F%E2%82%AC'')"
    by (simp add: uriUnescaped_def isHighSurrogate_def isLowSurrogate_def utf8_encode_def
        escape_def hex_octet_def hex_digit_def)
  from request_undoes_encoding [OF demo_ecma262 e] e demo_ecma262 show ?thesis
    by (simp add: demo_env_def)
qed

text \<open>C13. The request goes to the address as the service gave it exactly when that
  address has no percent sign. Every other address is changed by \<open>decodeURIComponent\<close>
  before it is requested, or not requested at all.\<close>

theorem request_keeps_uri_iff:
  assumes "follows_ecma262 env"
  shows "request_url env \<lparr>video = Some \<lparr>uri = Some u\<rparr>\<rparr>
           = Inr (u @ ascii ''&key='' @ to_template (API_KEY env))
         \<longleftrightarrow> 0x25 \<notin> set u"
  using assms Decode_id_iff [of u]
  by (auto simp: request_url_ecma262 split: option.splits)

theorem request_keeps_uri_iff_witness:
  "follows_ecma262 demo_env
   \<and> request_url demo_env (demo_video ''https://v.test/1'') = Inr (ascii ''https://v.test/1&key=k'')
   \<and> request_url demo_env percent_video \<noteq> Inr (ascii ''https://v.test/100%&key=k'')"
  using request_keeps_uri_iff [OF demo_ecma262, of "ascii ''https://v.test/1''"]
    request_keeps_uri_iff [OF demo_ecma262, of "ascii ''https://v.test/100%''"] demo_ecma262
  by (simp add: demo_video_def percent_video_def demo_env_def)

text \<open>C12. A URI that \<open>decodeURIComponent\<close> cannot decode (a percent sign that is not
  followed by two hexadecimal digits, or escapes that are not UTF-8) makes the call
  throw a \<open>URIError\<close> after the video has been generated, whatever \<open>fetch\<close> would have
  answered: nothing is downloaded.\<close>

theorem malformed_uri_rejects:
  assumes "follows_ecma262 env"
    and "generateVideos env (video_request p n) = Fulfilled op0"
    and "poll_loop env 0 op0 = Fulfilled operation"
    and "response operation = Some resp"
    and "generatedVideos resp = Some [\<lparr>video = Some \<lparr>uri = Some u\<rparr>\<rparr>]"
    and "Decode u = None"
  shows "generateVideoFromText env p n = Rejected URIError"
proof -
  from assms(1,6) have "fetch_video env \<lparr>video = Some \<lparr>uri = Some u\<rparr>\<rparr> = Rejected URIError"
    by (intro fetch_video_request_error) (simp add: request_url_ecma262)
  with assms(2-5) show ?thesis
    by (simp add: generateVideoFromText_def assemble_def promise_all_def)
qed

theorem malformed_uri_rejects_witness:
  "generateVideoFromText malformed_env [] 1 = Rejected URIError"
  using malformed_uri_rejects [OF malformed_ecma262 _ malformed_poll, of "[]" 1
      "\<lparr>generatedVideos = Some [percent_video]\<rparr>" "ascii ''https://v.test/100%''"]
    Decode_percent_end [of "ascii ''https://v.test/100''"]
  by (simp add: malformed_env_def demo_env_def percent_video_def)

text \<open>C27. A finished operation without a response, without a list of videos or with an
  empty list makes \<open>generateVideoFromText\<close> throw \<open>Error('No videos generated')\<close>.\<close>

theorem generate_no_videos:
  assumes "generateVideos env (video_request p n) = Fulfilled op0"
    and "poll_loop env 0 op0 = Fulfilled operation"
    and "response operation = None \<or>
         (\<exists>resp. response operation = Some resp \<and>
            (generatedVideos resp = None \<or> generatedVideos resp = Some []))"
  shows "generateVideoFromText env p n = Rejected no_videos_generated"
  using assms by (auto simp: generateVideoFromText_def assemble_def)

theorem generate_no_videos_witness:
  "generateVideoFromText empty_env [] 1 = Rejected no_videos_generated"
  using generate_no_videos [of empty_env "[]" 1 "\<lparr>op_done = Some True, response = None\<rparr>"
      "\<lparr>op_done = Some True, response = None\<rparr>"]
  by (simp add: empty_env_def demo_env_def is_done_def)

text \<open>C28. All or nothing: if the download of one generated video fails, the whole call
  is rejected, whatever happens to the other videos (\<open>Promise.all\<close>).\<close>

theorem generate_one_failure_rejects:
  assumes "generateVideos env (video_request p n) = Fulfilled op0"
    and "poll_loop env 0 op0 = Fulfilled operation"
    and "response operation = Some resp" and "generatedVideos resp = Some videos"
    and "generatedVideo \<in> set videos" and "fetch_video env generatedVideo = Rejected e"
  shows "\<exists>e'. generateVideoFromText env p n = Rejected e'"
proof -
  from assms(5,6) have "Rejected e \<in> set (map (fetch_video env) videos)"
    by (metis image_eqI set_map)
  then have "\<exists>e'. promise_all (map (fetch_video env) videos) = Rejected e'"
    using promise_all_Rejected_iff by blast
  moreover from assms(5) have "videos \<noteq> []" by auto
  ultimately show ?thesis
    using assms(1-4) by (simp add: generateVideoFromText_def assemble_def)
qed

theorem generate_one_failure_rejects_witness:
  "\<exists>e'. generateVideoFromText forbidden_env [] 1 = Rejected e'"
  using generate_one_failure_rejects [of forbidden_env "[]" 1 "demo_operation False"
      "demo_operation True" "\<lparr>generatedVideos = Some [demo_video ''https://v.test/1'']\<rparr>"
      "[demo_video ''https://v.test/1'']" "demo_video ''https://v.test/1''"]
    forbidden_fetch forbidden_poll
  by (simp add: forbidden_env_def demo_env_def demo_operation_def)



text \<open>C16. The declared result type holds under the assumption it needs: if every URL
  that \<open>FileReader\<close> produces contains a comma, every element of the array that
  \<open>generateVideoFromText\<close> returns is a string, as \<open>Promise<string[]>\<close> says, and
  \<open>bloblToBase64\<close> never resolves with \<open>undefined\<close>.\<close>

theorem typed_result:
  assumes "reads_data_urls env"
  shows "(generateVideoFromText env p n = Fulfilled xs \<longrightarrow> well_typed xs)
   \<and> bloblToBase64 env b \<noteq> Fulfilled None"
proof -
  have b: "bloblToBase64 env b \<noteq> Fulfilled None" for b
    using assms
    by (auto simp: bloblToBase64_def reads_data_urls_def index_js_split_comma
        split: option.splits)
  have "x \<noteq> None" if "fetch_video env g = Fulfilled x" for g x
    using that b
    by (auto simp: fetch_video_def await_iffs split: option.splits sum.splits if_splits)
       (metis not_Some_eq)
  then have "well_typed xs" if "generateVideoFromText env p n = Fulfilled xs"
    using generate_Fulfilled_elem [OF that] unfolding well_typed_def list_all_iff by blast
  with b show ?thesis by simp
qed

theorem typed_result_witness:
  "reads_data_urls demo_env
   \<and> generateVideoFromText demo_env [] 1 = Fulfilled [Some demo_payload]
   \<and> well_typed [Some demo_payload]"
  using typed_result [of demo_env "[]" 1 "[Some demo_payload]"] demo_generate [of "[]"]
    follows_file_api_reads [OF demo_file_api]
  by simp

end
