(* ===== verification/App_State.thy ===== *)
theory App_State
  imports Video_Types Generate_Video
begin

text \<open>
  The state and the event handlers of the \<open>App\<close> component
  (\<open>src/unnamed/part_000\<close>, lines 84 to 234).

  The eleven \<open>useState\<close> cells are the fields of the record \<open>app_state\<close>, in the order
  of the source; \<open>initial_state\<close> is their initial values, with the imported
  \<open>MOCK_VIDEOS\<close> as a parameter. A handler is a function from the state in which the
  event fires to the state after React has applied its \<open>set...\<close> calls.

  The two \<open>async\<close> handlers run in two parts, and other events may fire in between:
  \<^item> \<open>handleSaveEdit_begin\<close>, \<open>handleGenerateNewVideo_begin\<close>: the code up to the
    \<open>await generateVideoFromText(...)\<close>; \<open>handleGenerateNewVideo_guard\<close> is the early
    \<open>return\<close> on a blank prompt;
  \<^item> \<open>handleSaveEdit_settle\<close>, \<open>handleGenerateNewVideo_settle\<close>: the rest of the
    \<open>try\<close> block, the \<open>catch\<close> and the \<open>finally\<close>, applied to the state at the time the
    promise settles. Their inputs are what the awaited call returned, the result of
    \<open>self.crypto.randomUUID()\<close> (which throws where the method does not exist, as in
    an insecure context) and the time value of \<open>new Date()\<close>.
  \<open>handleSaveEdit\<close> and \<open>handleGenerateNewVideo\<close> compose the parts around
  \<open>generateVideoFromText\<close> for a run in which nothing else happens in between; their
  value is \<open>None\<close> when the awaited call never settles.
\<close>

section \<open>State\<close>

datatype view_mode = Gallery | History

record app_state =
  videos :: "video list"
  playingVideo :: "video option"
  editingVideo :: "video option"
  isSaving :: bool
  savingMessage :: jsstring
  generationError :: "jsstring list option"
  view :: view_mode
  generatedVideosHistory :: "history_video list"
  newVideoPrompt :: jsstring
  loadingVideoId :: "jsstring option"
  isPlaying :: bool

definition initial_state :: "video list \<Rightarrow> app_state" where
  "initial_state MOCK_VIDEOS =
     \<lparr>videos = MOCK_VIDEOS, playingVideo = None, editingVideo = None, isSaving = False,
      savingMessage = [], generationError = None, view = Gallery,
      generatedVideosHistory = [], newVideoPrompt = [], loadingVideoId = None,
      isPlaying = False\<rparr>"

section \<open>Synchronous handlers\<close>

definition handlePlayVideo :: "video \<Rightarrow> app_state \<Rightarrow> app_state" where
  "handlePlayVideo v s =
     s\<lparr>loadingVideoId := Some (video_id v), playingVideo := Some v, isPlaying := True\<rparr>"

definition handleClosePlayer :: "app_state \<Rightarrow> app_state" where
  "handleClosePlayer s = s\<lparr>playingVideo := None, loadingVideoId := None, isPlaying := False\<rparr>"

definition handleVideoLoaded :: "app_state \<Rightarrow> app_state" where
  "handleVideoLoaded s = s\<lparr>loadingVideoId := None\<rparr>"

definition handleStartEdit :: "video \<Rightarrow> app_state \<Rightarrow> app_state" where
  "handleStartEdit v s =
     s\<lparr>playingVideo := None, isPlaying := False, loadingVideoId := None,
       editingVideo := Some v\<rparr>"

definition handleCancelEdit :: "app_state \<Rightarrow> app_state" where
  "handleCancelEdit s = s\<lparr>editingVideo := None\<rparr>"

section \<open>What both generating handlers share\<close>

definition generation_failed :: "jsstring list" where
  "generation_failed =
     [ascii ''Video generation failed.'',
      ascii ''This may be due to an invalid API key or network issues.'']"

definition no_data :: js_error where
  "no_data = Error (ascii ''Video generation returned no data.'')"

definition video_src :: "js_opt_string list \<Rightarrow> jsstring" where
  "video_src videoObjects =
     (let mimeType = ascii ''video/mp4'';
          videoSrc = (case index_js videoObjects 0 of None \<Rightarrow> None | Some x \<Rightarrow> x)
      in ascii ''data:'' @ mimeType @ ascii '';base64,'' @ to_template videoSrc)"

section \<open>handleSaveEdit\<close>

definition handleSaveEdit_begin :: "video \<Rightarrow> app_state \<Rightarrow> app_state" where
  "handleSaveEdit_begin originalVideo s =
     s\<lparr>editingVideo := None, savingMessage := ascii ''Creating your remix...'',
       isSaving := True, generationError := None\<rparr>"

definition remix_video :: "video \<Rightarrow> js_opt_string list \<Rightarrow> jsstring \<Rightarrow> video" where
  "remix_video originalVideo videoObjects uuid =
     \<lparr>video_id = uuid,
      videoUrl = video_src videoObjects,
      title = ascii ''Remix of '' @ [dquote] @ title originalVideo @ [dquote],
      description = description originalVideo\<rparr>"

definition handleSaveEdit_try ::
  "video \<Rightarrow> js_opt_string list settled \<Rightarrow> jsstring settled \<Rightarrow> int \<Rightarrow> app_state
     \<Rightarrow> js_error + app_state" where
  "handleSaveEdit_try originalVideo outcome uuid now s =
     (case outcome of
        Inl e \<Rightarrow> Inl e
      | Inr videoObjects \<Rightarrow>
          if videoObjects = [] then Inl no_data
          else (case uuid of
                  Inl e \<Rightarrow> Inl e
                | Inr u \<Rightarrow>
                    let newVideo = remix_video originalVideo videoObjects u;
                        newHistoryVideo = stamp newVideo now
                    in Inr (s\<lparr>videos := newVideo # videos s,
                              generatedVideosHistory := newHistoryVideo # generatedVideosHistory s,
                              view := History,
                              playingVideo := Some newVideo,
                              isPlaying := True\<rparr>)))"

definition handleSaveEdit_settle ::
  "video \<Rightarrow> js_opt_string list settled \<Rightarrow> jsstring settled \<Rightarrow> int \<Rightarrow> app_state \<Rightarrow> app_state" where
  "handleSaveEdit_settle originalVideo outcome uuid now s =
     (case handleSaveEdit_try originalVideo outcome uuid now s of
        Inr s' \<Rightarrow> s'
      | Inl e \<Rightarrow> s\<lparr>generationError := Some generation_failed\<rparr>)
     \<lparr>isSaving := False\<rparr>"

definition handleSaveEdit ::
  "remote_env \<Rightarrow> video \<Rightarrow> jsstring settled \<Rightarrow> int \<Rightarrow> app_state \<Rightarrow> app_state option" where
  "handleSaveEdit env originalVideo uuid now s =
     (let s1 = handleSaveEdit_begin originalVideo s;
          promptText = description originalVideo
      in map_option (\<lambda>outcome. handleSaveEdit_settle originalVideo outcome uuid now s1)
           (generateVideoFromText env promptText 1))"

section \<open>handleGenerateNewVideo\<close>

definition handleGenerateNewVideo_guard :: "app_state \<Rightarrow> bool" where
  "handleGenerateNewVideo_guard s \<longleftrightarrow> trim_js (newVideoPrompt s) \<noteq> []"

definition handleGenerateNewVideo_begin :: "app_state \<Rightarrow> app_state" where
  "handleGenerateNewVideo_begin s =
     s\<lparr>savingMessage := ascii ''Generating your video...'', isSaving := True,
       generationError := None\<rparr>"

definition generated_title :: "jsstring \<Rightarrow> jsstring" where
  "generated_title promptText =
     ascii ''Generated: '' @ [dquote] @ substring_js promptText 0 40
       @ (if length promptText > 40 then ascii ''...'' else []) @ [dquote]"

definition generated_video_of :: "jsstring \<Rightarrow> js_opt_string list \<Rightarrow> jsstring \<Rightarrow> video" where
  "generated_video_of promptText videoObjects uuid =
     \<lparr>video_id = uuid,
      videoUrl = video_src videoObjects,
      title = generated_title promptText,
      description = promptText\<rparr>"

definition handleGenerateNewVideo_try ::
  "jsstring \<Rightarrow> js_opt_string list settled \<Rightarrow> jsstring settled \<Rightarrow> int \<Rightarrow> app_state
     \<Rightarrow> js_error + app_state" where
  "handleGenerateNewVideo_try promptText outcome uuid now s =
     (case outcome of
        Inl e \<Rightarrow> Inl e
      | Inr videoObjects \<Rightarrow>
          if videoObjects = [] then Inl no_data
          else (case uuid of
                  Inl e \<Rightarrow> Inl e
                | Inr u \<Rightarrow>
                    let newVideo = generated_video_of promptText videoObjects u;
                        newHistoryVideo = stamp newVideo now
                    in Inr (s\<lparr>videos := newVideo # videos s,
                              generatedVideosHistory := newHistoryVideo # generatedVideosHistory s,
                              newVideoPrompt := [],
                              view := History,
                              playingVideo := Some newVideo,
                              isPlaying := True\<rparr>)))"

definition handleGenerateNewVideo_settle ::
  "jsstring \<Rightarrow> js_opt_string list settled \<Rightarrow> jsstring settled \<Rightarrow> int \<Rightarrow> app_state \<Rightarrow> app_state" where
  "handleGenerateNewVideo_settle promptText outcome uuid now s =
     (case handleGenerateNewVideo_try promptText outcome uuid now s of
        Inr s' \<Rightarrow> s'
      | Inl e \<Rightarrow> s\<lparr>generationError := Some generation_failed\<rparr>)
     \<lparr>isSaving := False\<rparr>"

definition handleGenerateNewVideo ::
  "remote_env \<Rightarrow> jsstring settled \<Rightarrow> int \<Rightarrow> app_state \<Rightarrow> app_state option" where
  "handleGenerateNewVideo env uuid now s =
     (if \<not> handleGenerateNewVideo_guard s then Some s
      else
        let s1 = handleGenerateNewVideo_begin s;
            promptText = trim_js (newVideoPrompt s)
        in map_option (\<lambda>outcome. handleGenerateNewVideo_settle promptText outcome uuid now s1)
             (generateVideoFromText env promptText 1))"

section \<open>What settling a job amounts to\<close>

text \<open>
  The two handlers repeat the same code after their \<open>await\<close>. \<open>settle_spec\<close> states
  once what that code is meant to do: \<open>created_video\<close> is the new video if the call
  returned data and an id could be drawn, \<open>publish\<close> puts it in front of the gallery
  and of the history and opens it in the player, and any failure shows the one error
  message. In both cases the saving page is left.
\<close>

definition created_video ::
  "(js_opt_string list \<Rightarrow> jsstring \<Rightarrow> video) \<Rightarrow> js_opt_string list settled \<Rightarrow> jsstring settled
     \<Rightarrow> video option" where
  "created_video mk outcome uuid =
     (case (outcome, uuid) of
        (Inr videoObjects, Inr u) \<Rightarrow> if videoObjects = [] then None else Some (mk videoObjects u)
      | _ \<Rightarrow> None)"

definition publish :: "video \<Rightarrow> int \<Rightarrow> app_state \<Rightarrow> app_state" where
  "publish newVideo now s =
     s\<lparr>videos := newVideo # videos s,
       generatedVideosHistory := stamp newVideo now # generatedVideosHistory s,
       view := History, playingVideo := Some newVideo, isPlaying := True\<rparr>"

definition settle_spec :: "video option \<Rightarrow> int \<Rightarrow> bool \<Rightarrow> app_state \<Rightarrow> app_state" where
  "settle_spec new now clearPrompt s =
     (case new of
        None \<Rightarrow> s\<lparr>generationError := Some generation_failed\<rparr>
      | Some newVideo \<Rightarrow>
          (publish newVideo now s)\<lparr>newVideoPrompt := (if clearPrompt then [] else newVideoPrompt s)\<rparr>)
     \<lparr>isSaving := False\<rparr>"

subsection \<open>The state updates one by one\<close>

text \<open>
  After an \<open>await\<close> the setters are called outside the event handler, where React
  before version 18 renders after each of them. \<open>settle_updates\<close> is the sequence of
  setter calls that the code after the \<open>await\<close> makes, in the order of the source;
  \<open>PrependVideo\<close> and \<open>PrependHistory\<close> are the two updater functions.
\<close>

datatype state_update =
    PrependVideo video
  | PrependHistory history_video
  | SetNewVideoPrompt jsstring
  | SetView view_mode
  | SetPlayingVideo "video option"
  | SetIsPlaying bool
  | SetGenerationError "jsstring list option"
  | SetIsSaving bool

fun update :: "state_update \<Rightarrow> app_state \<Rightarrow> app_state" where
  "update (PrependVideo v) s = s\<lparr>videos := v # videos s\<rparr>"
| "update (PrependHistory h) s = s\<lparr>generatedVideosHistory := h # generatedVideosHistory s\<rparr>"
| "update (SetNewVideoPrompt p) s = s\<lparr>newVideoPrompt := p\<rparr>"
| "update (SetView m) s = s\<lparr>view := m\<rparr>"
| "update (SetPlayingVideo v) s = s\<lparr>playingVideo := v\<rparr>"
| "update (SetIsPlaying b) s = s\<lparr>isPlaying := b\<rparr>"
| "update (SetGenerationError e) s = s\<lparr>generationError := e\<rparr>"
| "update (SetIsSaving b) s = s\<lparr>isSaving := b\<rparr>"

definition settle_updates :: "video option \<Rightarrow> int \<Rightarrow> bool \<Rightarrow> state_update list" where
  "settle_updates new now clearPrompt =
     (case new of
        Some newVideo \<Rightarrow>
          [PrependVideo newVideo, PrependHistory (stamp newVideo now)]
          @ (if clearPrompt then [SetNewVideoPrompt []] else [])
          @ [SetView History, SetPlayingVideo (Some newVideo), SetIsPlaying True]
      | None \<Rightarrow> [SetGenerationError (Some generation_failed)])
     @ [SetIsSaving False]"

lemmas sync_handler_defs [handler_defs] =
  handlePlayVideo_def handleClosePlayer_def handleVideoLoaded_def handleStartEdit_def
  handleCancelEdit_def

lemmas save_edit_defs [handler_defs] =
  handleSaveEdit_begin_def handleSaveEdit_try_def handleSaveEdit_settle_def

lemmas generate_new_defs [handler_defs] =
  handleGenerateNewVideo_begin_def handleGenerateNewVideo_try_def
  handleGenerateNewVideo_settle_def

subsection \<open>Example states\<close>

definition sample_video :: video where
  "sample_video = \<lparr>video_id = ascii ''1'', videoUrl = ascii ''https://v.test/1.mp4'',
                    title = ascii ''Sample'', description = ascii ''A sample''\<rparr>"

definition editing_state :: app_state where
  "editing_state = (initial_state [sample_video])\<lparr>editingVideo := Some sample_video\<rparr>"

section \<open>Lemmas\<close>

lemma created_video_simps [simp]:
  "created_video mk (Inl e) uuid = None"
  "created_video mk outcome (Inl e) = None"
  "created_video mk (Inr videoObjects) (Inr u) =
     (if videoObjects = [] then None else Some (mk videoObjects u))"
  by (simp_all add: created_video_def split: sum.splits)

lemma created_video_Some_iff:
  "created_video mk outcome uuid = Some v \<longleftrightarrow>
     (\<exists>videoObjects u. outcome = Inr videoObjects \<and> videoObjects \<noteq> [] \<and> uuid = Inr u
        \<and> v = mk videoObjects u)"
  by (cases outcome; cases uuid) auto

lemma handleSaveEdit_settle_spec:
  "handleSaveEdit_settle v outcome uuid now s
     = settle_spec (created_video (remix_video v) outcome uuid) now False s"
  by (cases outcome; cases uuid)
     (simp_all add: handleSaveEdit_settle_def handleSaveEdit_try_def settle_spec_def
        publish_def Let_def)

lemma handleGenerateNewVideo_settle_spec:
  "handleGenerateNewVideo_settle p outcome uuid now s
     = settle_spec (created_video (generated_video_of p) outcome uuid) now True s"
  by (cases outcome; cases uuid)
     (simp_all add: handleGenerateNewVideo_settle_def handleGenerateNewVideo_try_def
        settle_spec_def publish_def Let_def)

lemma video_src_data_url:
  "video_src (x # xs) = data_url (ascii ''video/mp4'') (to_template x)"
  by (simp add: video_src_def data_url_def index_js_def Let_def)

lemma video_src_decode:
  "data_url_decode (video_src (Some (base64 content) # xs)) = Some (ascii ''video/mp4'', content)"
  by (simp add: video_src_data_url data_url_decode_data_url)

lemma generated_title_short:
  "length p \<le> 40 \<Longrightarrow> generated_title p = ascii ''Generated: '' @ [dquote] @ p @ [dquote]"
  by (simp add: generated_title_def substring_js_0)

lemma generated_title_long:
  "40 < length p \<Longrightarrow>
     generated_title p = ascii ''Generated: '' @ [dquote] @ take 40 p @ ascii ''...'' @ [dquote]"
  by (simp add: generated_title_def substring_js_0)

subsection \<open>The updates of a resumed handler\<close>

lemma fold_settle_updates:
  "fold update (settle_updates new now clearPrompt) s = settle_spec new now clearPrompt s"
  by (cases new) (simp_all add: settle_updates_def settle_spec_def publish_def)

lemma isSaving_update: "\<forall>b. u \<noteq> SetIsSaving b \<Longrightarrow> isSaving (update u s) = isSaving s"
  by (cases u) auto

lemma isSaving_fold_update:
  "\<forall>u \<in> set us. \<forall>b. u \<noteq> SetIsSaving b \<Longrightarrow> isSaving (fold update us s) = isSaving s"
  by (induction us arbitrary: s) (simp_all add: isSaving_update)

lemma savingMessage_fold_update [simp]: "savingMessage (fold update us s) = savingMessage s"
proof (induction us arbitrary: s)
  case Nil
  show ?case by simp
next
  case (Cons u us)
  have "savingMessage (update u s) = savingMessage s" by (cases u) simp_all
  with Cons.IH [of "update u s"] show ?case by simp
qed

lemma settle_updates_butlast:
  "u \<in> set (butlast (settle_updates new now clearPrompt)) \<Longrightarrow> u \<noteq> SetIsSaving b"
  by (cases new) (auto simp: settle_updates_def butlast_append)

lemma length_settle_updates: "0 < length (settle_updates new now clearPrompt)"
  by (simp add: settle_updates_def)

lemma settle_updates_saving:
  assumes "n < length (settle_updates new now clearPrompt)"
  shows "isSaving (fold update (take n (settle_updates new now clearPrompt)) s) = isSaving s"
proof (rule isSaving_fold_update, intro ballI allI)
  fix u b
  assume "u \<in> set (take n (settle_updates new now clearPrompt))"
  with assms have "u \<in> set (butlast (settle_updates new now clearPrompt))"
    by (auto dest: set_take_butlast)
  then show "u \<noteq> SetIsSaving b" by (rule settle_updates_butlast)
qed

section \<open>Properties of the handlers\<close>

text \<open>C7. Both generating handlers implement the same specification after their
  \<open>await\<close>: the code that \<open>handleSaveEdit\<close> and \<open>handleGenerateNewVideo\<close> each repeat
  is \<open>settle_spec\<close>, applied to the video each of them builds; they differ only in
  that video and in clearing the prompt. Made one setter call at a time, in the order
  of the source, the updates amount to the same state.\<close>

theorem settle_refines_spec:
  "handleSaveEdit_settle v outcome uuid now s
     = settle_spec (created_video (remix_video v) outcome uuid) now False s
   \<and> handleGenerateNewVideo_settle p outcome uuid now s
     = settle_spec (created_video (generated_video_of p) outcome uuid) now True s
   \<and> fold update (settle_updates new now clearPrompt) s = settle_spec new now clearPrompt s"
  by (simp add: handleSaveEdit_settle_spec handleGenerateNewVideo_settle_spec
      fold_settle_updates)



text \<open>A prompt of white space only is refused before anything happens:
  \<open>handleGenerateNewVideo\<close> returns at once, sends no request and leaves the state as
  it is.\<close>

lemma blank_prompt_ignored:
  "list_all isStrWhiteSpace (newVideoPrompt s) \<Longrightarrow> handleGenerateNewVideo env uuid now s = Some s"
  by (simp add: handleGenerateNewVideo_def handleGenerateNewVideo_guard_def trim_js_all_space)

text \<open>The title of a generated video quotes the prompt, cut after 40 code units
  and then marked with three dots; it is never longer than 56 code units.\<close>

lemma generated_title_bounds:
  "length (generated_title p) \<le> 56
   \<and> (length p \<le> 40 \<longrightarrow> generated_title p = ascii ''Generated: '' @ [dquote] @ p @ [dquote])
   \<and> (40 < length p \<longrightarrow>
        generated_title p
          = ascii ''Generated: '' @ [dquote] @ take 40 p @ ascii ''...'' @ [dquote])"
  by (cases "length p \<le> 40") (simp_all add: generated_title_short generated_title_long)

text \<open>C37. \<open>substring(0, 40)\<close> counts UTF-16 code units, not characters: the title
  made from a well-formed prompt is a well-formed string exactly when the prompt has
  at most 40 code units or its 40th code unit is not the first half of a surrogate
  pair. A prompt with an emoji across positions 40 and 41 gets a title that ends in
  half a character.\<close>

theorem generated_title_well_formed:
  assumes "isWellFormed p"
  shows "isWellFormed (generated_title p) \<longleftrightarrow> length p \<le> 40 \<or> \<not> isHighSurrogate (p ! 39)"
proof -
  have "isWellFormed (generated_title p) \<longleftrightarrow> isWellFormed (take 40 p)"
  proof (cases "length p \<le> 40")
    case True
    then show ?thesis
      by (simp only: generated_title_short isWellFormed_plain_append isWellFormed_append_plain
          isPlain_ascii isPlain_dquote take_all)
  next
    case False
    have "isPlain (ascii ''...'' @ [dquote])"
      by (simp only: isPlain_append isPlain_ascii isPlain_dquote)
    with False show ?thesis
      by (simp only: generated_title_long not_le isWellFormed_plain_append
          isWellFormed_append_plain isPlain_ascii isPlain_dquote)
  qed
  with assms show ?thesis by (auto simp: isWellFormed_take_iff)
qed

theorem generated_title_well_formed_witness:
  "isWellFormed (replicate 39 0x61 @ [0xD83D, 0xDE00])
   \<and> \<not> isWellFormed (generated_title (replicate 39 0x61 @ [0xD83D, 0xDE00]))"
  using generated_title_well_formed [of "replicate 39 0x61 @ [0xD83D, 0xDE00]"]
  by (simp add: isHighSurrogate_def isLowSurrogate_def nth_append)

text \<open>C40. A failure of \<open>randomUUID\<close> after a successful generation is reported as a
  failed generation: the video that was produced and downloaded is dropped and the
  state shows the generic error.\<close>

theorem uuid_failure_discards_video:
  "handleSaveEdit_settle v (Inr videoObjects) (Inl e) now s
     = s\<lparr>generationError := Some generation_failed, isSaving := False\<rparr>
   \<and> handleGenerateNewVideo_settle p (Inr videoObjects) (Inl e) now s
     = s\<lparr>generationError := Some generation_failed, isSaving := False\<rparr>"
  by (simp add: handleSaveEdit_settle_spec handleGenerateNewVideo_settle_spec settle_spec_def)

text \<open>An \<open>undefined\<close> payload is not noticed: if the first element returned by
  \<open>generateVideoFromText\<close> is \<open>undefined\<close>, the new video is still published, with
  the URL \<open>data:video/mp4;base64,undefined\<close>.\<close>

lemma undefined_payload_published:
  "handleSaveEdit_settle v (Inr (None # xs)) (Inr u) now s
     = (publish (remix_video v (None # xs) u) now s)\<lparr>isSaving := False\<rparr>
   \<and> videoUrl (remix_video v (None # xs) u) = ascii ''data:video/mp4;base64,undefined''"
  by (simp add: handleSaveEdit_settle_spec settle_spec_def publish_def remix_video_def
      video_src_def index_js_def Let_def)

end
