(* ===== verification/JS_Array.thy ===== *)
theory JS_Array
  imports Gallery_Prelude
begin

text \<open>
  \<open>Array.prototype.sort\<close> with a comparator (ECMA-262 23.1.3.30). The standard leaves
  the algorithm to the engine but fixes the result for a consistent comparator: the
  sort is stable, so the result is the one permutation that is ordered by the
  comparator and keeps elements that compare equal in their original order.
  \<open>sort_js\<close> is the insertion sort that computes this permutation; \<open>sort_js_key\<close>
  identifies it with the library's \<open>sort_key\<close> when the comparator compares keys, and
  the library's lemmas on order, contents and stability carry over.
\<close>

section \<open>Definitions\<close>

fun insert_js :: "('a \<Rightarrow> 'a \<Rightarrow> int) \<Rightarrow> 'a \<Rightarrow> 'a list \<Rightarrow> 'a list" where
  "insert_js cmp x [] = [x]"
| "insert_js cmp x (y # ys) =
     (if cmp x y \<le> 0 then x # y # ys else y # insert_js cmp x ys)"

definition sort_js :: "('a \<Rightarrow> 'a \<Rightarrow> int) \<Rightarrow> 'a list \<Rightarrow> 'a list" where
  "sort_js cmp xs = foldr (insert_js cmp) xs []"

section \<open>Lemmas\<close>

lemma sort_js_simps [simp]:
  "sort_js cmp [] = []"
  "sort_js cmp (x # xs) = insert_js cmp x (sort_js cmp xs)"
  by (simp_all add: sort_js_def)

lemma insert_js_key:
  assumes "\<And>a b. cmp a b \<le> 0 \<longleftrightarrow> key a \<le> key b"
  shows "insert_js cmp x ys = insort_key key x ys"
  by (induction ys) (simp_all add: assms)

lemma sort_js_key:
  assumes "\<And>a b. cmp a b \<le> 0 \<longleftrightarrow> key a \<le> key b"
  shows "sort_js cmp xs = sort_key key xs"
  by (induction xs) (simp_all add: insert_js_key [OF assms])

lemma mset_insert_js [simp]: "mset (insert_js cmp x ys) = add_mset x (mset ys)"
  by (induction ys) simp_all

lemma mset_sort_js [simp]: "mset (sort_js cmp xs) = mset xs"
  by (induction xs) simp_all

lemma length_sort_js [simp]: "length (sort_js cmp xs) = length xs"
  by (metis mset_sort_js size_mset)

lemma set_sort_js [simp]: "set (sort_js cmp xs) = set xs"
  by (metis mset_sort_js set_mset_mset)

end
