(* ===== verification/History_Page.thy ===== *)
theory History_Page
  imports Video_Types JS_Array
begin

text \<open>
  The component \<open>HistoryPage\<close> (\<open>src/components/HistoryPage.tsx\<close>): what it renders
  for a list of generated videos and the id of the video that is loading.

  \<^item> \<open>newest_first\<close> is the comparator \<open>(a, b) => b.createdAt.getTime() -
    a.createdAt.getTime()\<close>, \<open>sortedVideos\<close> the sorted copy of the list.
  \<^item> \<open>HistoryPage\<close> is the returned element: the empty state, or one \<open>HistoryCard\<close> per
    video in sorted order, described by its props (\<open>key\<close>, \<open>video\<close>, \<open>isLoading\<close>).
    The prop \<open>onPlay\<close> is the caller's \<open>onPlayVideo\<close> for every card.
\<close>

section \<open>Definitions\<close>

definition newest_first :: "history_video \<Rightarrow> history_video \<Rightarrow> int" where
  "newest_first a b = createdAt b - createdAt a"

definition sortedVideos :: "history_video list \<Rightarrow> history_video list" where
  "sortedVideos videos = sort_js newest_first videos"

record history_card_props =
  card_key :: jsstring
  card_video :: history_video
  card_isLoading :: bool

datatype history_page_view =
    NoVideosGeneratedYet
  | HistoryCards "history_card_props list"

definition history_card :: "jsstring option \<Rightarrow> history_video \<Rightarrow> history_card_props" where
  "history_card loadingVideoId v =
     \<lparr>card_key = video_id v, card_video = v,
      card_isLoading = (loadingVideoId = Some (video_id v))\<rparr>"

definition HistoryPage :: "history_video list \<Rightarrow> jsstring option \<Rightarrow> history_page_view" where
  "HistoryPage videos loadingVideoId =
     (if length videos = 0 then NoVideosGeneratedYet
      else HistoryCards (map (history_card loadingVideoId) (sortedVideos videos)))"

fun cards_of :: "history_page_view \<Rightarrow> history_card_props list" where
  "cards_of NoVideosGeneratedYet = []"
| "cards_of (HistoryCards cs) = cs"

definition clip :: "string \<Rightarrow> int \<Rightarrow> history_video" where
  "clip name t =
     \<lparr>video_id = ascii name, videoUrl = ascii ''data:video/mp4;base64,AAAA'',
      title = ascii ''Remix'', description = ascii ''a cat'', createdAt = t\<rparr>"

lemmas history_page_defs [view_defs] = HistoryPage_def history_card_def

section \<open>Lemmas\<close>

lemma sortedVideos_sort_key: "sortedVideos videos = sort_key (\<lambda>v. - createdAt v) videos"
  unfolding sortedVideos_def
  by (rule sort_js_key) (simp add: newest_first_def)

lemma mset_sortedVideos [simp]: "mset (sortedVideos videos) = mset videos"
  by (simp add: sortedVideos_def)

lemma set_sortedVideos [simp]: "set (sortedVideos videos) = set videos"
  by (simp add: sortedVideos_def)

lemma length_sortedVideos [simp]: "length (sortedVideos videos) = length videos"
  by (simp add: sortedVideos_def)

lemma sorted_sortedVideos: "sorted (map (\<lambda>v. - createdAt v) (sortedVideos videos))"
  by (simp add: sortedVideos_sort_key)

lemma newest_first_sorted_wrt:
  "sorted_wrt (\<lambda>a b. createdAt b \<le> createdAt a) (sortedVideos videos)"
  using sorted_sortedVideos [of videos] by (simp add: sorted_map sorted_wrt_map)

lemma sortedVideos_id:
  "sorted_wrt (\<lambda>a b. createdAt b \<le> createdAt a) videos \<Longrightarrow> sortedVideos videos = videos"
  unfolding sortedVideos_sort_key
  by (rule sort_key_id_if_sorted) (simp add: sorted_map sorted_wrt_map)

lemma cards_of_HistoryPage:
  "cards_of (HistoryPage videos l) = map (history_card l) (sortedVideos videos)"
  by (cases videos) (simp_all add: HistoryPage_def sortedVideos_def)

lemma card_key_cards:
  "map card_key (cards_of (HistoryPage videos l)) = map video_id (sortedVideos videos)"
  by (simp add: cards_of_HistoryPage history_card_def)

lemma card_video_cards:
  "map card_video (cards_of (HistoryPage videos l)) = sortedVideos videos"
  by (simp add: cards_of_HistoryPage history_card_def comp_def)

lemma loading_cards:
  "filter card_isLoading (cards_of (HistoryPage videos l))
     = map (history_card l) (filter (\<lambda>v. Some (video_id v) = l) (sortedVideos videos))"
  by (auto simp: cards_of_HistoryPage history_card_def filter_map comp_def
      intro!: arg_cong [where f = "map _"] filter_cong)

lemma distinct_sortedVideos_ids:
  "distinct (map video_id (sortedVideos videos)) \<longleftrightarrow> distinct (map video_id videos)"
  by (rule distinct_map_mset_cong) simp

section \<open>Properties of the history page\<close>

text \<open>C18. The history page shows every generated video exactly once, newest first: the
  cards carry a permutation of the given list, ordered by descending creation time;
  and the placeholder is shown exactly for the empty list.\<close>

theorem history_cards_newest_first:
  "mset (map card_video (cards_of (HistoryPage videos l))) = mset videos
   \<and> sorted_wrt (\<lambda>a b. createdAt (card_video b) \<le> createdAt (card_video a))
       (cards_of (HistoryPage videos l))
   \<and> (HistoryPage videos l = NoVideosGeneratedYet \<longleftrightarrow> videos = [])"
proof -
  have "mset (map card_video (cards_of (HistoryPage videos l))) = mset videos"
    by (simp only: card_video_cards mset_sortedVideos)
  moreover have "sorted_wrt (\<lambda>a b. createdAt (card_video b) \<le> createdAt (card_video a))
      (cards_of (HistoryPage videos l))"
    using newest_first_sorted_wrt [of videos]
    by (simp add: cards_of_HistoryPage sorted_wrt_map history_card_def)
  moreover have "HistoryPage videos l = NoVideosGeneratedYet \<longleftrightarrow> videos = []"
    by (simp add: HistoryPage_def)
  ultimately show ?thesis by simp
qed

text \<open>The sort is stable, as ECMAScript 2019 requires of \<open>Array.prototype.sort\<close>:
  videos created in the same millisecond keep the order of the list they came in.\<close>

lemma sortedVideos_stable:
  "filter (\<lambda>v. createdAt v = t) (sortedVideos videos) = filter (\<lambda>v. createdAt v = t) videos"
  using sort_key_stable [of "\<lambda>v. - createdAt v" "- t" videos]
  by (simp add: sortedVideos_sort_key)

text \<open>C34. With pairwise different ids the cards have pairwise different React keys, and
  at most one card shows the loading spinner; a card shows it exactly when its video is
  the one named by \<open>loadingVideoId\<close>.\<close>

theorem history_cards_keys:
  assumes "distinct (map video_id videos)"
  shows "distinct (map card_key (cards_of (HistoryPage videos l)))
   \<and> length (filter card_isLoading (cards_of (HistoryPage videos l))) \<le> 1
   \<and> (\<forall>c \<in> set (cards_of (HistoryPage videos l)).
        card_isLoading c \<longleftrightarrow> l = Some (video_id (card_video c)))"
proof -
  from assms have d: "distinct (map video_id (sortedVideos videos))"
    by (simp add: distinct_sortedVideos_ids)
  have "length (filter (\<lambda>v. Some (video_id v) = l) (sortedVideos videos)) \<le> Suc 0"
  proof (cases l)
    case None
    then show ?thesis by simp
  next
    case (Some k)
    with distinct_map_filter_le1 [OF d, of k] show ?thesis by simp
  qed
  moreover have "\<forall>c \<in> set (map (history_card l) (sortedVideos videos)).
      card_isLoading c \<longleftrightarrow> l = Some (video_id (card_video c))"
    by (auto simp: history_card_def)
  then have "\<forall>c \<in> set (cards_of (HistoryPage videos l)).
      card_isLoading c \<longleftrightarrow> l = Some (video_id (card_video c))"
    by (simp only: cards_of_HistoryPage)
  ultimately show ?thesis
    using d by (simp add: card_key_cards loading_cards)
qed

theorem history_cards_keys_witness:
  "distinct (map video_id [clip ''a'' 10, clip ''b'' 30, clip ''c'' 20])
   \<and> map card_key (cards_of (HistoryPage [clip ''a'' 10, clip ''b'' 30, clip ''c'' 20]
        (Some (ascii ''c'')))) = [ascii ''b'', ascii ''c'', ascii ''a'']
   \<and> map card_isLoading (cards_of (HistoryPage [clip ''a'' 10, clip ''b'' 30, clip ''c'' 20]
        (Some (ascii ''c'')))) = [False, True, False]"
  using history_cards_keys [of "[clip ''a'' 10, clip ''b'' 30, clip ''c'' 20]" "Some (ascii ''c'')"]
  by (simp add: clip_def history_page_defs sortedVideos_def newest_first_def)

end
