(* ===== verification/App_View.thy ===== *)
theory App_View
  imports App_State History_Page
begin

text \<open>
  What the \<open>App\<close> component renders (\<open>src/unnamed/part_000\<close>, lines 236 to 343), and
  which handlers the rendered elements make reachable.

  \<^item> \<open>render\<close> follows the returned JSX: the saving page alone while \<open>isSaving\<close>;
    otherwise the edit page or the home page (prompt box, tabs, grid or history),
    with the player overlay when \<open>isPlaying && playingVideo\<close> and the error dialog
    when \<open>generationError\<close> is set. Class names and static text are left out; every
    expression that depends on the state is a field of the view.
  \<^item> \<open>event\<close> names the callbacks the JSX passes down or attaches, and \<open>offers\<close>
    says which of them an element of the view can invoke. Three children are not
    part of the sources. Of them the model supposes what their props allow:
    \<open>SavingProgressPage\<close> gets no callback and so invokes none; \<open>VideoGrid\<close> calls
    \<open>onPlayVideo\<close> with one of the videos it was given; \<open>EditVideoPage\<close> calls
    \<open>onSave\<close> with a video of its choice (the edited one) and \<open>onCancel\<close>.
    The player overlay does not take the controls under it out of the tab order, so
    the controls of the home page stay reachable while it is shown.
  \<^item> \<open>handle\<close> is the synchronous effect of an event on the state: the handler of
    \<open>App_State\<close> or the inline arrow function of the JSX.
\<close>

section \<open>Definitions\<close>

datatype main_view =
    VideoGridView "video list" "jsstring option"
  | HistoryPageView history_page_view

record home_view =
  textarea_value :: jsstring
  textarea_disabled :: bool
  generate_disabled :: bool
  generate_label :: jsstring
  gallery_tab_selected :: bool
  history_tab_selected :: bool
  main :: main_view

datatype page_view =
    EditVideoPageView video
  | HomeView home_view

datatype app_view =
    SavingProgressPageView jsstring
  | AppView page_view "video option" "jsstring list option"

definition render_home :: "app_state \<Rightarrow> home_view" where
  "render_home s =
     \<lparr>textarea_value = newVideoPrompt s,
      textarea_disabled = isSaving s,
      generate_disabled = (trim_js (newVideoPrompt s) = [] \<or> isSaving s),
      generate_label = (if isSaving s then ascii ''Generating...'' else ascii ''Generate Video''),
      gallery_tab_selected = (view s = Gallery),
      history_tab_selected = (view s = History),
      main = (if view s = Gallery then VideoGridView (videos s) (loadingVideoId s)
              else HistoryPageView (HistoryPage (generatedVideosHistory s) (loadingVideoId s)))\<rparr>"

definition render :: "app_state \<Rightarrow> app_view" where
  "render s =
     (if isSaving s then SavingProgressPageView (savingMessage s)
      else AppView
        (case editingVideo s of
           Some v \<Rightarrow> EditVideoPageView v
         | None \<Rightarrow> HomeView (render_home s))
        (if isPlaying s then playingVideo s else None)
        (generationError s))"

datatype event =
    PlayVideo video
  | ClosePlayer
  | VideoLoaded
  | StartEdit video
  | CancelEdit
  | SaveEdit video
  | ChangePrompt jsstring
  | GenerateNewVideo
  | SetView view_mode
  | CloseError
  | SelectKey

fun playable :: "main_view \<Rightarrow> video list" where
  "playable (VideoGridView vs l) = vs"
| "playable (HistoryPageView hp) = map (\<lambda>c. video_of (card_video c)) (cards_of hp)"

fun page_offers :: "page_view \<Rightarrow> event \<Rightarrow> bool" where
  "page_offers (EditVideoPageView v) CancelEdit = True"
| "page_offers (EditVideoPageView v) (SaveEdit v') = True"
| "page_offers (HomeView h) (ChangePrompt p) = (\<not> textarea_disabled h)"
| "page_offers (HomeView h) GenerateNewVideo = (\<not> generate_disabled h)"
| "page_offers (HomeView h) (SetView m) = True"
| "page_offers (HomeView h) (PlayVideo v) = (v \<in> set (playable (main h)))"
| "page_offers page e = False"

fun player_offers :: "video option \<Rightarrow> event \<Rightarrow> bool" where
  "player_offers (Some v) ClosePlayer = True"
| "player_offers (Some v) VideoLoaded = True"
| "player_offers (Some v) (StartEdit v') = (v' = v)"
| "player_offers player e = False"

fun modal_offers :: "jsstring list option \<Rightarrow> event \<Rightarrow> bool" where
  "modal_offers (Some message) CloseError = True"
| "modal_offers (Some message) SelectKey = True"
| "modal_offers modal e = False"

fun offers :: "app_view \<Rightarrow> event \<Rightarrow> bool" where
  "offers (SavingProgressPageView message) e = False"
| "offers (AppView page player modal) e =
     (page_offers page e \<or> player_offers player e \<or> modal_offers modal e)"

fun handle :: "event \<Rightarrow> app_state \<Rightarrow> app_state" where
  "handle (PlayVideo v) s = handlePlayVideo v s"
| "handle ClosePlayer s = handleClosePlayer s"
| "handle VideoLoaded s = handleVideoLoaded s"
| "handle (StartEdit v) s = handleStartEdit v s"
| "handle CancelEdit s = handleCancelEdit s"
| "handle (SaveEdit v) s = handleSaveEdit_begin v s"
| "handle (ChangePrompt p) s = s\<lparr>newVideoPrompt := p\<rparr>"
| "handle GenerateNewVideo s =
     (if handleGenerateNewVideo_guard s then handleGenerateNewVideo_begin s else s)"
| "handle (SetView m) s = s\<lparr>view := m\<rparr>"
| "handle CloseError s = s\<lparr>generationError := None\<rparr>"
| "handle SelectKey s = s"

lemmas render_defs [view_defs] = render_def render_home_def

section \<open>Lemmas\<close>

lemma render_saving [simp]: "isSaving s \<Longrightarrow> render s = SavingProgressPageView (savingMessage s)"
  by (simp add: render_def)

lemma offers_saving [simp]: "isSaving s \<Longrightarrow> \<not> offers (render s) e"
  by simp

lemma offers_not_saving: "offers (render s) e \<Longrightarrow> \<not> isSaving s"
  by (rule ccontr) simp

lemma offers_PlayVideo:
  "offers (render s) (PlayVideo v) \<longleftrightarrow>
     \<not> isSaving s \<and> editingVideo s = None \<and>
     (if view s = Gallery then v \<in> set (videos s)
      else v \<in> video_of ` set (generatedVideosHistory s))"
  by (auto simp: render_defs cards_of_HistoryPage history_card_def split: option.splits)

lemma offers_player:
  "offers (render s) ClosePlayer \<longleftrightarrow> \<not> isSaving s \<and> isPlaying s \<and> playingVideo s \<noteq> None"
  "offers (render s) VideoLoaded \<longleftrightarrow> \<not> isSaving s \<and> isPlaying s \<and> playingVideo s \<noteq> None"
  "offers (render s) (StartEdit v) \<longleftrightarrow> \<not> isSaving s \<and> isPlaying s \<and> playingVideo s = Some v"
  by (cases "playingVideo s"; auto simp: render_defs split: option.splits)+

lemma offers_edit:
  "offers (render s) CancelEdit \<longleftrightarrow> \<not> isSaving s \<and> editingVideo s \<noteq> None"
  "offers (render s) (SaveEdit v) \<longleftrightarrow> \<not> isSaving s \<and> editingVideo s \<noteq> None"
  by (cases "playingVideo s"; cases "generationError s";
      auto simp: render_defs split: option.splits)+

lemma offers_home:
  "offers (render s) (ChangePrompt p) \<longleftrightarrow> \<not> isSaving s \<and> editingVideo s = None"
  "offers (render s) GenerateNewVideo \<longleftrightarrow>
     \<not> isSaving s \<and> editingVideo s = None \<and> trim_js (newVideoPrompt s) \<noteq> []"
  "offers (render s) (SetView m) \<longleftrightarrow> \<not> isSaving s \<and> editingVideo s = None"
  by (cases "playingVideo s"; cases "generationError s";
      auto simp: render_defs split: option.splits)+

lemma offers_modal:
  "offers (render s) CloseError \<longleftrightarrow> \<not> isSaving s \<and> generationError s \<noteq> None"
  "offers (render s) SelectKey \<longleftrightarrow> \<not> isSaving s \<and> generationError s \<noteq> None"
  by (cases "playingVideo s"; cases "generationError s";
      auto simp: render_defs split: option.splits)+

lemma intermediate_renders:
  assumes "isSaving s" and "n < length (settle_updates new now clearPrompt)"
  shows "render (fold update (take n (settle_updates new now clearPrompt)) s)
     = SavingProgressPageView (savingMessage s)"
  using assms by (simp add: settle_updates_saving)

lemmas offers_iff = offers_PlayVideo offers_player offers_edit offers_home offers_modal

section \<open>Properties of the view\<close>

text \<open>C38. On the home page the prompt box is never disabled and the button never reads
  "Generating...": the home page is rendered only while \<open>isSaving\<close> is false, so both
  uses of \<open>isSaving\<close> inside it are dead. The button is disabled exactly for a blank
  prompt, which is the handler's own guard, so the handler's early \<open>return\<close> is never
  taken from the button.\<close>

theorem home_controls:
  "render s = AppView (HomeView h) player modal \<Longrightarrow>
     \<not> textarea_disabled h \<and> generate_label h = ascii ''Generate Video''
     \<and> (generate_disabled h \<longleftrightarrow> trim_js (textarea_value h) = [])
     \<and> (offers (render s) GenerateNewVideo \<longleftrightarrow> handleGenerateNewVideo_guard s)"
  by (auto simp: render_defs handleGenerateNewVideo_guard_def split: if_splits option.splits)

theorem home_controls_witness:
  "render (initial_state []) = AppView (HomeView (render_home (initial_state []))) None None
     \<and> \<not> textarea_disabled (render_home (initial_state []))
     \<and> generate_label (render_home (initial_state [])) = ascii ''Generate Video''
     \<and> generate_disabled (render_home (initial_state []))"
  using home_controls [of "initial_state []" "render_home (initial_state [])" None None]
  by (simp add: render_defs initial_state_def)

end
