(* ===== verification/App_Machine.thy ===== *)
theory App_Machine
  imports App_View
begin

text \<open>
  The application as a state machine: the state of \<open>App\<close> together with the
  continuations of its \<open>async\<close> handlers that are waiting for
  \<open>generateVideoFromText\<close>.

  \<^item> A \<open>job\<close> is a handler suspended at its \<open>await\<close>, with the variables it has
    captured: the video being remixed, or the trimmed prompt. \<open>system\<close> pairs the
    \<open>app_state\<close> with the list of jobs in flight.
  \<^item> A step is either an event that the rendered view offers (\<open>ui_step\<close>: the handler
    runs up to its first \<open>await\<close> and may start a job) or the settling of a job
    (\<open>settle_step\<close>: the rest of the handler runs on the state of that moment). The
    outcome of a settled job is any value that \<open>generateVideoFromText\<close> can return
    (\<open>possible_outcome\<close>: \<open>generate_possible_outcome\<close> shows that it may return no
    other, \<open>outcome_env_generate\<close> that under some service it returns each); a job
    whose call stays pending just never takes its step.
  \<^item> \<open>fire\<close> and \<open>run\<close> execute labelled steps and check that each is enabled;
    \<open>reachable\<close> is the set of states of all runs from \<open>initial_state\<close>.
  \<^item> \<open>app_inv\<close> collects what holds in every reachable state; the theorems at the
    end are its consequences for the user.
\<close>

section \<open>Definitions\<close>

datatype job =
    SaveEditJob video
  | GenerateJob jsstring

record system =
  ui :: app_state
  jobs :: "job list"

definition initial_system :: "video list \<Rightarrow> system" where
  "initial_system MOCK_VIDEOS = \<lparr>ui = initial_state MOCK_VIDEOS, jobs = []\<rparr>"

fun spawns :: "event \<Rightarrow> app_state \<Rightarrow> job list" where
  "spawns (SaveEdit v) s = [SaveEditJob v]"
| "spawns GenerateNewVideo s =
     (if handleGenerateNewVideo_guard s then [GenerateJob (trim_js (newVideoPrompt s))] else [])"
| "spawns e s = []"

fun job_prompt :: "job \<Rightarrow> jsstring" where
  "job_prompt (SaveEditJob v) = description v"
| "job_prompt (GenerateJob promptText) = promptText"

fun settle_job ::
  "job \<Rightarrow> js_opt_string list settled \<Rightarrow> jsstring settled \<Rightarrow> int \<Rightarrow> app_state \<Rightarrow> app_state" where
  "settle_job (SaveEditJob v) outcome uuid now s = handleSaveEdit_settle v outcome uuid now s"
| "settle_job (GenerateJob promptText) outcome uuid now s =
     handleGenerateNewVideo_settle promptText outcome uuid now s"

definition ui_step :: "event \<Rightarrow> system \<Rightarrow> system" where
  "ui_step e sys = \<lparr>ui = handle e (ui sys), jobs = jobs sys @ spawns e (ui sys)\<rparr>"

definition settle_step ::
  "nat \<Rightarrow> js_opt_string list settled \<Rightarrow> jsstring settled \<Rightarrow> int \<Rightarrow> system \<Rightarrow> system" where
  "settle_step i outcome uuid now sys =
     \<lparr>ui = settle_job (jobs sys ! i) outcome uuid now (ui sys),
      jobs = take i (jobs sys) @ drop (Suc i) (jobs sys)\<rparr>"

fun possible_outcome :: "js_opt_string list settled \<Rightarrow> bool" where
  "possible_outcome (Inl e) = True"
| "possible_outcome (Inr videoObjects) =
     (videoObjects \<noteq> [] \<and> list_all (\<lambda>x. case x of None \<Rightarrow> True | Some p \<Rightarrow> 0x2C \<notin> set p) videoObjects)"

datatype label =
    UI event
  | Settle nat "js_opt_string list settled" "jsstring settled" int

fun enabled :: "system \<Rightarrow> label \<Rightarrow> bool" where
  "enabled sys (UI e) = offers (render (ui sys)) e"
| "enabled sys (Settle i outcome uuid now) = (i < length (jobs sys) \<and> possible_outcome outcome)"

fun fire :: "label \<Rightarrow> system \<Rightarrow> system" where
  "fire (UI e) sys = ui_step e sys"
| "fire (Settle i outcome uuid now) sys = settle_step i outcome uuid now sys"

fun run :: "system \<Rightarrow> label list \<Rightarrow> system option" where
  "run sys [] = Some sys"
| "run sys (l # ls) = (if enabled sys l then run (fire l sys) ls else None)"

inductive reachable :: "video list \<Rightarrow> system \<Rightarrow> bool" for MOCK_VIDEOS where
  init: "reachable MOCK_VIDEOS (initial_system MOCK_VIDEOS)"
| step: "reachable MOCK_VIDEOS sys \<Longrightarrow> enabled sys l \<Longrightarrow> reachable MOCK_VIDEOS (fire l sys)"

definition data_video_prefix :: jsstring where
  "data_video_prefix = ascii ''data:video/mp4;base64,''"

definition app_inv :: "video list \<Rightarrow> system \<Rightarrow> bool" where
  "app_inv MOCK_VIDEOS sys \<longleftrightarrow>
     (let s = ui sys in
      (isSaving s \<longleftrightarrow> jobs sys \<noteq> []) \<and>
      length (jobs sys) \<le> 1 \<and>
      (isPlaying s \<longleftrightarrow> playingVideo s \<noteq> None) \<and>
      (isSaving s \<longrightarrow> editingVideo s = None) \<and>
      (editingVideo s \<noteq> None \<longrightarrow> playingVideo s = None) \<and>
      (loadingVideoId s \<noteq> None \<longrightarrow> playingVideo s \<noteq> None) \<and>
      (generationError s \<noteq> None \<longrightarrow> \<not> isSaving s \<and> generationError s = Some generation_failed) \<and>
      videos s = map video_of (generatedVideosHistory s) @ MOCK_VIDEOS \<and>
      list_all (\<lambda>h. prefix data_video_prefix (videoUrl h)) (generatedVideosHistory s))"

declare app_inv_def [inv_defs]

fun job_video :: "job \<Rightarrow> js_opt_string list \<Rightarrow> jsstring \<Rightarrow> video" where
  "job_video (SaveEditJob v) = remix_video v"
| "job_video (GenerateJob p) = generated_video_of p"

fun job_clears_prompt :: "job \<Rightarrow> bool" where
  "job_clears_prompt (SaveEditJob v) = False"
| "job_clears_prompt (GenerateJob p) = True"

fun uuids :: "label list \<Rightarrow> jsstring list" where
  "uuids [] = []"
| "uuids (Settle i outcome (Inr u) now # ls) = u # uuids ls"
| "uuids (l # ls) = uuids ls"

fun settle_times :: "label list \<Rightarrow> int list" where
  "settle_times [] = []"
| "settle_times (Settle i outcome uuid now # ls) = now # settle_times ls"
| "settle_times (UI e # ls) = settle_times ls"

abbreviation newest_first_order :: "history_video list \<Rightarrow> bool" where
  "newest_first_order \<equiv> sorted_wrt (\<lambda>a b. createdAt b \<le> createdAt a)"

subsection \<open>A service for every outcome\<close>

text \<open>
  For a given outcome, a remote service and browser under which
  \<open>generateVideoFromText\<close> ends with it: the operation is finished at once and
  lists one video per element; the video numbered \<open>i\<close> is served as a blob that
  \<open>FileReader\<close> reads as a data URL with the \<open>i\<close>-th payload, or as text without
  a comma when the element is \<open>undefined\<close>.
\<close>

definition numbered_video :: "nat \<Rightarrow> generated_video" where
  "numbered_video i = \<lparr>video = Some \<lparr>uri = Some (replicate i 0x61)\<rparr>\<rparr>"

definition outcome_env :: "js_opt_string list settled \<Rightarrow> remote_env" where
  "outcome_env outcome =
     (case outcome of
        Inl e \<Rightarrow> demo_env\<lparr>generateVideos := (\<lambda>req. Rejected e)\<rparr>
      | Inr xs \<Rightarrow>
          \<lparr>API_KEY = None,
           generateVideos = (\<lambda>req. Fulfilled
              \<lparr>op_done = Some True,
               response = Some \<lparr>generatedVideos = Some (map numbered_video [0..<length xs])\<rparr>\<rparr>),
           getVideosOperation = (\<lambda>k operation. Fulfilled operation),
           decodeURIComponent = decodeURIComponent_js,
           fetch = (\<lambda>url. Fulfilled
              \<lparr>ok = True, status = 200, statusText = ascii ''OK'',
               blob = Fulfilled \<lparr>blob_type = [],
                 blob_bytes = replicate (length (takeWhile (\<lambda>c. c = 0x61) url)) 0\<rparr>\<rparr>),
           readAsDataURL = (\<lambda>b. Some (case xs ! length (blob_bytes b) of
                                         None \<Rightarrow> [] | Some p \<Rightarrow> 0x2C # p))\<rparr>)"

subsection \<open>An example run\<close>

text \<open>
  One sample video in the gallery; the user types a prompt, starts the sample playing,
  asks for a new video, and the job settles with one payload.
\<close>

definition demo_mock :: video where
  "demo_mock = \<lparr>video_id = ascii ''1'', videoUrl = ascii ''https://v.test/1.mp4'',
                 title = ascii ''Sample'', description = ascii ''A sample''\<rparr>"

definition demo_run :: "label list" where
  "demo_run =
     [UI (ChangePrompt (ascii '' a cat '')), UI (PlayVideo demo_mock), UI GenerateNewVideo,
      Settle 0 (Inr [Some (ascii ''AAAA'')]) (Inr (ascii ''u1'')) 1000]"

definition demo_new :: video where
  "demo_new = generated_video_of (ascii ''a cat'') [Some (ascii ''AAAA'')] (ascii ''u1'')"

definition demo_final :: system where
  "demo_final =
     \<lparr>ui = \<lparr>videos = [demo_new, demo_mock], playingVideo = Some demo_new, editingVideo = None,
             isSaving = False, savingMessage = ascii ''Generating your video...'',
             generationError = None, view = History,
             generatedVideosHistory = [stamp demo_new 1000], newVideoPrompt = [],
             loadingVideoId = Some (ascii ''1''), isPlaying = True\<rparr>,
      jobs = []\<rparr>"

definition demo_saving :: system where
  "demo_saving =
     \<lparr>ui = \<lparr>videos = [demo_mock], playingVideo = Some demo_mock, editingVideo = None,
             isSaving = True, savingMessage = ascii ''Generating your video...'',
             generationError = None, view = Gallery, generatedVideosHistory = [],
             newVideoPrompt = ascii '' a cat '', loadingVideoId = Some (ascii ''1''),
             isPlaying = True\<rparr>,
      jobs = [GenerateJob (ascii ''a cat'')]\<rparr>"

definition demo_failed :: system where
  "demo_failed =
     \<lparr>ui = (initial_state [demo_mock])
             \<lparr>savingMessage := ascii ''Creating your remix...'',
              generationError := Some generation_failed\<rparr>,
      jobs = []\<rparr>"

section \<open>Lemmas\<close>

subsection \<open>Settling a job\<close>

lemma video_src_prefix: "prefix data_video_prefix (video_src videoObjects)"
  by (simp add: video_src_def data_video_prefix_def Let_def ascii_def prefix_def)

lemma job_video_sel [simp]:
  "videoUrl (job_video j videoObjects u) = video_src videoObjects"
  "video_id (job_video j videoObjects u) = u"
  by (cases j; simp add: remix_video_def generated_video_of_def)+

lemma settle_job_spec:
  "settle_job j outcome uuid now s
     = settle_spec (created_video (job_video j) outcome uuid) now (job_clears_prompt j) s"
  by (cases j) (simp_all add: handleSaveEdit_settle_spec handleGenerateNewVideo_settle_spec)

lemma generate_possible_outcome:
  assumes "generateVideoFromText env p n = Some outcome"
  shows "possible_outcome outcome"
proof (cases outcome)
  case (Inl e)
  then show ?thesis by simp
next
  case (Inr xs)
  have "case x of None \<Rightarrow> True | Some p \<Rightarrow> 0x2C \<notin> set p" if "x \<in> set xs" for x
  proof -
    from assms Inr that obtain v where "fetch_video env v = Fulfilled x"
      by (auto dest: generate_Fulfilled_elem)
    then obtain url where "x = index_js (split_js 0x2C url) (Suc 0)"
      by (auto simp: fetch_video_def request_url_def bloblToBase64_def await_iffs
          split: option.splits sum.splits if_splits)
    then show ?thesis
      by (auto simp: index_js_def split: option.splits dest: split_js_segments [OF nth_mem])
  qed
  moreover from assms Inr have "xs \<noteq> []"
    by (auto dest!: generate_Fulfilled)
  ultimately show ?thesis
    using Inr by (simp add: list_all_iff)
qed

lemma outcome_env_simps [simp]:
  "API_KEY (outcome_env (Inr xs)) = None"
  "decodeURIComponent (outcome_env (Inr xs)) = decodeURIComponent_js"
  "fetch (outcome_env (Inr xs)) (replicate i 0x61 @ ascii ''&key=undefined'') = Fulfilled
     \<lparr>ok = True, status = 200, statusText = ascii ''OK'',
      blob = Fulfilled \<lparr>blob_type = [], blob_bytes = replicate i 0\<rparr>\<rparr>"
  "readAsDataURL (outcome_env (Inr xs)) b
     = Some (case xs ! length (blob_bytes b) of None \<Rightarrow> [] | Some p \<Rightarrow> 0x2C # p)"
  "generateVideos (outcome_env (Inr xs)) req = Fulfilled
     \<lparr>op_done = Some True,
      response = Some \<lparr>generatedVideos = Some (map numbered_video [0..<length xs])\<rparr>\<rparr>"
  "generateVideos (outcome_env (Inl e)) req = Rejected e"
  by (simp_all add: outcome_env_def takeWhile_replicate_append)

lemma outcome_env_bloblToBase64:
  assumes "case xs ! i of None \<Rightarrow> True | Some p \<Rightarrow> 0x2C \<notin> set p"
  shows "bloblToBase64 (outcome_env (Inr xs)) \<lparr>blob_type = [], blob_bytes = replicate i 0\<rparr>
     = Fulfilled (xs ! i)"
proof (cases "xs ! i")
  case None
  then show ?thesis by (simp add: bloblToBase64_def index_js_def)
next
  case (Some p)
  with assms have "split_js 0x2C (0x2C # p) = [[], p]"
    by (simp add: split_js_no_sep)
  with Some show ?thesis by (simp add: bloblToBase64_def index_js_def)
qed

lemma outcome_env_fetch_video:
  assumes "case xs ! i of None \<Rightarrow> True | Some p \<Rightarrow> 0x2C \<notin> set p"
  shows "fetch_video (outcome_env (Inr xs)) (numbered_video i) = Fulfilled (xs ! i)"
  using outcome_env_bloblToBase64 [OF assms] outcome_env_simps(3) [of xs i]
  by (simp add: fetch_video_def request_url_def numbered_video_def del: outcome_env_simps(3))

lemma outcome_env_generate:
  assumes "possible_outcome outcome"
  shows "generateVideoFromText (outcome_env outcome) p n = Some outcome"
proof (cases outcome)
  case (Inl e)
  then show ?thesis by (simp add: generateVideoFromText_def)
next
  case (Inr xs)
  let ?env = "outcome_env (Inr xs)"
  let ?op = "\<lparr>op_done = Some True,
      response = Some \<lparr>generatedVideos = Some (map numbered_video [0..<length xs])\<rparr>\<rparr>"
  from assms Inr have ne: "xs \<noteq> []"
    and ok: "\<forall>i < length xs. case xs ! i of None \<Rightarrow> True | Some p \<Rightarrow> 0x2C \<notin> set p"
    by (simp_all add: list_all_length)
  have "map (fetch_video ?env) (map numbered_video [0..<length xs])
      = map (\<lambda>i. Fulfilled (xs ! i)) [0..<length xs]"
    using ok by (simp add: outcome_env_fetch_video)
  also have "\<dots> = map Fulfilled (map ((!) xs) [0..<length xs])"
    by (simp add: comp_def)
  finally have "map (fetch_video ?env) (map numbered_video [0..<length xs]) = map Fulfilled xs"
    by (simp only: map_nth)
  then have "assemble ?env ?op = Fulfilled xs"
    using ne by (simp add: assemble_def promise_all_Fulfilled_iff)
  moreover have "poll_loop ?env 0 ?op = Fulfilled ?op"
    by (simp add: is_done_def)
  ultimately show ?thesis
    using Inr by (simp add: generateVideoFromText_def)
qed

subsection \<open>Every step keeps the invariant\<close>

lemma app_inv_init: "app_inv M (initial_system M)"
  by (simp add: app_inv_def initial_system_def initial_state_def)

lemma app_inv_ui_step:
  assumes "app_inv M sys" and "offers (render (ui sys)) e"
  shows "app_inv M (ui_step e sys)"
  using assms
  by (cases e)
     (auto simp: app_inv_def ui_step_def offers_iff handler_defs Let_def
        handleGenerateNewVideo_guard_def)

lemma app_inv_settle_step:
  assumes "app_inv M sys" and "i < length (jobs sys)"
  shows "app_inv M (settle_step i outcome uuid now sys)"
proof -
  from assms have j: "jobs sys = [jobs sys ! 0]" "i = 0"
    by (cases "jobs sys"; auto simp: app_inv_def Let_def)+
  show ?thesis
  proof (cases "created_video (job_video (jobs sys ! 0)) outcome uuid")
    case None
    with assms j show ?thesis
      by (auto simp: app_inv_def settle_step_def settle_job_spec settle_spec_def Let_def)
  next
    case (Some newVideo)
    then have "prefix data_video_prefix (videoUrl newVideo)"
      by (auto simp: created_video_Some_iff video_src_prefix)
    with Some assms j show ?thesis
      by (auto simp: app_inv_def settle_step_def settle_job_spec settle_spec_def publish_def
          Let_def)
  qed
qed

lemma app_inv_fire: "app_inv M sys \<Longrightarrow> enabled sys l \<Longrightarrow> app_inv M (fire l sys)"
  by (cases l) (auto intro: app_inv_ui_step app_inv_settle_step)

lemma reachable_inv: "reachable M sys \<Longrightarrow> app_inv M sys"
  by (induction rule: reachable.induct) (auto intro: app_inv_init app_inv_fire)

subsection \<open>Runs and reachable states\<close>

lemma run_snoc:
  "run sys (ls @ [l]) =
     (case run sys ls of None \<Rightarrow> None
      | Some t \<Rightarrow> if enabled t l then Some (fire l t) else None)"
  by (induction ls arbitrary: sys) auto

lemma run_reachable: "reachable M sys \<Longrightarrow> run sys ls = Some sys' \<Longrightarrow> reachable M sys'"
  by (induction ls arbitrary: sys) (auto split: if_splits intro: reachable.step)

lemma reachable_run: "reachable M sys \<Longrightarrow> \<exists>ls. run (initial_system M) ls = Some sys"
proof (induction rule: reachable.induct)
  case init
  have "run (initial_system M) [] = Some (initial_system M)" by simp
  then show ?case ..
next
  case (step sys l)
  then obtain ls where "run (initial_system M) ls = Some sys" by blast
  with step.hyps(2) have "run (initial_system M) (ls @ [l]) = Some (fire l sys)"
    by (simp add: run_snoc)
  then show ?case ..
qed

lemma demo_run_final: "run (initial_system [demo_mock]) demo_run = Some demo_final"
  by (simp add: demo_run_def demo_final_def demo_new_def demo_mock_def initial_system_def
      initial_state_def ui_step_def settle_step_def render_defs handler_defs
      handleGenerateNewVideo_guard_def js_defs Let_def)

lemma demo_reachable: "reachable [demo_mock] demo_final"
  by (rule run_reachable [OF reachable.init demo_run_final])

lemmas demo_run_defs =
  initial_system_def initial_state_def ui_step_def settle_step_def render_defs handler_defs
  handleGenerateNewVideo_guard_def js_defs Let_def demo_mock_def

lemma demo_saving_reachable: "reachable [demo_mock] demo_saving"
proof -
  have "run (initial_system [demo_mock]) (take 3 demo_run) = Some demo_saving"
    by (simp add: demo_run_def demo_saving_def demo_run_defs)
  then show ?thesis by (rule run_reachable [OF reachable.init])
qed

lemma demo_failed_reachable: "reachable [demo_mock] demo_failed"
proof -
  have "run (initial_system [demo_mock])
      [UI (PlayVideo demo_mock), UI (StartEdit demo_mock), UI (SaveEdit demo_mock),
       Settle 0 (Inl (Rejection (ascii ''offline''))) (Inr (ascii ''u1'')) 1000]
      = Some demo_failed"
    by (simp add: demo_failed_def demo_run_defs)
  then show ?thesis by (rule run_reachable [OF reachable.init])
qed

subsection \<open>Identifiers\<close>

lemma videos_fire:
  assumes "enabled sys l" and "app_inv M sys"
  shows "videos (ui (fire l sys)) = videos (ui sys) \<or>
         (\<exists>i outcome u now v. l = Settle i outcome (Inr u) now \<and> video_id v = u
            \<and> videos (ui (fire l sys)) = v # videos (ui sys))"
proof (cases l)
  case (UI e)
  then show ?thesis
    by (cases e) (simp_all add: ui_step_def handler_defs)
next
  case (Settle i outcome uuid now)
  show ?thesis
  proof (cases "created_video (job_video (jobs sys ! i)) outcome uuid")
    case None
    with Settle show ?thesis
      by (simp add: settle_step_def settle_job_spec settle_spec_def)
  next
    case (Some v)
    then obtain u where "uuid = Inr u" "video_id v = u"
      by (auto simp: created_video_Some_iff)
    with Some Settle show ?thesis
      by (simp add: settle_step_def settle_job_spec settle_spec_def publish_def)
  qed
qed

lemma uuids_Cons:
  "uuids (l # ls) =
     (case l of Settle i outcome (Inr u) now \<Rightarrow> u # uuids ls | _ \<Rightarrow> uuids ls)"
  by (cases l) (auto split: sum.splits)

lemma distinct_uuids_tl: "distinct (xs @ uuids (l # ls)) \<Longrightarrow> distinct (xs @ uuids ls)"
  by (auto simp: uuids_Cons split: label.splits sum.splits)

lemma run_distinct_ids:
  assumes "run sys ls = Some sys'" and "app_inv M sys"
    and "distinct (map video_id (videos (ui sys)) @ uuids ls)"
  shows "distinct (map video_id (videos (ui sys')))"
  using assms
proof (induction ls arbitrary: sys)
  case Nil
  then show ?case by simp
next
  case (Cons l ls)
  then have en: "enabled sys l" and r: "run (fire l sys) ls = Some sys'"
    by (auto split: if_splits)
  from en Cons.prems(2) have inv: "app_inv M (fire l sys)" by (simp add: app_inv_fire)
  from videos_fire [OF en Cons.prems(2)]
  have "distinct (map video_id (videos (ui (fire l sys))) @ uuids ls)"
  proof
    assume "videos (ui (fire l sys)) = videos (ui sys)"
    with Cons.prems(3) show ?thesis by (simp only: distinct_uuids_tl)
  next
    assume "\<exists>i outcome u now v. l = Settle i outcome (Inr u) now \<and> video_id v = u
            \<and> videos (ui (fire l sys)) = v # videos (ui sys)"
    with Cons.prems(3) show ?thesis by (auto simp: disjoint_iff)
  qed
  with r inv show ?case by (rule Cons.IH)
qed

subsection \<open>Creation times\<close>

lemma history_fire:
  "generatedVideosHistory (ui (fire l sys)) = generatedVideosHistory (ui sys) \<or>
   (\<exists>i outcome uuid now v. l = Settle i outcome uuid now
      \<and> generatedVideosHistory (ui (fire l sys)) = stamp v now # generatedVideosHistory (ui sys))"
proof (cases l)
  case (UI e)
  then show ?thesis
    by (cases e) (simp_all add: ui_step_def handler_defs)
next
  case (Settle i outcome uuid now)
  then show ?thesis
    by (cases "created_video (job_video (jobs sys ! i)) outcome uuid")
       (simp_all add: settle_step_def settle_job_spec settle_spec_def publish_def)
qed

lemma settle_times_Cons:
  "settle_times (l # ls) =
     (case l of Settle i outcome uuid now \<Rightarrow> now # settle_times ls | UI e \<Rightarrow> settle_times ls)"
  by (cases l) auto

lemma run_history_sorted:
  assumes "run sys ls = Some sys'"
    and "newest_first_order (generatedVideosHistory (ui sys))"
    and "\<forall>h \<in> set (generatedVideosHistory (ui sys)). \<forall>t \<in> set (settle_times ls). createdAt h \<le> t"
    and "sorted (settle_times ls)"
  shows "newest_first_order (generatedVideosHistory (ui sys'))"
  using assms
proof (induction ls arbitrary: sys)
  case Nil
  then show ?case by simp
next
  case (Cons l ls)
  then have r: "run (fire l sys) ls = Some sys'"
    by (auto split: if_splits)
  from history_fire [of l sys]
  have "newest_first_order (generatedVideosHistory (ui (fire l sys)))
      \<and> (\<forall>h \<in> set (generatedVideosHistory (ui (fire l sys))).
           \<forall>t \<in> set (settle_times ls). createdAt h \<le> t)
      \<and> sorted (settle_times ls)"
    using Cons.prems(2-4)
    by (auto simp: settle_times_Cons split: label.splits)
  with r show ?case by (intro Cons.IH) blast+
qed

section \<open>Properties of the application\<close>

text \<open>C2. Every state the application can reach satisfies \<open>app_inv\<close>: the saving flag
  is set exactly while a job is in flight and there is at most one; \<open>isPlaying\<close> is set
  exactly when there is a video to play; saving and editing exclude each other, as do
  editing and playing; a video is marked as loading only while the player is open;
  an error is shown only after saving has ended and is the one fixed message; the
  gallery is the history followed by the sample videos; and every generated video has
  a \<open>data:video/mp4;base64,\<close> URL.\<close>

theorem reachable_app_inv: "reachable M sys \<Longrightarrow> app_inv M sys"
  by (rule reachable_inv)

theorem reachable_app_inv_witness:
  "reachable [demo_mock] demo_final \<and> app_inv [demo_mock] demo_final"
  using reachable_app_inv [of "[demo_mock]" demo_final] demo_reachable by simp

text \<open>C3. Generation requests are serialised by the user interface: in a reachable
  state at most one call of \<open>generateVideoFromText\<close> is in flight, and while one is,
  the view offers no event at all, so no second call can be started.\<close>

theorem single_flight:
  "reachable M sys \<Longrightarrow> length (jobs sys) \<le> 1 \<and> (jobs sys \<noteq> [] \<longrightarrow> (\<forall>e. \<not> enabled sys (UI e)))"
  by (auto dest!: reachable_inv simp: app_inv_def Let_def)

theorem single_flight_witness:
  "reachable [demo_mock] demo_saving \<and> jobs demo_saving = [GenerateJob (ascii ''a cat'')]
     \<and> length (jobs demo_saving) \<le> 1
     \<and> (\<forall>e. \<not> enabled demo_saving (UI e))"
  using single_flight [of "[demo_mock]" demo_saving] demo_saving_reachable
  by (simp add: demo_saving_def)

text \<open>The edit page and the player overlay are never shown together: whenever the
  rendered view is the edit page, no player is rendered over it.\<close>

lemma edit_page_excludes_player:
  "reachable M sys \<Longrightarrow> render (ui sys) = AppView (EditVideoPageView v) player modal
     \<Longrightarrow> player = None"
  by (auto dest!: reachable_inv simp: app_inv_def Let_def render_def
      split: if_splits option.splits)

text \<open>C21. The outcomes with which the machine lets a waiting handler resume are
  exactly the results \<open>generateVideoFromText\<close> can have: an error, or a non-empty
  array whose elements are \<open>undefined\<close> or strings without a comma. Every such
  outcome is produced by some remote service, and no other is.\<close>

theorem possible_outcome_exact:
  "possible_outcome outcome \<longleftrightarrow> (\<exists>env. generateVideoFromText env p n = Some outcome)"
  using generate_possible_outcome outcome_env_generate by blast

text \<open>C25. One catch-all error: whatever made a generation fail, the dialog shows the
  same two lines, and it is shown only when no generation is running.\<close>

theorem single_error_message:
  "reachable M sys \<Longrightarrow> generationError (ui sys) = Some message
     \<Longrightarrow> message = generation_failed \<and> \<not> isSaving (ui sys) \<and> jobs sys = []"
  by (auto dest!: reachable_inv simp: app_inv_def Let_def)

theorem single_error_message_witness:
  "reachable [demo_mock] demo_failed \<and> generationError (ui demo_failed) = Some generation_failed
     \<and> \<not> isSaving (ui demo_failed) \<and> jobs demo_failed = []"
  using single_error_message [of "[demo_mock]" demo_failed generation_failed]
    demo_failed_reachable
  by (simp add: demo_failed_def)

text \<open>C26. Identifiers stay distinct as long as \<open>randomUUID\<close> does its job: if the ids of
  the sample videos and the UUIDs drawn during a run are pairwise different, the videos
  of the gallery (the React keys of its cards) have pairwise different ids.\<close>

theorem fresh_ids_distinct:
  assumes "run (initial_system M) ls = Some sys"
    and "distinct (map video_id M @ uuids ls)"
  shows "distinct (map video_id (videos (ui sys)))"
  using assms(1) app_inv_init [of M]
  by (rule run_distinct_ids) (use assms(2) in \<open>simp add: initial_system_def initial_state_def\<close>)

theorem fresh_ids_distinct_witness:
  "run (initial_system [demo_mock]) demo_run = Some demo_final
     \<and> distinct (map video_id [demo_mock] @ uuids demo_run)
     \<and> distinct (map video_id (videos (ui demo_final)))"
  using fresh_ids_distinct [of "[demo_mock]" demo_run demo_final] demo_run_final
  by (simp add: demo_run_def demo_mock_def)

text \<open>The loading mark can go stale: a state is reachable in which the player shows
  one video while \<open>loadingVideoId\<close> still names another. It arises when a generated
  video replaces, in the open player, a video that had not finished loading.\<close>

lemma stale_loading_reachable:
  "\<exists>sys v a. reachable [demo_mock] sys \<and> playingVideo (ui sys) = Some v
     \<and> loadingVideoId (ui sys) = Some a \<and> video_id v \<noteq> a"
proof -
  have "playingVideo (ui demo_final) = Some demo_new"
    and "loadingVideoId (ui demo_final) = Some (ascii ''1'')"
    and "video_id demo_new \<noteq> ascii ''1''"
    by (simp_all add: demo_final_def demo_new_def generated_video_of_def)
  with demo_reachable show ?thesis by blast
qed

text \<open>C15. The application never gets stuck, and the saving page can always be left:
  in every reachable state some step is possible, and while a generation is running
  the answer of the service is a possible step, which ends the saving page and leaves
  no handler waiting. It is the only way out: the saving page has no button.\<close>

theorem machine_progress:
  assumes "reachable M sys"
  shows "(\<exists>l. enabled sys l)
   \<and> (isSaving (ui sys) \<longrightarrow>
        enabled sys (Settle 0 (Inl e) u now)
        \<and> \<not> isSaving (ui (fire (Settle 0 (Inl e) u now) sys))
        \<and> jobs (fire (Settle 0 (Inl e) u now) sys) = []
        \<and> (\<forall>l. enabled sys l \<longrightarrow> (\<exists>outcome uuid t. l = Settle 0 outcome uuid t)))"
proof -
  from assms have inv: "app_inv M sys" by (rule reachable_inv)
  show ?thesis
  proof (cases "isSaving (ui sys)")
    case True
    with inv have len: "length (jobs sys) = Suc 0"
      by (cases "jobs sys") (auto simp: app_inv_def Let_def)
    have "\<exists>outcome uuid t. l = Settle 0 outcome uuid t" if "enabled sys l" for l
      using that True len by (cases l) (auto dest: offers_not_saving)
    moreover from len have en: "enabled sys (Settle 0 (Inl e) u now)" by simp
    then have "\<exists>l. enabled sys l" ..
    ultimately show ?thesis
      using True len en by (simp add: settle_step_def settle_job_spec settle_spec_def)
  next
    case False
    then have "enabled sys (UI (if editingVideo (ui sys) = None then SetView Gallery else CancelEdit))"
      by (simp add: offers_iff)
    with False show ?thesis by blast
  qed
qed

theorem machine_progress_witness:
  "reachable [demo_mock] demo_saving \<and> isSaving (ui demo_saving)
   \<and> enabled demo_saving (Settle 0 (Inl TypeError) (Inl TypeError) 0)
   \<and> jobs (fire (Settle 0 (Inl TypeError) (Inl TypeError) 0) demo_saving) = []"
  using machine_progress [of "[demo_mock]" demo_saving TypeError "Inl TypeError" 0]
    demo_saving_reachable
  by (simp add: demo_saving_def)

end
