(* ===== verification/Gallery_Spec.thy ===== *)
theory Gallery_Spec
  imports Video_Types JS_String
begin

text \<open>
  What the application promises its user, without the machinery that delivers it: a
  list of video records, a history of generated clips, two tabs, and one screen at a
  time, which is the gallery, the player on a video, the edit page, or the saving page
  of the one generation request that is pending.

  \<^item> \<open>gallery\<close> is the abstract state. \<open>Saving r p\<close> carries the pending request and
    the player the saving page has covered, which comes back if the request fails.
  \<^item> \<open>spec_step\<close> has one rule per action of the user or of the service, with the
    conditions under which it can happen. A request is answered by a video that
    \<open>answers_request\<close> it: described by the prompt, titled after the request, with an
    MP4 data URL whose payload holds no comma. \<open>spec_steps\<close> iterates \<open>spec_step\<close>;
    \<open>spec_next\<close> and \<open>spec_run\<close> are the same machine as functions, for running it.
  \<^item> \<open>gallery_inv\<close> is what the rules maintain, and \<open>spec_step_uniq\<close> says that an
    action has one result.

  Theory \<open>App_Refinement\<close> shows that the application implements this machine and
  that every run of this machine is a run of the application.
\<close>

section \<open>Definitions\<close>

datatype request =
    Remix video
  | FromPrompt jsstring

fun request_prompt :: "request \<Rightarrow> jsstring" where
  "request_prompt (Remix v) = description v"
| "request_prompt (FromPrompt p) = p"

fun request_title :: "request \<Rightarrow> jsstring" where
  "request_title (Remix v) = ascii ''Remix of '' @ [dquote] @ title v @ [dquote]"
| "request_title (FromPrompt p) =
     ascii ''Generated: '' @ [dquote] @ take 40 p @ (if 40 < length p then ascii ''...'' else [])
       @ [dquote]"

fun keeps_draft :: "request \<Rightarrow> bool" where
  "keeps_draft (Remix v) = True"
| "keeps_draft (FromPrompt p) = False"

datatype screen =
    Browsing
  | Playing video
  | Editing video
  | Saving request "video option"

datatype tab = GalleryTab | HistoryTab

record gallery =
  records :: "video list"
  clips :: "history_video list"
  tab :: tab
  on_screen :: screen
  error_shown :: bool
  draft :: jsstring

datatype action =
    Play video
  | Close
  | Edit
  | Cancel
  | Save video
  | Write jsstring
  | Generate
  | Switch tab
  | Dismiss
  | Publish video int
  | Fail
  | Loaded
  | PickKey

definition spec_init :: "video list \<Rightarrow> gallery" where
  "spec_init samples =
     \<lparr>records = samples, clips = [], tab = GalleryTab, on_screen = Browsing,
      error_shown = False, draft = []\<rparr>"

fun home_shown :: "screen \<Rightarrow> bool" where
  "home_shown Browsing = True"
| "home_shown (Playing v) = True"
| "home_shown (Editing v) = False"
| "home_shown (Saving r p) = False"

fun player_on :: "screen \<Rightarrow> video option" where
  "player_on (Playing v) = Some v"
| "player_on scr = None"

fun uncovered :: "video option \<Rightarrow> screen" where
  "uncovered None = Browsing"
| "uncovered (Some v) = Playing v"

definition listed :: "gallery \<Rightarrow> video list" where
  "listed g = (if tab g = GalleryTab then records g else map video_of (clips g))"

definition mp4_prefix :: jsstring where
  "mp4_prefix = ascii ''data:video/mp4;base64,''"

definition mp4_data_url :: "jsstring \<Rightarrow> bool" where
  "mp4_data_url url \<longleftrightarrow> prefix mp4_prefix url"

definition payload_of :: "jsstring \<Rightarrow> jsstring" where
  "payload_of url = drop (length mp4_prefix) url"

definition answers_request :: "request \<Rightarrow> video \<Rightarrow> bool" where
  "answers_request r v \<longleftrightarrow>
     description v = request_prompt r \<and> title v = request_title r \<and>
     mp4_data_url (videoUrl v) \<and> 0x2C \<notin> set (payload_of (videoUrl v))"

inductive spec_step :: "gallery \<Rightarrow> action \<Rightarrow> gallery \<Rightarrow> bool" where
  play: "spec_step g (Play v) (g\<lparr>on_screen := Playing v\<rparr>)"
    if "home_shown (on_screen g)" and "v \<in> set (listed g)"
| close: "spec_step g Close (g\<lparr>on_screen := Browsing\<rparr>)"
    if "on_screen g = Playing v"
| edit: "spec_step g Edit (g\<lparr>on_screen := Editing v\<rparr>)"
    if "on_screen g = Playing v"
| cancel: "spec_step g Cancel (g\<lparr>on_screen := Browsing\<rparr>)"
    if "on_screen g = Editing v"
| save: "spec_step g (Save w) (g\<lparr>on_screen := Saving (Remix w) None, error_shown := False\<rparr>)"
    if "on_screen g = Editing v"
| "write": "spec_step g (Write p) (g\<lparr>draft := p\<rparr>)"
    if "home_shown (on_screen g)"
| generate:
    "spec_step g Generate
       (g\<lparr>on_screen := Saving (FromPrompt (trim_js (draft g))) (player_on (on_screen g)),
          error_shown := False\<rparr>)"
    if "home_shown (on_screen g)" and "trim_js (draft g) \<noteq> []"
| switch: "spec_step g (Switch t) (g\<lparr>tab := t\<rparr>)"
    if "home_shown (on_screen g)"
| dismiss: "spec_step g Dismiss (g\<lparr>error_shown := False\<rparr>)"
    if "error_shown g"
| publish:
    "spec_step g (Publish v t)
       (g\<lparr>records := v # records g, clips := stamp v t # clips g, tab := HistoryTab,
          on_screen := Playing v, draft := (if keeps_draft r then draft g else [])\<rparr>)"
    if "on_screen g = Saving r p" and "answers_request r v"
| fail: "spec_step g Fail (g\<lparr>on_screen := uncovered p, error_shown := True\<rparr>)"
    if "on_screen g = Saving r p"
| loaded: "spec_step g Loaded g"
    if "on_screen g = Playing v"
| pick_key: "spec_step g PickKey g"
    if "error_shown g"

fun spec_next :: "gallery \<Rightarrow> action \<Rightarrow> gallery option" where
  "spec_next g (Play v) =
     (if home_shown (on_screen g) \<and> v \<in> set (listed g) then Some (g\<lparr>on_screen := Playing v\<rparr>)
      else None)"
| "spec_next g Close =
     (case on_screen g of Playing v \<Rightarrow> Some (g\<lparr>on_screen := Browsing\<rparr>) | _ \<Rightarrow> None)"
| "spec_next g Edit =
     (case on_screen g of Playing v \<Rightarrow> Some (g\<lparr>on_screen := Editing v\<rparr>) | _ \<Rightarrow> None)"
| "spec_next g Cancel =
     (case on_screen g of Editing v \<Rightarrow> Some (g\<lparr>on_screen := Browsing\<rparr>) | _ \<Rightarrow> None)"
| "spec_next g (Save w) =
     (case on_screen g of
        Editing v \<Rightarrow> Some (g\<lparr>on_screen := Saving (Remix w) None, error_shown := False\<rparr>)
      | _ \<Rightarrow> None)"
| "spec_next g (Write p) = (if home_shown (on_screen g) then Some (g\<lparr>draft := p\<rparr>) else None)"
| "spec_next g Generate =
     (if home_shown (on_screen g) \<and> trim_js (draft g) \<noteq> []
      then Some (g\<lparr>on_screen := Saving (FromPrompt (trim_js (draft g))) (player_on (on_screen g)),
                   error_shown := False\<rparr>)
      else None)"
| "spec_next g (Switch t) = (if home_shown (on_screen g) then Some (g\<lparr>tab := t\<rparr>) else None)"
| "spec_next g Dismiss = (if error_shown g then Some (g\<lparr>error_shown := False\<rparr>) else None)"
| "spec_next g (Publish v t) =
     (case on_screen g of
        Saving r p \<Rightarrow>
          if answers_request r v
          then Some (g\<lparr>records := v # records g, clips := stamp v t # clips g,
                       tab := HistoryTab, on_screen := Playing v,
                       draft := (if keeps_draft r then draft g else [])\<rparr>)
          else None
      | _ \<Rightarrow> None)"
| "spec_next g Fail =
     (case on_screen g of
        Saving r p \<Rightarrow> Some (g\<lparr>on_screen := uncovered p, error_shown := True\<rparr>)
      | _ \<Rightarrow> None)"
| "spec_next g Loaded = (case on_screen g of Playing v \<Rightarrow> Some g | _ \<Rightarrow> None)"
| "spec_next g PickKey = (if error_shown g then Some g else None)"

fun spec_run :: "gallery \<Rightarrow> action list \<Rightarrow> gallery option" where
  "spec_run g [] = Some g"
| "spec_run g (a # as) = (case spec_next g a of None \<Rightarrow> None | Some g' \<Rightarrow> spec_run g' as)"

inductive spec_steps :: "gallery \<Rightarrow> action list \<Rightarrow> gallery \<Rightarrow> bool" where
  nil: "spec_steps g [] g"
| cons: "spec_steps g (a # as) g''" if "spec_step g a g'" and "spec_steps g' as g''"

definition gallery_inv :: "video list \<Rightarrow> gallery \<Rightarrow> bool" where
  "gallery_inv samples g \<longleftrightarrow>
     records g = map video_of (clips g) @ samples \<and>
     list_all (\<lambda>h. mp4_data_url (videoUrl h)) (clips g) \<and>
     (error_shown g \<longrightarrow> (\<forall>r p. on_screen g \<noteq> Saving r p))"

fun requests :: "action list \<Rightarrow> nat" where
  "requests [] = 0"
| "requests (Save w # as) = Suc (requests as)"
| "requests (Generate # as) = Suc (requests as)"
| "requests (a # as) = requests as"

fun answers :: "action list \<Rightarrow> nat" where
  "answers [] = 0"
| "answers (Publish v t # as) = Suc (answers as)"
| "answers (Fail # as) = Suc (answers as)"
| "answers (a # as) = answers as"

fun pending :: "screen \<Rightarrow> nat" where
  "pending (Saving r p) = 1"
| "pending scr = 0"

section \<open>Lemmas\<close>

inductive_cases spec_step_cases [elim!]:
  "spec_step g (Play v) g'"
  "spec_step g Close g'"
  "spec_step g Edit g'"
  "spec_step g Cancel g'"
  "spec_step g (Save w) g'"
  "spec_step g (Write p) g'"
  "spec_step g Generate g'"
  "spec_step g (Switch t) g'"
  "spec_step g Dismiss g'"
  "spec_step g (Publish v t) g'"
  "spec_step g Fail g'"
  "spec_step g Loaded g'"
  "spec_step g PickKey g'"

inductive_cases spec_steps_nilE: "spec_steps g [] g'"
inductive_cases spec_steps_consE: "spec_steps g (a # as) g'"

lemma uncovered_simps [simp]:
  "uncovered p \<noteq> Saving r q"
  "pending (uncovered p) = 0"
  "player_on (uncovered p) = p"
  by (cases p; simp)+

lemma spec_step_next: "spec_step g a g' \<Longrightarrow> spec_next g a = Some g'"
  by (induction rule: spec_step.induct) simp_all

lemma spec_next_step: "spec_next g a = Some g' \<Longrightarrow> spec_step g a g'"
proof (cases a)
  case (Publish v t)
  assume "spec_next g a = Some g'"
  with Publish obtain r p where scr: "on_screen g = Saving r p"
    and ok: "answers_request r v"
    and g': "g' = g\<lparr>records := v # records g, clips := stamp v t # clips g, tab := HistoryTab,
                      on_screen := Playing v,
                      draft := (if keeps_draft r then draft g else [])\<rparr>"
    by (auto split: screen.splits if_splits)
  from spec_step.publish [OF scr ok] show ?thesis
    unfolding g' Publish .
qed (auto split: if_splits screen.splits intro: spec_step.intros)

lemma spec_step_iff: "spec_step g a g' \<longleftrightarrow> spec_next g a = Some g'"
  by (blast intro: spec_step_next spec_next_step)

lemma spec_steps_iff: "spec_steps g as g' \<longleftrightarrow> spec_run g as = Some g'"
proof (induction as arbitrary: g)
  case Nil
  show ?case by (auto intro: spec_steps.nil elim: spec_steps_nilE)
next
  case (Cons a as)
  show ?case
    by (auto simp: spec_step_iff Cons.IH [symmetric] split: option.splits
        intro: spec_steps.cons elim: spec_steps_consE)
qed

lemma spec_step_uniq: "spec_step g a g' \<Longrightarrow> spec_step g a g'' \<Longrightarrow> g'' = g'"
  by (cases a) auto

lemma spec_steps_uniq: "spec_steps g as g' \<Longrightarrow> spec_steps g as h \<Longrightarrow> h = g'"
proof (induction arbitrary: h rule: spec_steps.induct)
  case (nil g)
  then show ?case by (auto elim: spec_steps_nilE)
next
  case (cons g a g' as g'')
  from cons.prems obtain k where k: "spec_step g a k" "spec_steps k as h"
    by (rule spec_steps_consE)
  from cons.hyps(1) k(1) have "k = g'" by (rule spec_step_uniq)
  with k(2) show ?case by (simp add: cons.IH)
qed

lemma spec_steps_append:
  "spec_steps g as g' \<Longrightarrow> spec_steps g' bs g'' \<Longrightarrow> spec_steps g (as @ bs) g''"
  by (induction rule: spec_steps.induct) (auto intro: spec_steps.intros)

lemma spec_steps_snoc:
  "spec_steps g as g' \<Longrightarrow> spec_step g' a g'' \<Longrightarrow> spec_steps g (as @ [a]) g''"
  by (erule spec_steps_append) (auto intro: spec_steps.intros)

lemma spec_steps_invariant:
  assumes step: "\<And>g a g'. spec_step g a g' \<Longrightarrow> Q g \<Longrightarrow> Q g'"
    and run: "spec_steps g as g'"
  shows "Q g \<Longrightarrow> Q g'"
  using run by (induction rule: spec_steps.induct) (auto intro: step)

lemma gallery_inv_init: "gallery_inv samples (spec_init samples)"
  by (simp add: gallery_inv_def spec_init_def)

lemma gallery_inv_step:
  "spec_step g a g' \<Longrightarrow> gallery_inv samples g \<Longrightarrow> gallery_inv samples g'"
  by (induction rule: spec_step.induct) (auto simp: gallery_inv_def answers_request_def)

lemma pending_step:
  "spec_step g a g' \<Longrightarrow>
     pending (on_screen g) + requests [a] = pending (on_screen g') + answers [a]"
  by (induction rule: spec_step.induct) (auto elim: home_shown.elims)

lemma requests_Cons: "requests (a # as) = requests [a] + requests as"
  by (cases a) simp_all

lemma answers_Cons: "answers (a # as) = answers [a] + answers as"
  by (cases a) simp_all

lemma pending_steps:
  "spec_steps g as g' \<Longrightarrow>
     pending (on_screen g) + requests as = pending (on_screen g') + answers as"
proof (induction rule: spec_steps.induct)
  case (nil g)
  then show ?case by simp
next
  case (cons g a g' as g'')
  from pending_step [OF cons.hyps(1)] cons.IH show ?case
    by (simp add: requests_Cons [of a as] answers_Cons [of a as])
qed

end
