(* ===== verification/App_Refinement.thy ===== *)
theory App_Refinement
  imports App_Machine Gallery_Spec
begin

text \<open>
  The application implements the abstract gallery of theory \<open>Gallery_Spec\<close>.

  \<^item> \<open>abs_of\<close> maps a state of the application to the abstract state it stands for:
    it forgets the loading mark, the message of the saving page and the text of the
    error, and reads the screen from the flags \<open>isSaving\<close>, \<open>editingVideo\<close>,
    \<open>isPlaying\<close> and \<open>playingVideo\<close> in the order in which \<open>App\<close> tests them.
  \<^item> \<open>abs_action\<close> maps a step of the application to the abstract action it
    performs; \<open>onVideoLoaded\<close> and \<open>onSelectKey\<close> change nothing the abstract state
    keeps and map to the actions \<open>Loaded\<close> and \<open>PickKey\<close>, which leave it as it is.
    \<open>abs_trace\<close> maps a run.
  \<^item> \<open>refines_step\<close> is the simulation square: in a state that satisfies \<open>app_inv\<close>,
    an enabled step of the application is the step of the abstract machine that
    \<open>abs_action\<close> names, between the images of the two states.
  \<^item> \<open>impl_label\<close> goes the other way: it names, for an abstract action, a step of the
    application that performs it (for \<open>Publish v t\<close>, the service returning the
    payload of \<open>v\<close> and \<open>randomUUID\<close> returning its id). \<open>matches_step\<close> shows that this
    step is enabled whenever the abstract machine can take the action, so the two
    machines have the same runs.
\<close>

section \<open>Definitions\<close>

fun abs_tab :: "view_mode \<Rightarrow> tab" where
  "abs_tab Gallery = GalleryTab"
| "abs_tab History = HistoryTab"

fun abs_request :: "job \<Rightarrow> request" where
  "abs_request (SaveEditJob v) = Remix v"
| "abs_request (GenerateJob p) = FromPrompt p"

definition player_of :: "app_state \<Rightarrow> video option" where
  "player_of s = (if isPlaying s then playingVideo s else None)"

definition abs_screen :: "system \<Rightarrow> screen" where
  "abs_screen sys =
     (if isSaving (ui sys) then Saving (abs_request (jobs sys ! 0)) (player_of (ui sys))
      else case editingVideo (ui sys) of
             Some v \<Rightarrow> Editing v
           | None \<Rightarrow> uncovered (player_of (ui sys)))"

definition abs_of :: "system \<Rightarrow> gallery" where
  "abs_of sys =
     \<lparr>records = videos (ui sys), clips = generatedVideosHistory (ui sys),
      tab = abs_tab (view (ui sys)), on_screen = abs_screen sys,
      error_shown = (generationError (ui sys) \<noteq> None), draft = newVideoPrompt (ui sys)\<rparr>"

fun abs_event :: "event \<Rightarrow> action" where
  "abs_event (PlayVideo v) = Play v"
| "abs_event ClosePlayer = Close"
| "abs_event VideoLoaded = Loaded"
| "abs_event (StartEdit v) = Edit"
| "abs_event CancelEdit = Cancel"
| "abs_event (SaveEdit v) = Save v"
| "abs_event (ChangePrompt p) = Write p"
| "abs_event GenerateNewVideo = Generate"
| "abs_event (SetView m) = Switch (abs_tab m)"
| "abs_event CloseError = Dismiss"
| "abs_event SelectKey = PickKey"

fun abs_action :: "system \<Rightarrow> label \<Rightarrow> action" where
  "abs_action sys (UI e) = abs_event e"
| "abs_action sys (Settle i outcome uuid now) =
     (case created_video (job_video (jobs sys ! i)) outcome uuid of
        Some v \<Rightarrow> Publish v now
      | None \<Rightarrow> Fail)"

fun abs_trace :: "system \<Rightarrow> label list \<Rightarrow> action list" where
  "abs_trace sys [] = []"
| "abs_trace sys (l # ls) = abs_action sys l # abs_trace (fire l sys) ls"

fun impl_tab :: "tab \<Rightarrow> view_mode" where
  "impl_tab GalleryTab = Gallery"
| "impl_tab HistoryTab = History"

fun impl_event :: "app_state \<Rightarrow> action \<Rightarrow> event" where
  "impl_event s (Play v) = PlayVideo v"
| "impl_event s Close = ClosePlayer"
| "impl_event s Edit = (case playingVideo s of Some v \<Rightarrow> StartEdit v | None \<Rightarrow> ClosePlayer)"
| "impl_event s Cancel = CancelEdit"
| "impl_event s (Save w) = SaveEdit w"
| "impl_event s (Write p) = ChangePrompt p"
| "impl_event s Generate = GenerateNewVideo"
| "impl_event s (Switch t) = SetView (impl_tab t)"
| "impl_event s Dismiss = CloseError"
| "impl_event s Loaded = VideoLoaded"
| "impl_event s PickKey = SelectKey"
| "impl_event s a = CloseError"

fun impl_label :: "system \<Rightarrow> action \<Rightarrow> label" where
  "impl_label sys (Publish v t) =
     Settle 0 (Inr [Some (payload_of (videoUrl v))]) (Inr (video_id v)) t"
| "impl_label sys Fail = Settle 0 (Inl TypeError) (Inr []) 0"
| "impl_label sys a = UI (impl_event (ui sys) a)"

fun impl_trace :: "system \<Rightarrow> action list \<Rightarrow> label list" where
  "impl_trace sys [] = []"
| "impl_trace sys (a # as) = impl_label sys a # impl_trace (fire (impl_label sys a) sys) as"

lemmas abs_defs = abs_of_def abs_screen_def player_of_def

section \<open>Lemmas\<close>

lemma abs_of_init: "abs_of (initial_system M) = spec_init M"
  by (simp add: abs_defs spec_init_def initial_system_def initial_state_def)

lemma mp4_prefix_eq: "mp4_prefix = data_video_prefix"
  by (simp add: mp4_prefix_def data_video_prefix_def)

lemma mp4_video_src [simp]: "mp4_data_url (video_src videoObjects)"
  using video_src_prefix [of videoObjects] by (simp add: mp4_data_url_def mp4_prefix_eq)

lemma payload_of_video_src [simp]:
  "payload_of (video_src (x # xs)) = to_template x"
  by (simp add: payload_of_def mp4_prefix_def video_src_def index_js_def)

lemma to_template_comma_free:
  "(case x of None \<Rightarrow> True | Some p \<Rightarrow> 0x2C \<notin> set p) \<Longrightarrow> 0x2C \<notin> set (to_template x)"
  by (cases x) auto

lemma job_video_request [simp]:
  "title (job_video j videoObjects u) = request_title (abs_request j)"
  "description (job_video j videoObjects u) = request_prompt (abs_request j)"
  by (cases j; simp add: remix_video_def generated_video_of_def generated_title_def
      substring_js_0)+

lemma job_video_answers:
  "keeps_draft (abs_request j) \<longleftrightarrow> \<not> job_clears_prompt j"
  "possible_outcome (Inr videoObjects) \<Longrightarrow>
     answers_request (abs_request j) (job_video j videoObjects u)"
proof -
  show "keeps_draft (abs_request j) \<longleftrightarrow> \<not> job_clears_prompt j"
    by (cases j) simp_all
  assume "possible_outcome (Inr videoObjects)"
  then obtain x xs where "videoObjects = x # xs" "0x2C \<notin> set (to_template x)"
    by (cases videoObjects) (auto dest: to_template_comma_free)
  then show "answers_request (abs_request j) (job_video j videoObjects u)"
    by (simp add: answers_request_def)
qed

lemma abs_tab_eq [simp]: "abs_tab m = GalleryTab \<longleftrightarrow> m = Gallery"
  by (cases m) simp_all

lemma listed_abs_of:
  "listed (abs_of sys) =
     (if view (ui sys) = Gallery then videos (ui sys)
      else map video_of (generatedVideosHistory (ui sys)))"
  by (cases "view (ui sys)") (simp_all add: listed_def abs_of_def)

lemma refines_ui_next:
  assumes "app_inv M sys" and "offers (render (ui sys)) e"
  shows "spec_next (abs_of sys) (abs_event e) = Some (abs_of (ui_step e sys))"
  using assms
  by (cases e)
     (auto simp: app_inv_def Let_def offers_iff listed_def abs_defs ui_step_def
        handler_defs handleGenerateNewVideo_guard_def split: option.splits)

lemma refines_settle_next:
  assumes "app_inv M sys" and "i < length (jobs sys)" and "possible_outcome outcome"
  shows "spec_next (abs_of sys) (abs_action sys (Settle i outcome uuid now))
     = Some (abs_of (settle_step i outcome uuid now sys))"
proof -
  from assms have j: "jobs sys = [jobs sys ! 0]" "i = 0" and saving: "isSaving (ui sys)"
    by (cases "jobs sys"; auto simp: app_inv_def Let_def)+
  show ?thesis
  proof (cases "created_video (job_video (jobs sys ! 0)) outcome uuid")
    case None
    with assms saving j show ?thesis
      by (auto simp: app_inv_def Let_def abs_defs settle_step_def settle_job_spec
          settle_spec_def split: option.splits)
  next
    case (Some v)
    then obtain xs u where "v = job_video (jobs sys ! 0) xs u"
      by (auto simp: created_video_Some_iff)
    with Some assms saving j show ?thesis
      by (auto simp: app_inv_def Let_def abs_defs settle_step_def settle_job_spec
          settle_spec_def publish_def job_video_answers created_video_Some_iff)
  qed
qed

lemma refines_step:
  assumes "app_inv M sys" and "enabled sys l"
  shows "spec_step (abs_of sys) (abs_action sys l) (abs_of (fire l sys))"
proof (cases l)
  case (UI e)
  with assms show ?thesis by (simp add: spec_step_iff refines_ui_next)
next
  case (Settle i outcome uuid now)
  with assms(2) have "i < length (jobs sys)" "possible_outcome outcome" by simp_all
  from refines_settle_next [OF assms(1) this] Settle show ?thesis
    by (simp add: spec_step_iff)
qed

lemma refines_run:
  "run sys ls = Some sys' \<Longrightarrow> app_inv M sys \<Longrightarrow>
     spec_steps (abs_of sys) (abs_trace sys ls) (abs_of sys')"
proof (induction ls arbitrary: sys)
  case Nil
  then show ?case by (auto intro: spec_steps.nil)
next
  case (Cons l ls)
  then have en: "enabled sys l" and r: "run (fire l sys) ls = Some sys'"
    by (auto split: if_splits)
  from Cons.prems(2) en have "app_inv M (fire l sys)" by (rule app_inv_fire)
  with r have "spec_steps (abs_of (fire l sys)) (abs_trace (fire l sys) ls) (abs_of sys')"
    by (rule Cons.IH)
  with refines_step [OF Cons.prems(2) en] show ?case
    by (auto intro: spec_steps.cons)
qed

subsection \<open>Every abstract step is a step of the application\<close>

lemma abs_impl_tab [simp]: "abs_tab (impl_tab t) = t"
  by (cases t) simp_all

lemma abs_of_fields:
  "records (abs_of sys) = videos (ui sys)"
  "clips (abs_of sys) = generatedVideosHistory (ui sys)"
  "tab (abs_of sys) = abs_tab (view (ui sys))"
  "error_shown (abs_of sys) \<longleftrightarrow> generationError (ui sys) \<noteq> None"
  "draft (abs_of sys) = newVideoPrompt (ui sys)"
  by (simp_all add: abs_of_def)

lemma on_screen_abs_of:
  assumes "app_inv M sys"
  shows "home_shown (on_screen (abs_of sys))
           \<longleftrightarrow> \<not> isSaving (ui sys) \<and> editingVideo (ui sys) = None"
    and "on_screen (abs_of sys) = Playing v
           \<longleftrightarrow> \<not> isSaving (ui sys) \<and> isPlaying (ui sys) \<and> playingVideo (ui sys) = Some v"
    and "on_screen (abs_of sys) = Editing v
           \<longleftrightarrow> \<not> isSaving (ui sys) \<and> editingVideo (ui sys) = Some v"
    and "on_screen (abs_of sys) = Saving r p
           \<longleftrightarrow> jobs sys \<noteq> [] \<and> r = abs_request (jobs sys ! 0) \<and> p = player_of (ui sys)"
  using assms
  by (auto simp: abs_defs app_inv_def Let_def split: option.splits)

lemma matches_ui:
  assumes inv: "app_inv M sys" and step: "spec_step (abs_of sys) a g'"
    and ui: "\<forall>v t. a \<noteq> Publish v t" "a \<noteq> Fail"
  shows "offers (render (ui sys)) (impl_event (ui sys) a)
     \<and> abs_event (impl_event (ui sys) a) = a"
proof -
  from inv have "generationError (ui sys) \<noteq> None \<Longrightarrow> \<not> isSaving (ui sys)"
    by (auto simp: app_inv_def Let_def)
  with step ui show ?thesis
    by (cases a)
       (auto simp: on_screen_abs_of [OF inv] offers_iff listed_abs_of abs_of_fields
          split: if_splits)
qed

lemma matches_settle:
  assumes inv: "app_inv M sys" and step: "spec_step (abs_of sys) a g'"
    and settle: "a = Fail \<or> (\<exists>v t. a = Publish v t)"
  shows "enabled sys (impl_label sys a) \<and> abs_action sys (impl_label sys a) = a"
proof -
  from step settle obtain r p where "on_screen (abs_of sys) = Saving r p"
    and fits: "\<And>v t. a = Publish v t \<Longrightarrow> answers_request r v"
    by auto
  then have jobs: "jobs sys \<noteq> []" and r: "r = abs_request (jobs sys ! 0)"
    by (simp_all add: on_screen_abs_of [OF inv])
  show ?thesis
  proof (cases a)
    case (Publish v t)
    from fits [OF this] have "job_video (jobs sys ! 0) [Some (payload_of (videoUrl v))] (video_id v) = v"
      by (intro video.equality)
         (simp_all add: r answers_request_def mp4_data_url_def payload_of_def video_src_def
            index_js_def mp4_prefix_def prefix_def, auto)
    with Publish jobs fits [OF Publish] show ?thesis
      by (simp add: answers_request_def)
  qed (use settle jobs in auto)
qed

lemma matches_step:
  assumes inv: "app_inv M sys" and step: "spec_step (abs_of sys) a g'"
  shows "enabled sys (impl_label sys a) \<and> abs_action sys (impl_label sys a) = a
     \<and> abs_of (fire (impl_label sys a) sys) = g'"
proof -
  have en: "enabled sys (impl_label sys a) \<and> abs_action sys (impl_label sys a) = a"
  proof (cases "a = Fail \<or> (\<exists>v t. a = Publish v t)")
    case True
    with inv step show ?thesis by (rule matches_settle)
  next
    case False
    with matches_ui [OF inv step] show ?thesis by (cases a) simp_all
  qed
  with refines_step [OF inv, of "impl_label sys a"] step show ?thesis
    by (auto dest: spec_step_uniq)
qed

lemma matches_run:
  assumes "spec_steps (abs_of sys) as g" and "app_inv M sys"
  shows "\<exists>sys'. run sys (impl_trace sys as) = Some sys' \<and> abs_of sys' = g
     \<and> abs_trace sys (impl_trace sys as) = as"
  using assms
proof (induction "abs_of sys" as g arbitrary: sys rule: spec_steps.induct)
  case nil
  then show ?case by simp
next
  case (cons a g' as g'')
  let ?l = "impl_label sys a"
  from matches_step [OF cons.prems cons.hyps(1)] have l: "enabled sys ?l"
    "abs_action sys ?l = a" "g' = abs_of (fire ?l sys)"
    by simp_all
  from cons.prems l(1) have "app_inv M (fire ?l sys)" by (rule app_inv_fire)
  from cons.hyps(3) [OF l(3) this] l show ?case by auto
qed

lemma demo_abs_trace:
  "abs_trace (initial_system [demo_mock]) demo_run
     = [Write (ascii '' a cat ''), Play demo_mock, Generate, Publish demo_new 1000]"
  by (simp add: demo_run_def demo_new_def demo_run_defs)

lemma reachable_gallery_inv:
  assumes "run (initial_system M) ls = Some sys"
  shows "gallery_inv M (abs_of sys)"
proof -
  from assms have "spec_steps (spec_init M) (abs_trace (initial_system M) ls) (abs_of sys)"
    using refines_run [OF _ app_inv_init] by (simp add: abs_of_init)
  then show ?thesis
    using gallery_inv_init by (rule spec_steps_invariant [rotated]) (rule gallery_inv_step)
qed

section \<open>Properties of the refinement\<close>

text \<open>C5. The application refines the abstract gallery: every run of the application
  from its initial state, read through \<open>abs_action\<close>, is a run of the abstract machine
  from its initial state, and ends in the abstract state that \<open>abs_of\<close> assigns to the
  state the application has reached.\<close>

theorem app_refines_gallery:
  assumes "run (initial_system M) ls = Some sys"
  shows "spec_steps (spec_init M) (abs_trace (initial_system M) ls) (abs_of sys)"
  using refines_run [OF assms app_inv_init] by (simp add: abs_of_init)

theorem app_refines_gallery_witness:
  "run (initial_system [demo_mock]) demo_run = Some demo_final
   \<and> spec_steps (spec_init [demo_mock])
       [Write (ascii '' a cat ''), Play demo_mock, Generate, Publish demo_new 1000]
       (abs_of demo_final)"
  using app_refines_gallery [of "[demo_mock]" demo_run demo_final] demo_run_final
  by (simp add: demo_abs_trace)

text \<open>C6. The abstract gallery describes the application exactly. A sequence of
  abstract actions leads the abstract machine from its initial state to \<open>g\<close> if and
  only if some run of the application from its initial state reads as that sequence
  and ends in a state that stands for \<open>g\<close>: the application does nothing the abstract
  machine forbids, and can do everything it allows.\<close>

theorem gallery_behaviours_exact:
  "spec_steps (spec_init M) as g \<longleftrightarrow>
     (\<exists>ls sys. run (initial_system M) ls = Some sys
        \<and> abs_trace (initial_system M) ls = as \<and> abs_of sys = g)"
proof
  assume "spec_steps (spec_init M) as g"
  then have "spec_steps (abs_of (initial_system M)) as g"
    by (simp add: abs_of_init)
  from matches_run [OF this app_inv_init]
  show "\<exists>ls sys. run (initial_system M) ls = Some sys
          \<and> abs_trace (initial_system M) ls = as \<and> abs_of sys = g"
    by blast
next
  assume "\<exists>ls sys. run (initial_system M) ls = Some sys
            \<and> abs_trace (initial_system M) ls = as \<and> abs_of sys = g"
  then obtain ls sys where "run (initial_system M) ls = Some sys"
    and "abs_trace (initial_system M) ls = as" "abs_of sys = g"
    by blast
  with refines_run [OF _ app_inv_init] show "spec_steps (spec_init M) as g"
    by (auto simp: abs_of_init)
qed

text \<open>C24. Requests and answers balance. In every run of the application the number of
  generation requests sent is the number of those that have been answered, by a
  published video or by the error dialog, plus one if the saving page is showing: no
  request is sent while one is pending, none is answered twice, and none is lost. The
  count is made on the abstract machine and carried over by the refinement.\<close>

theorem requests_balance:
  assumes "run (initial_system M) ls = Some sys"
  shows "requests (abs_trace (initial_system M) ls)
     = answers (abs_trace (initial_system M) ls) + (if isSaving (ui sys) then 1 else 0)"
proof -
  have "spec_steps (spec_init M) (abs_trace (initial_system M) ls) (abs_of sys)"
    using refines_run [OF assms app_inv_init] by (simp add: abs_of_init)
  from pending_steps [OF this] show ?thesis
    by (auto simp: spec_init_def abs_defs split: option.splits)
qed

theorem requests_balance_witness:
  "run (initial_system [demo_mock]) demo_run = Some demo_final
   \<and> requests (abs_trace (initial_system [demo_mock]) demo_run) = 1
   \<and> answers (abs_trace (initial_system [demo_mock]) demo_run) = 1
   \<and> \<not> isSaving (ui demo_final)"
  using requests_balance [of "[demo_mock]" demo_run demo_final] demo_run_final
  by (simp add: demo_abs_trace demo_final_def)

end
