(* ===== verification/Share.thy ===== *)
theory Share
  imports Video_Types JS_String JS_Promise
begin

text \<open>
  Sharing a video, as \<open>VideoPlayer\<close> does it
  (\<open>src/components/VideoPlayer.tsx\<close>, lines 25 and 40 to 69): the choice of the URL,
  the Web Share API when the browser has it, the clipboard otherwise, and the
  feedback text that a timer clears two seconds later. \<open>HistoryCard\<close> repeats the
  same code; theory \<open>History_Card\<close> models its copy and proves the two equal.

  \<^item> \<open>browser\<close> is what the handler reads from the platform: \<open>window.location.href\<close>,
    \<open>navigator.share\<close> (absent in many desktop browsers) and
    \<open>navigator.clipboard.writeText\<close> (whose call throws where \<open>navigator.clipboard\<close>
    is undefined, which the handler's \<open>try\<close> catches like a rejection).
  \<^item> \<open>share_state\<close> is the \<open>useState\<close> cell \<open>shareFeedback\<close> together with the
    deadlines of the timers that \<open>setTimeout\<close> has armed and that have not fired.
  \<^item> \<open>handleShare\<close> is the handler, at the time its awaited call settles;
    \<open>timers_fire\<close> runs the callbacks of the timers due at a given time;
    \<open>share_run\<close> executes a sequence of clicks and clock readings.
\<close>

section \<open>Definitions\<close>

record share_data =
  sd_title :: jsstring
  sd_text :: jsstring
  sd_url :: jsstring

record browser =
  location_href :: jsstring
  navigator_share :: "(share_data \<Rightarrow> unit promise) option"
  clipboard_writeText :: "jsstring \<Rightarrow> unit promise"

record share_state =
  shareFeedback :: jsstring
  timers :: "nat list"

datatype share_done =
    NativeShared
  | NativeAborted
  | NativeFailed js_error
  | LinkCopied
  | CopyFailed js_error

definition initial_share :: share_state where
  "initial_share = \<lparr>shareFeedback = [], timers = []\<rparr>"

definition FEEDBACK_MS :: nat where
  "FEEDBACK_MS = 2000"

definition urlToShare :: "browser \<Rightarrow> video \<Rightarrow> jsstring" where
  "urlToShare b v =
     (if startsWith_js (videoUrl v) (ascii ''http'') then videoUrl v else location_href b)"

definition shareData :: "browser \<Rightarrow> video \<Rightarrow> share_data" where
  "shareData b v = \<lparr>sd_title = title v, sd_text = description v, sd_url = urlToShare b v\<rparr>"

definition show_feedback :: "jsstring \<Rightarrow> nat \<Rightarrow> share_state \<Rightarrow> share_state" where
  "show_feedback text now st =
     st\<lparr>shareFeedback := text, timers := timers st @ [now + FEEDBACK_MS]\<rparr>"

definition handleShare ::
  "browser \<Rightarrow> video \<Rightarrow> nat \<Rightarrow> share_state \<Rightarrow> (share_done \<times> share_state) option" where
  "handleShare b v now st =
     (case navigator_share b of
        Some share \<Rightarrow>
          (case share (shareData b v) of
             None \<Rightarrow> None
           | Some (Inr u) \<Rightarrow> Some (NativeShared, st)
           | Some (Inl e) \<Rightarrow>
               Some (if error_name e \<noteq> Some (ascii ''AbortError'') then NativeFailed e
                     else NativeAborted, st))
      | None \<Rightarrow>
          (case clipboard_writeText b (urlToShare b v) of
             None \<Rightarrow> None
           | Some (Inr u) \<Rightarrow> Some (LinkCopied, show_feedback (ascii ''Link Copied!'') now st)
           | Some (Inl e) \<Rightarrow> Some (CopyFailed e, show_feedback (ascii ''Failed to copy'') now st)))"

definition timers_fire :: "nat \<Rightarrow> share_state \<Rightarrow> share_state" where
  "timers_fire now st =
     (if list_ex (\<lambda>d. d \<le> now) (timers st)
      then st\<lparr>shareFeedback := [], timers := filter (\<lambda>d. now < d) (timers st)\<rparr>
      else st)"

datatype share_event =
    ShareClick browser video nat
  | Tick nat

fun share_step :: "share_event \<Rightarrow> share_state \<Rightarrow> share_state" where
  "share_step (ShareClick b v now) st =
     (case handleShare b v now (timers_fire now st) of
        None \<Rightarrow> timers_fire now st
      | Some (r, st') \<Rightarrow> st')"
| "share_step (Tick now) st = timers_fire now st"

fun event_time :: "share_event \<Rightarrow> nat" where
  "event_time (ShareClick b v now) = now"
| "event_time (Tick now) = now"

fun share_run :: "share_state \<Rightarrow> share_event list \<Rightarrow> share_state" where
  "share_run st [] = st"
| "share_run st (e # es) = share_run (share_step e st) es"

definition share_inv :: "share_state \<Rightarrow> bool" where
  "share_inv st \<longleftrightarrow>
     shareFeedback st \<in> {[], ascii ''Link Copied!'', ascii ''Failed to copy''} \<and>
     (shareFeedback st \<noteq> [] \<longrightarrow> timers st \<noteq> [])"

lemmas share_defs =
  handleShare_def show_feedback_def timers_fire_def urlToShare_def shareData_def
  FEEDBACK_MS_def initial_share_def

subsection \<open>Example browsers\<close>

definition desktop :: browser where
  "desktop = \<lparr>location_href = ascii ''https://gallery.test/'', navigator_share = None,
              clipboard_writeText = (\<lambda>text. Fulfilled ())\<rparr>"

definition insecure :: browser where
  "insecure = desktop\<lparr>clipboard_writeText := (\<lambda>text. Rejected TypeError)\<rparr>"

definition generated_sample :: video where
  "generated_sample =
     \<lparr>video_id = ascii ''u1'', videoUrl = data_url (ascii ''video/mp4'') (ascii ''AAAA''),
      title = ascii ''Remix'', description = ascii ''a cat''\<rparr>"

section \<open>Lemmas\<close>

lemma urlToShare_http [simp]:
  "startsWith_js (videoUrl v) (ascii ''http'') \<Longrightarrow> urlToShare b v = videoUrl v"
  by (simp add: urlToShare_def)

lemma urlToShare_other [simp]:
  "\<not> startsWith_js (videoUrl v) (ascii ''http'') \<Longrightarrow> urlToShare b v = location_href b"
  by (simp add: urlToShare_def)

lemma share_inv_initial: "share_inv initial_share"
  by (simp add: share_inv_def initial_share_def)

lemma share_inv_timers_fire: "share_inv st \<Longrightarrow> share_inv (timers_fire now st)"
  by (auto simp: share_inv_def timers_fire_def list_ex_iff)

lemma timers_timers_fire: "set (timers (timers_fire now st)) \<subseteq> set (timers st)"
  by (auto simp: timers_fire_def)

lemma timers_handleShare:
  "handleShare b v now st = Some (r, st') \<Longrightarrow>
     set (timers st') \<subseteq> insert (now + FEEDBACK_MS) (set (timers st))"
  by (auto simp: handleShare_def show_feedback_def split: option.splits sum.splits if_splits)

lemma timers_step:
  "d \<in> set (timers (share_step e st)) \<Longrightarrow>
     d \<in> set (timers st) \<or> d = event_time e + FEEDBACK_MS"
proof (cases e)
  case (ShareClick b v now)
  assume d: "d \<in> set (timers (share_step e st))"
  show ?thesis
  proof (cases "handleShare b v now (timers_fire now st)")
    case None
    with d ShareClick show ?thesis using timers_timers_fire by fastforce
  next
    case (Some a)
    then obtain r st' where "handleShare b v now (timers_fire now st) = Some (r, st')"
      by (cases a) auto
    with d ShareClick show ?thesis
      using timers_handleShare timers_timers_fire by fastforce
  qed
next
  case (Tick now)
  assume "d \<in> set (timers (share_step e st))"
  with Tick show ?thesis using timers_timers_fire by fastforce
qed

lemma timers_run_bounded:
  assumes "\<forall>d \<in> set (timers st). d \<le> T + FEEDBACK_MS"
    and "\<forall>e \<in> set es. event_time e \<le> T"
  shows "\<forall>d \<in> set (timers (share_run st es)). d \<le> T + FEEDBACK_MS"
  using assms
proof (induction es arbitrary: st)
  case Nil
  then show ?case by simp
next
  case (Cons e es)
  have "\<forall>d \<in> set (timers (share_step e st)). d \<le> T + FEEDBACK_MS"
    using Cons.prems by (fastforce dest: timers_step)
  with Cons.prems(2) show ?case by (simp add: Cons.IH)
qed

lemma share_inv_handleShare:
  "share_inv st \<Longrightarrow> handleShare b v now st = Some (r, st') \<Longrightarrow> share_inv st'"
  by (auto simp: share_inv_def handleShare_def show_feedback_def
      split: option.splits sum.splits if_splits)

lemma share_inv_step: "share_inv st \<Longrightarrow> share_inv (share_step e st)"
  by (cases e)
     (auto split: option.splits intro: share_inv_timers_fire share_inv_handleShare)

lemma share_inv_run: "share_inv st \<Longrightarrow> share_inv (share_run st es)"
  by (induction es arbitrary: st) (simp_all add: share_inv_step)

lemma timers_fire_all:
  "\<forall>d \<in> set (timers st). d \<le> now \<Longrightarrow> share_inv st \<Longrightarrow>
     timers_fire now st = \<lparr>shareFeedback = [], timers = []\<rparr>"
  by (cases "timers st")
     (auto simp: timers_fire_def share_inv_def filter_empty_conv not_less list_ex_iff)

lemma share_run_snoc: "share_run st (es @ [e]) = share_step e (share_run st es)"
  by (induction es arbitrary: st) simp_all

lemma handleShare_native:
  "navigator_share b = Some share \<Longrightarrow> handleShare b v now st = Some (r, st') \<Longrightarrow> st' = st"
  by (auto simp: handleShare_def split: option.splits sum.splits)

lemmas share_example_defs =
  desktop_def insecure_def generated_sample_def data_url_def startsWith_js_def

section \<open>Properties of sharing\<close>

text \<open>Whatever the user clicks and whenever the timers fire, the feedback next to
  the share button is empty or one of the two fixed messages, and while a message is
  shown a timer that will clear it is armed: a message never stays for ever.\<close>

lemma share_feedback_inv: "share_inv (share_run initial_share es)"
  by (rule share_inv_run [OF share_inv_initial])

text \<open>C17. The feedback is gone two seconds after the last click: if every event of a
  run happens by time \<open>T\<close>, then at \<open>T + 2000\<close> the message is empty and no timer is
  left.\<close>

theorem feedback_cleared:
  assumes "\<forall>e \<in> set es. event_time e \<le> T"
  shows "share_run initial_share (es @ [Tick (T + FEEDBACK_MS)]) = initial_share"
proof -
  have "\<forall>d \<in> set (timers (share_run initial_share es)). d \<le> T + FEEDBACK_MS"
    using assms by (intro timers_run_bounded) (simp_all add: initial_share_def)
  moreover have "share_inv (share_run initial_share es)"
    by (rule share_inv_run [OF share_inv_initial])
  ultimately have "timers_fire (T + FEEDBACK_MS) (share_run initial_share es) = initial_share"
    unfolding initial_share_def [of] by (rule timers_fire_all)
  then show ?thesis by (simp add: share_run_snoc)
qed

theorem feedback_cleared_witness:
  "list_all (\<lambda>e. event_time e \<le> 1500)
     [ShareClick desktop generated_sample 0, ShareClick insecure generated_sample 1500]
   \<and> share_run initial_share
       [ShareClick desktop generated_sample 0, ShareClick insecure generated_sample 1500,
        Tick 3500] = initial_share"
  using feedback_cleared
    [of "[ShareClick desktop generated_sample 0, ShareClick insecure generated_sample 1500]" 1500]
  by (simp add: FEEDBACK_MS_def)

text \<open>A message can disappear early. The handler never cancels the timer of an
  earlier click, so after clicks at 0 ms and 1500 ms the message of the second click
  ("Failed to copy") is cleared at 2000 ms, after half a second instead of two.\<close>

lemma feedback_cleared_early:
  "shareFeedback (share_run initial_share
      [ShareClick desktop generated_sample 0, ShareClick insecure generated_sample 1500])
     = ascii ''Failed to copy''
   \<and> shareFeedback (share_run initial_share
      [ShareClick desktop generated_sample 0, ShareClick insecure generated_sample 1500,
       Tick 2000]) = []"
  by (simp add: share_defs share_example_defs)

text \<open>Where the browser has the Web Share API the handler gives the user no
  feedback at all: whether the share succeeds, is dismissed or fails, the component's
  state is unchanged, and the clipboard is never used as a fallback.\<close>

lemma native_share_silent:
  "navigator_share b \<noteq> None \<Longrightarrow> handleShare b v now st = Some (r, st')
     \<Longrightarrow> st' = st \<and> r \<in> {NativeShared, NativeAborted} \<union> range NativeFailed"
  by (auto simp: handleShare_def split: option.splits sum.splits if_splits)

end
