(* ===== verification/Video_Player.thy ===== *)
theory Video_Player
  imports Share
begin

text \<open>
  The component \<open>VideoPlayer\<close> (\<open>src/components/VideoPlayer.tsx\<close>) apart from
  sharing, which theory \<open>Share\<close> holds.

  \<^item> \<open>download_file_name\<close> is the file name that \<open>handleDownload\<close> makes from the title
    (two \<open>replace\<close> calls and the extension); \<open>handleDownload\<close> is the link it clicks.
  \<^item> \<open>render_player\<close> is what the returned JSX displays of the video and of the share
    feedback.
  \<^item> The JSX attaches click handlers to the backdrop, to the dialog (which only stops
    propagation) and to four buttons. \<open>click\<close> delivers a click to its target and
    lets it bubble along \<open>path\<close> to the backdrop, collecting the calls made, as React
    does; \<open>media_event\<close> is the wiring of \<open>onCanPlay\<close> and \<open>onEnded\<close>.
\<close>

section \<open>Definitions\<close>

definition download_file_name :: "jsstring \<Rightarrow> jsstring" where
  "download_file_name t =
     replace_class (\<lambda>c. c = 0x20) [0x5F]
       (replace_class (\<lambda>c. \<not> (isWordChar c \<or> isRegexSpace c)) [] t)
     @ ascii ''.mp4''"

record download_link =
  href :: jsstring
  download :: jsstring

definition handleDownload :: "video \<Rightarrow> download_link" where
  "handleDownload v = \<lparr>href = videoUrl v, download = download_file_name (title v)\<rparr>"

record player_view =
  pv_key :: jsstring
  pv_src :: jsstring
  pv_aria_label :: jsstring
  pv_description :: jsstring
  pv_share_label :: jsstring

definition render_player :: "video \<Rightarrow> share_state \<Rightarrow> player_view" where
  "render_player v st =
     \<lparr>pv_key = video_id v, pv_src = videoUrl v, pv_aria_label = title v,
      pv_description = description v,
      pv_share_label = (if shareFeedback st \<noteq> [] then shareFeedback st else ascii ''Share'')\<rparr>"

datatype player_element =
    Backdrop
  | Dialog
  | CloseButton
  | VideoElement
  | DescriptionText
  | ShareButton
  | DownloadButton
  | EditButton

datatype player_call =
    OnClose
  | OnEdit video
  | OnVideoLoaded
  | HandleShare
  | HandleDownload

fun path :: "player_element \<Rightarrow> player_element list" where
  "path Backdrop = [Backdrop]"
| "path Dialog = [Dialog, Backdrop]"
| "path target = [target, Dialog, Backdrop]"

fun onClick :: "video \<Rightarrow> player_element \<Rightarrow> player_call list \<times> bool" where
  "onClick v Backdrop = ([OnClose], False)"
| "onClick v Dialog = ([], True)"
| "onClick v CloseButton = ([OnClose], False)"
| "onClick v ShareButton = ([HandleShare], False)"
| "onClick v DownloadButton = ([HandleDownload], False)"
| "onClick v EditButton = ([OnEdit v], False)"
| "onClick v element = ([], False)"

fun bubble :: "video \<Rightarrow> player_element list \<Rightarrow> player_call list" where
  "bubble v [] = []"
| "bubble v (x # xs) =
     (case onClick v x of (calls, stopped) \<Rightarrow> calls @ (if stopped then [] else bubble v xs))"

definition click :: "video \<Rightarrow> player_element \<Rightarrow> player_call list" where
  "click v target = bubble v (path target)"

datatype media_event = CanPlay | Ended

fun media_call :: "media_event \<Rightarrow> player_call" where
  "media_call CanPlay = OnVideoLoaded"
| "media_call Ended = OnClose"

definition isFileNameChar :: "code_unit \<Rightarrow> bool" where
  "isFileNameChar c \<longleftrightarrow> isWordChar c \<or> (isRegexSpace c \<and> c \<noteq> 0x20)"

section \<open>Lemmas\<close>

lemma download_file_name_eq:
  "download_file_name t =
     map (\<lambda>c. if c = 0x20 then 0x5F else c) (filter (\<lambda>c. isWordChar c \<or> isRegexSpace c) t)
     @ ascii ''.mp4''"
  by (simp add: download_file_name_def replace_class_delete replace_class_single)

lemma space_is_regex_space [simp]: "isRegexSpace 0x20"
  by (simp add: isRegexSpace_def isWhiteSpace_def)

lemma space_not_word [simp]: "\<not> isWordChar 0x20"
  by (simp add: isWordChar_def)

lemma sanitized_chars:
  "list_all isFileNameChar
     (map (\<lambda>c. if c = 0x20 then 0x5F else c) (filter (\<lambda>c. isWordChar c \<or> isRegexSpace c) t))"
  by (induction t) (auto simp: isFileNameChar_def)

lemma mp4_chars: "list_all (\<lambda>c. isFileNameChar c \<or> c = 0x2E) (ascii ''.mp4'')"
  by (simp add: isFileNameChar_def isWordChar_def)

lemma click_simps:
  "click v Backdrop = [OnClose]"
  "click v Dialog = []"
  "click v CloseButton = [OnClose]"
  "click v VideoElement = []"
  "click v DescriptionText = []"
  "click v ShareButton = [HandleShare]"
  "click v DownloadButton = [HandleDownload]"
  "click v EditButton = [OnEdit v]"
  by (simp_all add: click_def)

lemma download_file_name_chars:
  "list_all (\<lambda>c. isFileNameChar c \<or> c = 0x2E) (download_file_name t)"
  using sanitized_chars [of t] mp4_chars
  by (simp add: download_file_name_eq list_all_iff del: ascii_Cons) blast

lemma isFileNameChar_excludes:
  "isFileNameChar c \<Longrightarrow> c \<notin> {0x20, 0x2F, 0x5C, 0x3A, 0x2A, 0x3F, 0x22, 0x3C, 0x3E, 0x7C}"
  by (auto simp: isFileNameChar_def isWordChar_def isRegexSpace_def isWhiteSpace_def
      isLineTerminator_def)

section \<open>Properties of the player\<close>

text \<open>C19. The name of the downloaded file is safe to hand to a file system: it has no
  space, no slash, backslash or colon and none of the other characters that Windows
  forbids; it consists of ASCII letters, digits, underscores, the dot of the extension
  and whatever white space other than the space the title had; it ends in \<open>.mp4\<close> and
  is at most four units longer than the title.\<close>

theorem download_file_name_safe:
  "set (download_file_name t) \<inter> {0x20, 0x2F, 0x5C, 0x3A, 0x2A, 0x3F, 0x22, 0x3C, 0x3E, 0x7C} = {}
   \<and> list_all (\<lambda>c. isFileNameChar c \<or> c = 0x2E) (download_file_name t)
   \<and> suffix (ascii ''.mp4'') (download_file_name t)
   \<and> length (download_file_name t) \<le> length t + 4"
proof -
  have "c \<notin> {0x20, 0x2F, 0x5C, 0x3A, 0x2A, 0x3F, 0x22, 0x3C, 0x3E, 0x7C}"
    if "c \<in> set (download_file_name t)" for c :: code_unit
  proof -
    from that download_file_name_chars [of t] have "isFileNameChar c \<or> c = 0x2E"
      by (simp add: list_all_iff)
    then show ?thesis using isFileNameChar_excludes [of c] by auto
  qed
  moreover have "length (download_file_name t) \<le> length t + 4"
    by (simp add: download_file_name_eq le_imp_less_Suc less_Suc_eq_le)
  ultimately show ?thesis
    using download_file_name_chars [of t]
    by (auto simp: download_file_name_def suffix_def simp del: ascii_Cons)
qed

text \<open>What the sanitiser leaves in and what it loses. Only the space becomes an
  underscore: a tab or a line break in the title stays in the file name. Different
  titles can give the same file name, and a title without ASCII letters or digits (one
  written in Cyrillic, say) gives the bare name \<open>.mp4\<close>.\<close>

lemma download_file_name_lossy:
  "download_file_name (ascii ''a'' @ [0x09, 0x0A] @ ascii ''b'')
     = ascii ''a'' @ [0x09, 0x0A] @ ascii ''b.mp4''
   \<and> download_file_name (ascii ''My cat!'') = download_file_name (ascii ''My_cat'')
   \<and> download_file_name [0x041A, 0x043E, 0x0442] = ascii ''.mp4''"
  by (simp add: download_file_name_eq isWordChar_def isRegexSpace_def isWhiteSpace_def
      isLineTerminator_def)

text \<open>A click inside the dialog does not close the player: of all the elements of
  the player only the backdrop and the close button lead to \<open>onClose\<close>, and each of
  them calls it exactly once; the edit button passes on the video the player shows.\<close>

lemma click_closes_iff:
  "(OnClose \<in> set (click v target) \<longleftrightarrow> target \<in> {Backdrop, CloseButton})
   \<and> length (filter (\<lambda>c. c = OnClose) (click v target)) \<le> 1
   \<and> (\<forall>v'. OnEdit v' \<in> set (click v target) \<longrightarrow> v' = v \<and> target = EditButton)"
  by (cases target) (simp_all add: click_simps)

end
