(* ===== verification/History_Card.thy ===== *)
theory History_Card
  imports Share History_Page
begin

text \<open>
  The component \<open>HistoryCard\<close> (\<open>src/components/HistoryCard.tsx\<close>).

  \<^item> \<open>card_handleShare\<close> is its own copy of the share handler, written out as the
    source writes it; \<open>card_handleShare_eq\<close> shows that it is \<open>handleShare\<close> of
    theory \<open>Share\<close> applied to the card's video.
  \<^item> \<open>render_card\<close> is what the returned JSX displays: the two labels, the loading
    overlay with spinner or play icon, the share button's content, title, date and
    prompt. The date is formatted by \<open>toLocaleString\<close> in the user's locale, a
    parameter of the model.
  \<^item> \<open>card_click\<close> delivers a click to an element of the card and lets it bubble to the
    card's root. The flag says whether \<open>e.stopPropagation()\<close> in the share handler is
    honoured, so that its effect can be stated.
\<close>

section \<open>Definitions\<close>

definition card_handleShare ::
  "browser \<Rightarrow> history_video \<Rightarrow> nat \<Rightarrow> share_state \<Rightarrow> (share_done \<times> share_state) option" where
  "card_handleShare b v now st =
     (let urlToShare = (if startsWith_js (videoUrl v) (ascii ''http'') then videoUrl v
                        else location_href b);
          shareData = \<lparr>sd_title = title v, sd_text = description v, sd_url = urlToShare\<rparr>
      in case navigator_share b of
           Some share \<Rightarrow>
             (case share shareData of
                None \<Rightarrow> None
              | Some (Inr u) \<Rightarrow> Some (NativeShared, st)
              | Some (Inl e) \<Rightarrow>
                  Some (if error_name e \<noteq> Some (ascii ''AbortError'') then NativeFailed e
                        else NativeAborted, st))
         | None \<Rightarrow>
             (case clipboard_writeText b urlToShare of
                None \<Rightarrow> None
              | Some (Inr u) \<Rightarrow>
                  Some (LinkCopied,
                        st\<lparr>shareFeedback := ascii ''Link Copied!'',
                           timers := timers st @ [now + 2000]\<rparr>)
              | Some (Inl e) \<Rightarrow>
                  Some (CopyFailed e,
                        st\<lparr>shareFeedback := ascii ''Failed to copy'',
                           timers := timers st @ [now + 2000]\<rparr>)))"

record card_view =
  cv_aria_label :: jsstring
  cv_play_aria_label :: jsstring
  cv_src :: jsstring
  cv_overlay_shown :: bool
  cv_spinner :: bool
  cv_share_text :: "jsstring option"
  cv_title :: jsstring
  cv_date :: jsstring
  cv_prompt :: jsstring

definition render_card ::
  "(int \<Rightarrow> jsstring) \<Rightarrow> history_card_props \<Rightarrow> share_state \<Rightarrow> card_view" where
  "render_card toLocaleString props st =
     (let v = card_video props; isLoading = card_isLoading props;
          formattedDate = toLocaleString (createdAt v)
      in \<lparr>cv_aria_label = ascii ''Generated video: '' @ title v,
          cv_play_aria_label = ascii ''Play generated video: '' @ title v,
          cv_src = videoUrl v,
          cv_overlay_shown = isLoading,
          cv_spinner = isLoading,
          cv_share_text = (if shareFeedback st \<noteq> [] then Some (shareFeedback st) else None),
          cv_title = title v,
          cv_date = formattedDate,
          cv_prompt = description v\<rparr>)"

datatype card_element =
    CardRoot
  | PlayButton
  | PlayOverlay
  | InfoPanel
  | CardShareButton
  | CardText

datatype card_call =
    OnPlay history_video
  | CardHandleShare

fun card_path :: "card_element \<Rightarrow> card_element list" where
  "card_path CardRoot = [CardRoot]"
| "card_path PlayButton = [PlayButton, CardRoot]"
| "card_path PlayOverlay = [PlayOverlay, PlayButton, CardRoot]"
| "card_path InfoPanel = [InfoPanel, CardRoot]"
| "card_path target = [target, InfoPanel, CardRoot]"

fun card_onClick :: "history_video \<Rightarrow> card_element \<Rightarrow> card_call list \<times> bool" where
  "card_onClick v PlayButton = ([OnPlay v], False)"
| "card_onClick v CardShareButton = ([CardHandleShare], True)"
| "card_onClick v element = ([], False)"

fun card_bubble :: "bool \<Rightarrow> history_video \<Rightarrow> card_element list \<Rightarrow> card_call list" where
  "card_bubble honour v [] = []"
| "card_bubble honour v (x # xs) =
     (case card_onClick v x of
        (calls, stopped) \<Rightarrow> calls @ (if stopped \<and> honour then [] else card_bubble honour v xs))"

definition card_click :: "bool \<Rightarrow> history_video \<Rightarrow> card_element \<Rightarrow> card_call list" where
  "card_click honour v target = card_bubble honour v (card_path target)"

section \<open>Lemmas\<close>

lemma card_handleShare_eq: "card_handleShare b h now st = handleShare b (video_of h) now st"
  by (auto simp: card_handleShare_def share_defs Let_def split: option.splits sum.splits)

lemma card_click_simps:
  "card_click honour v CardRoot = []"
  "card_click honour v PlayButton = [OnPlay v]"
  "card_click honour v PlayOverlay = [OnPlay v]"
  "card_click honour v InfoPanel = []"
  "card_click honour v CardShareButton = [CardHandleShare]"
  "card_click honour v CardText = []"
  by (simp_all add: card_click_def)

section \<open>Properties of the card\<close>

text \<open>C33. The share handler of the card is the share handler of the player: given the
  same browser, video, time and feedback state the two copies of the code do the
  same.\<close>

theorem card_handleShare_same:
  "card_handleShare b h now st = handleShare b (video_of h) now st"
  by (rule card_handleShare_eq)

text \<open>\<open>e.stopPropagation()\<close> in the card's share handler changes nothing: the play
  handler sits on a sibling button, not on an ancestor, so a click on the share button
  reaches no other handler with or without it. A click plays the card's own video
  exactly when it lands on the thumbnail button.\<close>

lemma card_stopPropagation_redundant:
  "card_click False v target = card_click True v target
   \<and> (card_click True v target = [OnPlay v] \<longleftrightarrow> target \<in> {PlayButton, PlayOverlay})
   \<and> card_click True v CardShareButton = [CardHandleShare]"
  by (cases target) (simp_all add: card_click_simps)

end
