(* ===== verification/Mounted.thy ===== *)
theory Mounted
  imports App_Machine Video_Player History_Card
begin

text \<open>
  The page as React keeps it: the application together with the instances of the
  components that hold state of their own, the share feedback of \<open>VideoPlayer\<close> and of
  every \<open>HistoryCard\<close>, and the share handlers that are suspended at their \<open>await\<close>.

  \<^item> A component instance lives while its element is rendered at the same place of
    the tree, for a card under the same \<open>key\<close>. \<open>mounted_player\<close> and \<open>mounted_cards\<close> read
    from the rendered view which instances there are: the saving page and the edit page
    replace the subtree that holds the cards, the gallery tab replaces \<open>HistoryPage\<close>,
    and the player is rendered under \<open>isPlaying && playingVideo\<close>.
  \<^item> A \<open>comp_inst\<close> is the \<open>useState\<close> cell \<open>shareFeedback\<close> with its timers, and a
    number that tells it from every instance mounted before or after it.
    \<open>reconcile\<close> is what a render does to the instances: an instance that is still
    rendered keeps its state, a new one starts with \<open>useState('')\<close> and a fresh
    number, the others are dropped. A timer of a dropped instance finds nothing to
    update.
  \<^item> \<open>handleShare\<close> is \<open>async\<close>: a click on a share button runs it up to its \<open>await\<close>
    (\<open>share_call\<close>: the instance that was clicked, the browser, and the video of the
    render in which the click happened, which the closure of the handler holds), and
    the rest runs when the awaited call settles (\<open>ShareSettle\<close>), on the instance that
    was clicked if it is still mounted and on nothing otherwise. Other steps may
    happen in between.
  \<^item> A step of the page is a step of the application followed by a render, a click
    on a share button, the settling of a suspended share handler, or the clock
    reaching a time at which timers fire.
  \<^item> \<open>page_inv\<close> relates the instances to the rendered view.
\<close>

section \<open>Definitions\<close>

record comp_inst =
  inst_id :: nat
  inst_share :: share_state

datatype share_source =
    FromPlayer video
  | FromCard history_video

record share_call =
  sc_inst :: nat
  sc_browser :: browser
  sc_source :: share_source

record page =
  app :: system
  player_inst :: "comp_inst option"
  card_insts :: "(jsstring \<times> comp_inst) list"
  mounts :: nat
  share_calls :: "share_call list"

definition player_share :: "page \<Rightarrow> share_state option" where
  "player_share pg = map_option inst_share (player_inst pg)"

definition card_shares :: "page \<Rightarrow> (jsstring \<times> share_state) list" where
  "card_shares pg = map (apsnd inst_share) (card_insts pg)"

fun mounted_player :: "app_view \<Rightarrow> video option" where
  "mounted_player (SavingProgressPageView message) = None"
| "mounted_player (AppView pv player modal) = player"

fun main_cards :: "main_view \<Rightarrow> history_card_props list" where
  "main_cards (VideoGridView vs l) = []"
| "main_cards (HistoryPageView hp) = cards_of hp"

fun mounted_cards :: "app_view \<Rightarrow> history_card_props list" where
  "mounted_cards (AppView (HomeView h) player modal) = main_cards (main h)"
| "mounted_cards v = []"

definition mount :: "nat \<Rightarrow> comp_inst option \<Rightarrow> comp_inst" where
  "mount fresh old =
     (case old of None \<Rightarrow> \<lparr>inst_id = fresh, inst_share = initial_share\<rparr> | Some inst \<Rightarrow> inst)"

fun mount_cards ::
  "nat \<Rightarrow> (jsstring \<times> comp_inst) list \<Rightarrow> history_card_props list \<Rightarrow> (jsstring \<times> comp_inst) list" where
  "mount_cards fresh old [] = []"
| "mount_cards fresh old (c # cs) =
     (card_key c, mount fresh (map_of old (card_key c))) # mount_cards (Suc fresh) old cs"

definition reconcile :: "app_view \<Rightarrow> page \<Rightarrow> page" where
  "reconcile v pg =
     pg\<lparr>player_inst := map_option (\<lambda>video. mount (mounts pg) (player_inst pg)) (mounted_player v),
        card_insts := mount_cards (Suc (mounts pg)) (card_insts pg) (mounted_cards v),
        mounts := Suc (mounts pg) + length (mounted_cards v)\<rparr>"

definition initial_page :: "video list \<Rightarrow> page" where
  "initial_page MOCK_VIDEOS =
     \<lparr>app = initial_system MOCK_VIDEOS, player_inst = None, card_insts = [], mounts = 0,
      share_calls = []\<rparr>"

definition view_of :: "page \<Rightarrow> app_view" where
  "view_of pg = render (ui (app pg))"

fun source_video :: "share_source \<Rightarrow> video" where
  "source_video (FromPlayer v) = v"
| "source_video (FromCard h) = video_of h"

definition awaited :: "share_call \<Rightarrow> unit promise" where
  "awaited c =
     (case navigator_share (sc_browser c) of
        Some share \<Rightarrow> share (shareData (sc_browser c) (source_video (sc_source c)))
      | None \<Rightarrow> clipboard_writeText (sc_browser c)
                  (urlToShare (sc_browser c) (source_video (sc_source c))))"

definition card_share_step :: "browser \<Rightarrow> history_video \<Rightarrow> nat \<Rightarrow> share_state \<Rightarrow> share_state" where
  "card_share_step b h now st =
     (case card_handleShare b h now (timers_fire now st) of
        None \<Rightarrow> timers_fire now st
      | Some (r, st') \<Rightarrow> st')"

definition resumed :: "share_call \<Rightarrow> nat \<Rightarrow> share_state \<Rightarrow> share_state" where
  "resumed c now st =
     (case sc_source c of
        FromPlayer v \<Rightarrow> share_step (ShareClick (sc_browser c) v now) st
      | FromCard h \<Rightarrow> card_share_step (sc_browser c) h now st)"

definition settle_in :: "share_call \<Rightarrow> nat \<Rightarrow> comp_inst \<Rightarrow> comp_inst" where
  "settle_in c now inst =
     (if inst_id inst = sc_inst c then inst\<lparr>inst_share := resumed c now (inst_share inst)\<rparr>
      else inst)"

definition player_click :: "browser \<Rightarrow> page \<Rightarrow> share_call list" where
  "player_click b pg =
     (case (mounted_player (view_of pg), player_inst pg) of
        (Some v, Some inst) \<Rightarrow> [\<lparr>sc_inst = inst_id inst, sc_browser = b, sc_source = FromPlayer v\<rparr>]
      | _ \<Rightarrow> [])"

definition card_click_call :: "jsstring \<Rightarrow> browser \<Rightarrow> page \<Rightarrow> share_call list" where
  "card_click_call k b pg =
     (case (find (\<lambda>c. card_key c = k) (mounted_cards (view_of pg)), map_of (card_insts pg) k) of
        (Some c, Some inst) \<Rightarrow>
          [\<lparr>sc_inst = inst_id inst, sc_browser = b, sc_source = FromCard (card_video c)\<rparr>]
      | _ \<Rightarrow> [])"

datatype page_label =
    AppStep label
  | PlayerClick browser
  | CardClick jsstring browser
  | ShareSettle nat nat
  | Clock nat

fun page_enabled :: "page \<Rightarrow> page_label \<Rightarrow> bool" where
  "page_enabled pg (AppStep l) = enabled (app pg) l"
| "page_enabled pg (PlayerClick b) = (player_inst pg \<noteq> None)"
| "page_enabled pg (CardClick k b) = (k \<in> set (map fst (card_insts pg)))"
| "page_enabled pg (ShareSettle i now) =
     (i < length (share_calls pg) \<and> awaited (share_calls pg ! i) \<noteq> None)"
| "page_enabled pg (Clock now) = True"

fun page_fire :: "page_label \<Rightarrow> page \<Rightarrow> page" where
  "page_fire (AppStep l) pg = reconcile (render (ui (fire l (app pg)))) (pg\<lparr>app := fire l (app pg)\<rparr>)"
| "page_fire (PlayerClick b) pg = pg\<lparr>share_calls := share_calls pg @ player_click b pg\<rparr>"
| "page_fire (CardClick k b) pg = pg\<lparr>share_calls := share_calls pg @ card_click_call k b pg\<rparr>"
| "page_fire (ShareSettle i now) pg =
     pg\<lparr>player_inst := map_option (settle_in (share_calls pg ! i) now) (player_inst pg),
        card_insts := map (apsnd (settle_in (share_calls pg ! i) now)) (card_insts pg),
        share_calls := take i (share_calls pg) @ drop (Suc i) (share_calls pg)\<rparr>"
| "page_fire (Clock now) pg =
     pg\<lparr>player_inst :=
          map_option (\<lambda>inst. inst\<lparr>inst_share := timers_fire now (inst_share inst)\<rparr>) (player_inst pg),
        card_insts :=
          map (apsnd (\<lambda>inst. inst\<lparr>inst_share := timers_fire now (inst_share inst)\<rparr>)) (card_insts pg)\<rparr>"

fun page_run :: "page \<Rightarrow> page_label list \<Rightarrow> page option" where
  "page_run pg [] = Some pg"
| "page_run pg (l # ls) = (if page_enabled pg l then page_run (page_fire l pg) ls else None)"

definition insts :: "page \<Rightarrow> comp_inst list" where
  "insts pg = (case player_inst pg of None \<Rightarrow> [] | Some p \<Rightarrow> [p]) @ map snd (card_insts pg)"

definition instances_ok :: "page \<Rightarrow> bool" where
  "instances_ok pg \<longleftrightarrow>
     list_all (\<lambda>inst. share_inv (inst_share inst) \<and> inst_id inst < mounts pg) (insts pg) \<and>
     list_all (\<lambda>c. sc_inst c < mounts pg) (share_calls pg) \<and>
     list_all (\<lambda>(k, inst). map_option inst_id (player_inst pg) \<noteq> Some (inst_id inst))
       (card_insts pg) \<and>
     list_all (\<lambda>(k, inst).
         list_all (\<lambda>(k', inst'). inst_id inst = inst_id inst' \<longrightarrow> k = k') (card_insts pg))
       (card_insts pg)"

definition page_inv :: "page \<Rightarrow> bool" where
  "page_inv pg \<longleftrightarrow>
     (player_inst pg \<noteq> None \<longleftrightarrow> mounted_player (view_of pg) \<noteq> None) \<and>
     map fst (card_insts pg) = map card_key (mounted_cards (view_of pg)) \<and>
     instances_ok pg"

subsection \<open>Example runs\<close>

definition other_mock :: video where
  "other_mock = \<lparr>video_id = ascii ''2'', videoUrl = ascii ''https://v.test/2.mp4'',
                  title = ascii ''Other'', description = ascii ''Another sample''\<rparr>"

definition share_then_switch :: "page_label list" where
  "share_then_switch =
     [AppStep (UI (PlayVideo demo_mock)), PlayerClick desktop, ShareSettle 0 0,
      AppStep (UI (PlayVideo other_mock))]"

definition share_then_reopen :: "page_label list" where
  "share_then_reopen =
     [AppStep (UI (PlayVideo demo_mock)), PlayerClick desktop, AppStep (UI ClosePlayer),
      AppStep (UI (PlayVideo demo_mock)), ShareSettle 0 0]"

definition copied :: share_state where
  "copied = \<lparr>shareFeedback = ascii ''Link Copied!'', timers = [2000]\<rparr>"

definition reopened :: page where
  "reopened =
     \<lparr>app = \<lparr>ui = handlePlayVideo demo_mock (initial_state [demo_mock]), jobs = []\<rparr>,
      player_inst = Some \<lparr>inst_id = 2, inst_share = initial_share\<rparr>, card_insts = [],
      mounts = 3,
      share_calls = [\<lparr>sc_inst = 0, sc_browser = desktop, sc_source = FromPlayer demo_mock\<rparr>]\<rparr>"

lemmas page_defs = reconcile_def mount_def view_of_def initial_page_def player_share_def
  card_shares_def

section \<open>Lemmas\<close>

subsection \<open>The share handler at its await\<close>

lemma card_share_step_eq:
  "card_share_step b h now st = share_step (ShareClick b (video_of h) now) st"
  by (simp add: card_share_step_def card_handleShare_eq)

lemma resumed_eq:
  "resumed c now st = share_step (ShareClick (sc_browser c) (source_video (sc_source c)) now) st"
  by (cases "sc_source c") (simp_all add: resumed_def card_share_step_eq del: share_step.simps)

lemma share_inv_resumed: "share_inv st \<Longrightarrow> share_inv (resumed c now st)"
  by (simp add: resumed_eq share_inv_step del: share_step.simps)

lemma awaited_handleShare:
  "awaited c = None \<longleftrightarrow> handleShare (sc_browser c) (source_video (sc_source c)) now st = None"
  by (auto simp: awaited_def handleShare_def split: option.splits sum.splits)

lemma settle_in_sel [simp]:
  "inst_id (settle_in c now inst) = inst_id inst"
  "share_inv (inst_share inst) \<Longrightarrow> share_inv (inst_share (settle_in c now inst))"
  by (simp_all add: settle_in_def share_inv_resumed)

lemma settle_in_other: "inst_id inst \<noteq> sc_inst c \<Longrightarrow> settle_in c now inst = inst"
  by (simp add: settle_in_def)

subsection \<open>Mounting\<close>

lemma mount_simps [simp]:
  "mount fresh None = \<lparr>inst_id = fresh, inst_share = initial_share\<rparr>"
  "mount fresh (Some inst) = inst"
  by (simp_all add: mount_def)

lemma map_fst_mount_cards [simp]: "map fst (mount_cards fresh old cs) = map card_key cs"
  by (induction cs arbitrary: fresh) simp_all

lemma mount_cards_cases:
  assumes "(k, inst) \<in> set (mount_cards fresh old cs)"
  shows "(k, inst) \<in> set old
     \<or> (\<exists>n < length cs. card_key (cs ! n) = k
           \<and> inst = \<lparr>inst_id = fresh + n, inst_share = initial_share\<rparr>)"
  using assms
proof (induction cs arbitrary: fresh)
  case Nil
  then show ?case by simp
next
  case (Cons c cs)
  from Cons.prems consider "k = card_key c" "inst = mount fresh (map_of old k)"
    | "(k, inst) \<in> set (mount_cards (Suc fresh) old cs)"
    by auto
  then show ?case
  proof cases
    case 1
    then show ?thesis
      by (cases "map_of old k") (auto dest: map_of_SomeD)
  next
    case 2
    from Cons.IH [OF this] show ?thesis by auto
  qed
qed

lemma mounted_saving [simp]:
  "isSaving s \<Longrightarrow> mounted_player (render s) = None"
  "isSaving s \<Longrightarrow> mounted_cards (render s) = []"
  by simp_all

lemma mounted_player_render:
  "mounted_player (render s) = (if isSaving s \<or> \<not> isPlaying s then None else playingVideo s)"
  by (simp add: render_def)

lemma mounted_cards_render:
  "mounted_cards (render s) =
     (if \<not> isSaving s \<and> editingVideo s = None \<and> view s = History
      then cards_of (HistoryPage (generatedVideosHistory s) (loadingVideoId s)) else [])"
  by (cases "view s") (simp_all add: render_defs split: option.splits)

subsection \<open>The invariant\<close>

lemma set_insts:
  "set (insts pg) = set_option (player_inst pg) \<union> snd ` set (card_insts pg)"
  by (cases "player_inst pg") (simp_all add: insts_def)

lemma instances_ok_iff:
  "instances_ok pg \<longleftrightarrow>
     (\<forall>inst \<in> set (insts pg). share_inv (inst_share inst) \<and> inst_id inst < mounts pg) \<and>
     (\<forall>c \<in> set (share_calls pg). sc_inst c < mounts pg) \<and>
     (\<forall>p k inst. player_inst pg = Some p \<longrightarrow> (k, inst) \<in> set (card_insts pg)
        \<longrightarrow> inst_id inst \<noteq> inst_id p) \<and>
     (\<forall>k inst k' inst'. (k, inst) \<in> set (card_insts pg) \<longrightarrow> (k', inst') \<in> set (card_insts pg)
        \<longrightarrow> inst_id inst = inst_id inst' \<longrightarrow> k = k')"
  unfolding instances_ok_def list_all_iff by (auto 0 3)

lemma page_inv_init: "page_inv (initial_page M)"
  by (simp add: page_inv_def instances_ok_def insts_def page_defs initial_system_def
      initial_state_def render_defs)

lemma insts_reconcile:
  assumes "inst \<in> set (insts (reconcile v pg))"
  shows "inst \<in> set (insts pg)
     \<or> (inst_share inst = initial_share \<and> mounts pg \<le> inst_id inst
          \<and> inst_id inst < mounts (reconcile v pg))"
  using assms
  by (auto simp: set_insts reconcile_def mount_def image_iff split: option.splits
      dest!: mount_cards_cases)

lemma card_insts_reconcile:
  assumes "(k, inst) \<in> set (card_insts (reconcile v pg))"
  shows "(k, inst) \<in> set (card_insts pg)
     \<or> (\<exists>n < length (mounted_cards v). card_key (mounted_cards v ! n) = k
           \<and> inst_id inst = Suc (mounts pg) + n)"
  using assms by (auto simp: reconcile_def dest!: mount_cards_cases)

lemma player_inst_reconcile:
  assumes "player_inst (reconcile v pg) = Some p"
  shows "player_inst pg = Some p \<or> inst_id p = mounts pg"
  using assms by (auto simp: reconcile_def mount_def split: option.splits)

lemma instances_ok_reconcile:
  assumes "instances_ok pg"
  shows "instances_ok (reconcile v pg)"
proof -
  from assms have below: "\<And>i. i \<in> set (insts pg) \<Longrightarrow> share_inv (inst_share i) \<and> inst_id i < mounts pg"
    and calls: "\<And>c. c \<in> set (share_calls pg) \<Longrightarrow> sc_inst c < mounts pg"
    and apart: "\<And>q k i. player_inst pg = Some q \<Longrightarrow> (k, i) \<in> set (card_insts pg)
                  \<Longrightarrow> inst_id i \<noteq> inst_id q"
    and cards: "\<And>k i k' i'. (k, i) \<in> set (card_insts pg) \<Longrightarrow> (k', i') \<in> set (card_insts pg)
                  \<Longrightarrow> inst_id i = inst_id i' \<Longrightarrow> k = k'"
    unfolding instances_ok_iff by blast+
  have card_below: "inst_id i < mounts pg" if "(k, i) \<in> set (card_insts pg)" for k i
    using below [of i] that by (force simp: set_insts)
  have player_below: "inst_id q < mounts pg" if "player_inst pg = Some q" for q
    using below [of q] that by (simp add: set_insts)
  have "share_inv (inst_share inst) \<and> inst_id inst < mounts (reconcile v pg)"
    if "inst \<in> set (insts (reconcile v pg))" for inst
    using insts_reconcile [OF that] below [of inst]
    by (auto simp: share_inv_initial reconcile_def)
  moreover have "sc_inst c < mounts (reconcile v pg)"
    if "c \<in> set (share_calls (reconcile v pg))" for c
    using that calls [of c] by (auto simp: reconcile_def)
  moreover have "inst_id inst \<noteq> inst_id p"
    if "player_inst (reconcile v pg) = Some p" "(k, inst) \<in> set (card_insts (reconcile v pg))"
    for p k inst
    using player_inst_reconcile [OF that(1)] card_insts_reconcile [OF that(2)]
      apart [of p k inst] card_below [of k inst] player_below [of p]
    by auto
  moreover have "k = k'"
    if "(k, inst) \<in> set (card_insts (reconcile v pg))"
      "(k', inst') \<in> set (card_insts (reconcile v pg))" "inst_id inst = inst_id inst'"
    for k inst k' inst'
    using card_insts_reconcile [OF that(1)] card_insts_reconcile [OF that(2)] that(3)
      cards [of k inst k' inst'] card_below [of k inst] card_below [of k' inst']
    by auto
  ultimately show ?thesis
    unfolding instances_ok_iff by blast
qed

lemma page_inv_reconcile:
  "instances_ok pg \<Longrightarrow> view_of pg = v \<Longrightarrow> page_inv (reconcile v pg)"
  using instances_ok_reconcile [of pg v]
  by (auto simp: page_inv_def) (auto simp: reconcile_def view_of_def)

text \<open>A step that changes the state inside the instances, and neither their numbers
  nor their keys, keeps the invariant.\<close>

lemma instances_ok_update:
  assumes ok: "instances_ok pg"
    and f: "\<And>inst. inst_id (f inst) = inst_id inst"
      "\<And>inst. share_inv (inst_share inst) \<Longrightarrow> share_inv (inst_share (f inst))"
    and calls: "set cs \<subseteq> set (share_calls pg)"
  shows "instances_ok (pg\<lparr>player_inst := map_option f (player_inst pg),
                          card_insts := map (apsnd f) (card_insts pg), share_calls := cs\<rparr>)"
    (is "instances_ok ?pg'")
proof -
  have "insts ?pg' = map f (insts pg)"
    by (cases "player_inst pg") (simp_all add: insts_def)
  then have insts': "set (insts ?pg') = f ` set (insts pg)"
    by simp
  have cards': "set (card_insts ?pg') = apsnd f ` set (card_insts pg)"
    by simp
  from ok have "\<forall>inst \<in> set (insts ?pg'). share_inv (inst_share inst) \<and> inst_id inst < mounts ?pg'"
    unfolding instances_ok_iff insts' by (simp add: f)
  moreover from ok calls have "\<forall>c \<in> set (share_calls ?pg'). sc_inst c < mounts ?pg'"
    unfolding instances_ok_iff by auto
  moreover from ok have "inst_id inst \<noteq> inst_id p"
    if "player_inst ?pg' = Some p" "(k, inst) \<in> set (card_insts ?pg')" for p k inst
    using that unfolding instances_ok_iff cards' by (auto simp: f)
  moreover from ok have "k = k'"
    if "(k, inst) \<in> set (card_insts ?pg')" "(k', inst') \<in> set (card_insts ?pg')"
      "inst_id inst = inst_id inst'" for k inst k' inst'
    using that unfolding instances_ok_iff cards' by (auto simp: f)
  ultimately show ?thesis
    unfolding instances_ok_iff by blast
qed

lemma insts_member:
  "player_inst pg = Some p \<Longrightarrow> p \<in> set (insts pg)"
  "(k, inst) \<in> set (card_insts pg) \<Longrightarrow> inst \<in> set (insts pg)"
  by (force simp: set_insts)+

lemma inst_below: "instances_ok pg \<Longrightarrow> inst \<in> set (insts pg) \<Longrightarrow> inst_id inst < mounts pg"
  by (simp add: instances_ok_def list_all_iff)

lemma player_click_calls:
  assumes "instances_ok pg" and "c \<in> set (player_click b pg)"
  shows "sc_inst c < mounts pg"
proof -
  from assms(2) obtain inst where "player_inst pg = Some inst" "sc_inst c = inst_id inst"
    by (cases "mounted_player (view_of pg)"; cases "player_inst pg")
       (auto simp: player_click_def)
  with inst_below [OF assms(1) insts_member(1)] show ?thesis by simp
qed

lemma card_click_calls:
  assumes "instances_ok pg" and "c \<in> set (card_click_call k b pg)"
  shows "sc_inst c < mounts pg"
proof -
  from assms(2) obtain inst where "map_of (card_insts pg) k = Some inst" "sc_inst c = inst_id inst"
    by (cases "find (\<lambda>c. card_key c = k) (mounted_cards (view_of pg))";
        cases "map_of (card_insts pg) k")
       (auto simp: card_click_call_def)
  with inst_below [OF assms(1) insts_member(2)] show ?thesis
    by (auto dest: map_of_SomeD)
qed

lemma instances_ok_calls:
  assumes "instances_ok pg" and "\<And>c. c \<in> set cs \<Longrightarrow> sc_inst c < mounts pg"
  shows "instances_ok (pg\<lparr>share_calls := share_calls pg @ cs\<rparr>)"
  using assms by (auto simp: instances_ok_def insts_def list_all_iff)

lemma page_inv_fire:
  assumes "page_inv pg"
  shows "page_inv (page_fire l pg)"
proof (cases l)
  case (AppStep a)
  from assms have "instances_ok (pg\<lparr>app := fire a (app pg)\<rparr>)"
    by (simp add: page_inv_def instances_ok_def insts_def)
  then show ?thesis
    unfolding AppStep page_fire.simps by (rule page_inv_reconcile) (simp add: view_of_def)
next
  case (PlayerClick b)
  with assms instances_ok_calls [of pg "player_click b pg", OF _ player_click_calls] show ?thesis
    by (simp add: page_inv_def view_of_def)
next
  case (CardClick k b)
  with assms instances_ok_calls [of pg "card_click_call k b pg", OF _ card_click_calls] show ?thesis
    by (simp add: page_inv_def view_of_def)
next
  case (ShareSettle i now)
  from assms have "instances_ok pg" by (simp add: page_inv_def)
  then have "instances_ok (page_fire (ShareSettle i now) pg)"
    unfolding page_fire.simps
    by (rule instances_ok_update) (auto dest: in_set_takeD in_set_dropD)
  with assms ShareSettle show ?thesis
    by (auto simp: page_inv_def view_of_def comp_def)
next
  case (Clock now)
  from assms have "instances_ok pg" by (simp add: page_inv_def)
  then have "instances_ok (page_fire (Clock now) pg\<lparr>share_calls := share_calls pg\<rparr>)"
    unfolding page_fire.simps
    by (intro instances_ok_update [where cs = "share_calls pg", simplified])
       (simp_all add: share_inv_timers_fire)
  with assms Clock show ?thesis
    by (auto simp: page_inv_def view_of_def comp_def)
qed

lemma page_inv_run: "page_run pg ls = Some pg' \<Longrightarrow> page_inv pg \<Longrightarrow> page_inv pg'"
  by (induction ls arbitrary: pg) (auto split: if_splits intro: page_inv_fire)

lemma page_run_snoc:
  "page_run pg (ls @ [l]) =
     (case page_run pg ls of None \<Rightarrow> None
      | Some pg' \<Rightarrow> if page_enabled pg' l then Some (page_fire l pg') else None)"
  by (induction ls arbitrary: pg) auto

lemma app_page_fire:
  "app (page_fire l pg) = (case l of AppStep a \<Rightarrow> fire a (app pg) | _ \<Rightarrow> app pg)"
  by (cases l) (simp_all add: reconcile_def split: option.splits)

lemma page_run_reachable:
  "page_run pg ls = Some pg' \<Longrightarrow> reachable M (app pg) \<Longrightarrow> reachable M (app pg')"
proof (induction ls arbitrary: pg)
  case Nil
  then show ?case by simp
next
  case (Cons l ls)
  then have en: "page_enabled pg l" and r: "page_run (page_fire l pg) ls = Some pg'"
    by (auto split: if_splits)
  from en Cons.prems(2) have "reachable M (app (page_fire l pg))"
    by (cases l) (auto simp: app_page_fire intro: reachable.step simp del: page_fire.simps)
  with r show ?case by (rule Cons.IH)
qed

lemma initial_page_run:
  assumes "page_run (initial_page M) ls = Some pg"
  shows "page_inv pg" and "app_inv M (app pg)"
proof -
  from assms show "page_inv pg" by (rule page_inv_run) (rule page_inv_init)
  have "reachable M (app (initial_page M))" by (simp add: initial_page_def reachable.init)
  with assms have "reachable M (app pg)" by (rule page_run_reachable)
  then show "app_inv M (app pg)" by (rule reachable_inv)
qed

lemma saving_unmounts:
  "page_inv pg \<Longrightarrow> isSaving (ui (app pg)) \<Longrightarrow> player_inst pg = None \<and> card_insts pg = []"
  by (simp add: page_inv_def view_of_def)

lemma reconcile_fresh:
  "player_inst pg = None \<Longrightarrow> card_insts pg = [] \<Longrightarrow>
     player_share (reconcile v pg) \<in> {None, Some initial_share}
     \<and> list_all (\<lambda>inst. snd inst = initial_share) (card_shares (reconcile v pg))"
  by (cases "mounted_player v")
     (auto simp: reconcile_def player_share_def card_shares_def list_all_iff
        dest!: mount_cards_cases)

subsection \<open>Where a share call settles\<close>

lemma map_apsnd_id: "(\<And>k x. (k, x) \<in> set xs \<Longrightarrow> f x = x) \<Longrightarrow> map (apsnd f) xs = xs"
  by (rule map_idI) auto

lemma filter_map_apsnd:
  "\<forall>(k, x) \<in> set xs. P k \<longrightarrow> f x = x \<Longrightarrow>
     filter (\<lambda>(k, x). P k) (map (apsnd f) xs) = filter (\<lambda>(k, x). P k) xs"
  by (induction xs) auto

lemma settle_unmounted:
  assumes "sc_inst c \<notin> inst_id ` set (insts pg)"
  shows "map_option (settle_in c now) (player_inst pg) = player_inst pg"
    and "map (apsnd (settle_in c now)) (card_insts pg) = card_insts pg"
proof -
  from assms have other: "inst \<in> set (insts pg) \<Longrightarrow> settle_in c now inst = inst" for inst
    by (force simp: settle_in_def)
  then show "map_option (settle_in c now) (player_inst pg) = player_inst pg"
    by (cases "player_inst pg") (simp_all add: insts_member)
  from other show "map (apsnd (settle_in c now)) (card_insts pg) = card_insts pg"
    by (intro map_apsnd_id) (auto dest: insts_member)
qed

lemma settle_player:
  assumes "instances_ok pg" and "player_inst pg = Some p" and "inst_id p = sc_inst c"
  shows "map (apsnd (settle_in c now)) (card_insts pg) = card_insts pg"
proof (rule map_apsnd_id)
  fix k inst assume "(k, inst) \<in> set (card_insts pg)"
  with assms have "inst_id inst \<noteq> sc_inst c"
    unfolding instances_ok_iff by metis
  then show "settle_in c now inst = inst" by (rule settle_in_other)
qed

lemma settle_card:
  assumes "instances_ok pg" and "(k, inst) \<in> set (card_insts pg)" and "inst_id inst = sc_inst c"
  shows "map_option (settle_in c now) (player_inst pg) = player_inst pg"
    and "(k', inst') \<in> set (card_insts pg) \<Longrightarrow> k' \<noteq> k \<Longrightarrow> settle_in c now inst' = inst'"
proof -
  from assms show "map_option (settle_in c now) (player_inst pg) = player_inst pg"
    unfolding instances_ok_iff
    by (cases "player_inst pg") (auto simp: settle_in_def)
  assume "(k', inst') \<in> set (card_insts pg)" "k' \<noteq> k"
  with assms have "inst_id inst' \<noteq> sc_inst c"
    unfolding instances_ok_iff by metis
  then show "settle_in c now inst' = inst'" by (rule settle_in_other)
qed

subsection \<open>The example runs\<close>

lemma share_then_switch_run:
  "page_run (initial_page [demo_mock, other_mock]) share_then_switch
     = Some \<lparr>app = \<lparr>ui = handlePlayVideo other_mock (initial_state [demo_mock, other_mock]),
                     jobs = []\<rparr>,
             player_inst = Some \<lparr>inst_id = 0, inst_share = copied\<rparr>, card_insts = [],
             mounts = 2, share_calls = []\<rparr>"
  by (simp add: share_then_switch_def copied_def page_defs demo_run_defs other_mock_def
      share_defs desktop_def player_click_def awaited_def settle_in_def resumed_def)

lemma share_then_reopen_run:
  "page_run (initial_page [demo_mock]) (butlast share_then_reopen) = Some reopened"
  by (simp add: share_then_reopen_def reopened_def page_defs demo_run_defs
      player_click_def)

section \<open>Properties of the page\<close>

text \<open>C22. The component instances follow the view. After every run of the page the
  player's feedback state exists exactly when the player is rendered, the cards'
  states are those of the rendered cards in their order, every feedback state is empty
  or one of the two messages with a timer pending, no two instances have the same
  number, and while the saving page is shown no instance exists at all.\<close>

theorem page_instances_follow_view:
  assumes "page_run (initial_page M) ls = Some pg"
  shows "page_inv pg
   \<and> (isSaving (ui (app pg)) \<longrightarrow> player_share pg = None \<and> card_shares pg = [])"
  using initial_page_run(1) [OF assms]
  by (simp add: saving_unmounts player_share_def card_shares_def)

theorem page_instances_follow_view_witness:
  "page_run (initial_page [demo_mock, other_mock]) share_then_switch \<noteq> None
   \<and> page_inv \<lparr>app = \<lparr>ui = handlePlayVideo other_mock (initial_state [demo_mock, other_mock]),
                        jobs = []\<rparr>,
                player_inst = Some \<lparr>inst_id = 0, inst_share = copied\<rparr>, card_insts = [],
                mounts = 2, share_calls = []\<rparr>"
  using page_instances_follow_view [of "[demo_mock, other_mock]" share_then_switch]
    share_then_switch_run
  by simp



text \<open>C32. A generation wipes the share feedback: when a generation request has been
  answered, whether with a video or with an error, every feedback state on the page is
  a fresh one, because the saving page had unmounted the player and the cards.\<close>

theorem generation_resets_feedback:
  assumes "page_run (initial_page M) (ls @ [AppStep (Settle i outcome uuid now)]) = Some pg"
  shows "player_share pg \<in> {None, Some initial_share}
   \<and> list_all (\<lambda>inst. snd inst = initial_share) (card_shares pg)"
proof -
  from assms obtain pg0 where r: "page_run (initial_page M) ls = Some pg0"
    and en: "i < length (jobs (app pg0))"
    and pg: "pg = page_fire (AppStep (Settle i outcome uuid now)) pg0"
    by (auto simp: page_run_snoc split: option.splits if_splits)
  from initial_page_run(2) [OF r] en have "isSaving (ui (app pg0))"
    by (auto simp: app_inv_def Let_def)
  with initial_page_run(1) [OF r] have "player_inst pg0 = None" "card_insts pg0 = []"
    by (simp_all add: saving_unmounts)
  then show ?thesis unfolding pg page_fire.simps by (intro reconcile_fresh) simp_all
qed

theorem generation_resets_feedback_witness:
  "page_run (initial_page [demo_mock])
     (map AppStep (take 3 demo_run) @
      [AppStep (Settle 0 (Inr [Some (ascii ''AAAA'')]) (Inr (ascii ''u1'')) 1000)])
     = Some \<lparr>app = demo_final, player_inst = Some \<lparr>inst_id = 3, inst_share = initial_share\<rparr>,
             card_insts = [(ascii ''u1'', \<lparr>inst_id = 4, inst_share = initial_share\<rparr>)],
             mounts = 5, share_calls = []\<rparr>
   \<and> player_share \<lparr>app = demo_final,
         player_inst = Some \<lparr>inst_id = 3, inst_share = initial_share\<rparr>,
         card_insts = [(ascii ''u1'', \<lparr>inst_id = 4, inst_share = initial_share\<rparr>)],
         mounts = 5, share_calls = []\<rparr> = Some initial_share"
proof -
  have r: "page_run (initial_page [demo_mock])
      (map AppStep (take 3 demo_run) @
       [AppStep (Settle 0 (Inr [Some (ascii ''AAAA'')]) (Inr (ascii ''u1'')) 1000)])
     = Some \<lparr>app = demo_final, player_inst = Some \<lparr>inst_id = 3, inst_share = initial_share\<rparr>,
             card_insts = [(ascii ''u1'', \<lparr>inst_id = 4, inst_share = initial_share\<rparr>)],
             mounts = 5, share_calls = []\<rparr>"
    by (simp add: demo_run_def demo_final_def demo_new_def page_defs demo_run_defs
        history_page_defs sortedVideos_def generated_video_of_def)
  from generation_resets_feedback [OF r] r show ?thesis
    by (simp add: player_share_def)
qed

text \<open>Feedback can outlive its video. The player has no \<open>key\<close>, so when another
  video is started while the player is open the same instance goes on: the message
  "Link Copied!" that answered the sharing of one video is shown beside the other.\<close>

lemma feedback_outlives_video:
  "\<exists>pg. page_run (initial_page [demo_mock, other_mock]) share_then_switch = Some pg
     \<and> mounted_player (view_of pg) = Some other_mock
     \<and> map_option shareFeedback (player_share pg) = Some (ascii ''Link Copied!'')"
  by (simp add: share_then_switch_run view_of_def mounted_player_render handlePlayVideo_def
      initial_state_def copied_def player_share_def)

end
