(* ===== verification/Spec2Isabelle.thy ===== *)
theory Spec2Isabelle
  imports App_Refinement Mounted
begin

text \<open>
  \<^bold>\<open>A verification development for the Veo gallery.\<close>

  The program is a single-page React application. It shows a gallery of videos, plays
  one in an overlay, and asks a remote service for a new video made from a text
  prompt: it sends the request, polls the service every ten seconds until the job is
  finished, downloads the result, turns it into a \<open>data:\<close> URL and puts it in front of
  the gallery and of a history of generated clips. A video can be shared and
  downloaded from the player, and shared from its card on the history page.

  \<^bold>\<open>The parts of the program and the theories that model them.\<close>

  \<^item> \<open>src/types.ts\<close> (the interfaces \<open>Video\<close> and \<open>HistoryVideo\<close>): theory
    \<open>Video_Types\<close>, the records \<open>video\<close> and \<open>history_video\<close>; \<open>stamp\<close> is the
    object spread that adds \<open>createdAt\<close>, \<open>video_of\<close> the use of a history video
    where a video is expected.
  \<^item> \<open>src/unnamed/part_000\<close>, lines 18 to 78 (\<open>bloblToBase64\<close>,
    \<open>generateVideoFromText\<close>): theory \<open>Generate_Video\<close>. The remote service, \<open>fetch\<close>,
    \<open>FileReader\<close> and \<open>decodeURIComponent\<close> are the fields of the record
    \<open>remote_env\<close>, of which nothing is assumed; \<open>request_url\<close> is the address the
    callback of \<open>videos.map\<close> gives to \<open>fetch\<close>. The polling loop is \<open>poll_loop\<close>, a
    \<open>partial_function\<close> in the option monad, since the source has no bound on the
    number of polls; \<open>poll_fuel\<close> is the same loop cut off after \<open>n\<close> polls.
    \<open>fetch_blob\<close> is the download of one video, \<open>delivered\<close> the blobs the service
    serves for a request; \<open>follows_file_api\<close> and \<open>follows_ecma262\<close> say of an
    environment that its \<open>FileReader\<close> does what the File API prescribes and that
    its \<open>decodeURIComponent\<close> is the one of ECMA-262.
  \<^item> \<open>src/unnamed/part_000\<close>, lines 84 to 234 (the state of the \<open>App\<close> component and
    its handlers): theory \<open>App_State\<close>, the record \<open>app_state\<close> with one field per
    \<open>useState\<close> cell and one definition per handler. The two \<open>async\<close> handlers are
    split at their \<open>await\<close> into the part that runs at the click and the part that
    runs when the call has settled (\<open>try\<close>, \<open>catch\<close> and \<open>finally\<close>); \<open>settle_spec\<close>
    says once what both second parts are meant to do.
  \<^item> \<open>src/unnamed/part_000\<close>, lines 236 to 343 (what \<open>App\<close> renders): theory
    \<open>App_View\<close>. \<open>render\<close> is the view of a state, \<open>offers\<close> the events an element
    of the view can raise, \<open>handle\<close> their synchronous effect.
  \<^item> The application as a whole: theory \<open>App_Machine\<close>. A \<open>system\<close> is the state of
    \<open>App\<close> with the handlers suspended at an \<open>await\<close>; a step is an offered event or
    the settling of a suspended handler; \<open>reachable\<close> and \<open>run\<close> are the states and
    the executions; \<open>app_inv\<close> is the invariant.
  \<^item> What the application promises: theory \<open>Gallery_Spec\<close>, an abstract machine
    made from the words of the specification (a list of video records, two tabs, the
    screens browsing, playing, editing and saving, one request at a time, one error
    dialog; a published record answers its request: the prompt as description, the
    title made from it, an mp4 \<open>data:\<close> URL). Theory \<open>App_Refinement\<close> maps the states
    and steps of \<open>App_Machine\<close> to it (\<open>abs_of\<close>, \<open>abs_action\<close>) and, the other way,
    the actions of the abstract machine to steps of the application (\<open>impl_label\<close>).
  \<^item> The component instances: theory \<open>Mounted\<close> adds to the application the state
    that \<open>VideoPlayer\<close> and every \<open>HistoryCard\<close> keep in \<open>useState\<close>, with the
    rule by which React keeps or drops an instance from one render to the next
    (\<open>reconcile\<close>). A click on a share button starts \<open>handleShare\<close>, which waits at its
    \<open>await\<close> as a \<open>share_call\<close> and resumes in a step of its own; clicks, resumed
    handlers and timers are interleaved with the steps of the application.
  \<^item> \<open>src/components/HistoryPage.tsx\<close>: theory \<open>History_Page\<close> (the comparator, the
    sorted copy, the props of the cards), over the stable insertion sort of theory
    \<open>JS_Array\<close>.
  \<^item> \<open>src/components/VideoPlayer.tsx\<close>: theory \<open>Share\<close> (\<open>handleShare\<close> and the
    feedback text with its two-second timers) and theory \<open>Video_Player\<close>
    (\<open>handleDownload\<close>, the rendered values, the click handlers and how a click
    bubbles through them).
  \<^item> \<open>src/components/HistoryCard.tsx\<close>: theory \<open>History_Card\<close> (its own copy of the
    share handler, the rendered values, its click handlers).
  \<^item> The platform: theory \<open>JS_String\<close> states the ECMAScript string operations the
    sources call (\<open>trim\<close>, \<open>substring\<close>, \<open>startsWith\<close>, \<open>split\<close>, global \<open>replace\<close>
    by a character class) and when a string of 16-bit code units is well-formed
    Unicode (\<open>isWellFormed\<close>), theory \<open>JS_Promise\<close> the three ways a promise can end,
    \<open>await\<close> and \<open>Promise.all\<close>, theory \<open>JS_Array\<close> the stable sort, theory
    \<open>Data_URL\<close> base64 on bytes as 8-bit words (RFC 4648), the \<open>data:\<close> URL that
    \<open>FileReader.readAsDataURL\<close> makes of a blob and the way a media element reads such
    a URL back, theory \<open>URI_Decode\<close> the function \<open>decodeURIComponent\<close> (percent
    escapes, the table of well-formed UTF-8 sequences, surrogate pairs) with
    \<open>encodeURIComponent\<close> as its reference, theory \<open>Gallery_Prelude\<close> strings as lists of UTF-16 code units, the lemma collections
    and the list lemmas the components share.
  \<^item> This theory connects the components: \<open>player_event\<close> and \<open>card_event\<close> are the
    props by which \<open>App\<close> wires the callbacks of the player and of the history cards
    to its handlers.

  \<^bold>\<open>How effects are modelled.\<close> A promise is \<open>None\<close> while it never settles,
  \<open>Some (Inl e)\<close> when rejected and \<open>Some (Inr x)\<close> when fulfilled; every \<open>throw\<close>
  of the sources is a rejected promise. Time is a number of milliseconds: the handlers
  take the reading of the clock as an argument, as they take the result of
  \<open>crypto.randomUUID()\<close>, which may throw. \<open>console\<close> output is left out.

  \<^bold>\<open>What the lemmas show.\<close>

  \<^item> \<open>Generate_Video\<close>: the loop returns as soon as some number of polls ends it and
    never otherwise; the time it waits; the exact result of \<open>bloblToBase64\<close>; the
    conditions under which the workflow is fulfilled, rejected or pending; the
    assumption under which its result has the declared type \<open>string[]\<close>; with a
    \<open>FileReader\<close> that follows the File API, the returned strings are the base64
    text of the bytes that were served, and decode to them; with the
    \<open>decodeURIComponent\<close> of ECMA-262, the address requested is the one the service
    encoded, it is the address as served exactly when that has no percent sign, it
    is a well-formed string when the served one is, and an address that cannot be
    decoded ends the call with a \<open>URIError\<close> before anything is downloaded.
  \<^item> \<open>App_State\<close>: both \<open>async\<close> handlers implement \<open>settle_spec\<close>; the title of a
    generated video, its length and when cutting the prompt after 40 code units
    leaves half a surrogate pair; the behaviour on each failure.
  \<^item> \<open>App_View\<close> and \<open>App_Machine\<close>: \<open>app_inv\<close> holds in every reachable state, and
    with it: at most one request in flight, no event offered meanwhile, one error
    message, the gallery as history followed by the samples, distinct ids; some step
    is always possible, and the saving page ends with the answer of the service and
    in no other way; the outcomes the machine lets a handler resume with are exactly
    those \<open>generateVideoFromText\<close> can have.
  \<^item> \<open>Gallery_Spec\<close> and \<open>App_Refinement\<close>: every run of the application is a run
    of the abstract machine, and every run of the abstract machine is the image of
    a run of the application, so the two have the same behaviours; what is counted
    or shown invariant there (requests and answers balance, the records are the
    clips followed by the samples) holds of the application.
  \<^item> \<open>Data_URL\<close>: decoding undoes encoding, the length of the text, no comma in it,
    and that reading back a \<open>data:\<close> URL made by \<open>FileReader\<close> gives the media type
    and the bytes of the blob.
  \<^item> \<open>URI_Decode\<close>: \<open>Decode\<close> undoes \<open>Encode\<close>, which succeeds exactly on
    well-formed strings; the table of UTF-8 sequences is the image of the arithmetic
    encoder on the scalar values from \<open>0x80\<close>; decoding never lengthens a string,
    changes it exactly when it holds a percent sign and keeps it well formed.
  \<^item> \<open>Mounted\<close>: the instances are those of the rendered view, their feedback states
    are well formed and their numbers tell them apart; a resumed share handler
    updates the instance that was clicked and no other, and nothing when that
    instance is gone; a generation leaves only fresh instances; the player's
    feedback survives a change of video.
  \<^item> \<open>History_Page\<close>: the cards are a stable, newest-first permutation of the
    history, with distinct keys and at most one spinner.
  \<^item> \<open>Share\<close>, \<open>Video_Player\<close>, \<open>History_Card\<close>: the feedback invariant and when the
    feedback is cleared; the characters of the download name; which clicks close the
    player; the equality of the two share handlers.
  \<^item> This theory: the events the player and the cards can raise are events the view
    offers; a result of the workflow is a step of the machine; the bytes the service
    served are the bytes the player and the download link get; generated videos
    share the page's address; the history page's sort does nothing while the clock
    does not go back.

  \<^bold>\<open>Bounds and fuel.\<close> \<open>poll_loop\<close> has no fuel: that it returns is proved from
  the hypothesis that \<open>poll_fuel n\<close> returns for some \<open>n\<close>, and \<open>poll_count\<close> gives
  the least such \<open>n\<close>. The examples use a service that finishes at the second poll.
  The machine keeps a list of suspended handlers of any length; that it never holds
  more than one is a theorem, not a bound of the model. The list of suspended share
  handlers is unbounded as well: nothing in the code limits the clicks. The base64
  decoder is the strict one (padded groups of four characters of the alphabet), and
  \<open>data_url_decode\<close> reads only URLs that end their header in \<open>;base64\<close>, the only
  kind the program makes. Octets and code points in \<open>URI_Decode\<close> are natural
  numbers, as the numbers of ECMA-262 are; code units stay 16-bit words.

  \<^bold>\<open>What is not modelled.\<close> The components \<open>EditVideoPage\<close>, \<open>ErrorModal\<close>,
  \<open>SavingProgressPage\<close>, \<open>VideoGrid\<close>, the icons and the constant \<open>MOCK_VIDEOS\<close> are
  imported by the application but are not among the sources; \<open>App_View\<close> states what
  is supposed of them and \<open>MOCK_VIDEOS\<close> is a parameter. Class names, static text and
  layout are left out of the views. The service's behaviour, the network and the
  rendering engine of React are outside the model, except for the rule that decides
  which component instances survive a render. A run of the machine is a sequence of
  atomic handler executions, which is how a single-threaded event loop runs them; the
  renders that React may make between the state updates of a resumed handler are not
  steps, since \<open>isSaving\<close> is reset last and all of them show the saving page
  (\<open>intermediate_renders\<close> in theory \<open>App_View\<close>). The same holds of the two state
  updates a resumed share handler makes. What the browser's share sheet and clipboard
  do with what they are given is outside the model: the platform calls are
  parameters (\<open>browser\<close>), as is what the video element does with the bytes it reads.
  What \<open>fetch\<close> does with the address it is given (parsing it, following redirects,
  the relation of \<open>ok\<close> to the status) is left to the environment.
\<close>

section \<open>Definitions\<close>

fun player_event :: "player_call \<Rightarrow> event option" where
  "player_event OnClose = Some ClosePlayer"
| "player_event (OnEdit v) = Some (StartEdit v)"
| "player_event OnVideoLoaded = Some VideoLoaded"
| "player_event HandleShare = None"
| "player_event HandleDownload = None"

fun card_event :: "card_call \<Rightarrow> event option" where
  "card_event (OnPlay h) = Some (PlayVideo (video_of h))"
| "card_event CardHandleShare = None"

definition skewed_run :: "label list" where
  "skewed_run =
     [UI (ChangePrompt (ascii ''a cat'')), UI GenerateNewVideo,
      Settle 0 (Inr [Some (ascii ''AAAA'')]) (Inr (ascii ''u1'')) 2000,
      UI ClosePlayer, UI (ChangePrompt (ascii ''a dog'')), UI GenerateNewVideo,
      Settle 0 (Inr [Some (ascii ''BBBB'')]) (Inr (ascii ''u2'')) 1000]"

section \<open>Lemmas\<close>

lemma data_prefix_not_http:
  "prefix data_video_prefix url \<Longrightarrow> \<not> startsWith_js url (ascii ''http'')"
  by (auto simp: startsWith_js_def data_video_prefix_def prefix_def)

lemma reachable_history_url:
  "reachable M sys \<Longrightarrow> h \<in> set (generatedVideosHistory (ui sys))
     \<Longrightarrow> prefix data_video_prefix (videoUrl h)"
  by (auto dest!: reachable_inv simp: app_inv_def Let_def list_all_iff)

lemma initial_run_history_sorted:
  "run (initial_system M) ls = Some sys \<Longrightarrow> sorted (settle_times ls)
     \<Longrightarrow> newest_first_order (generatedVideosHistory (ui sys))"
  by (erule run_history_sorted) (simp_all add: initial_system_def initial_state_def)

section \<open>Properties that span components\<close>

text \<open>C30. The callbacks of the player reach the handlers only through events the view
  offers. Whenever the view shows the player on a video, every call that a click on
  one of the player's elements or a media event of its \<open>video\<close> element makes on the
  props \<open>onClose\<close>, \<open>onEdit\<close> and \<open>onVideoLoaded\<close> is an event that \<open>offers\<close> allows in
  that view; in particular \<open>onEdit\<close> is called with the video being played.\<close>

theorem player_wiring:
  assumes "render s = AppView page (Some v) modal"
    and "c \<in> set (click v target) \<union> range media_call"
    and "player_event c = Some e"
  shows "offers (render s) e"
proof -
  have "e \<in> {ClosePlayer, VideoLoaded, StartEdit v}"
  proof (cases "c \<in> range media_call")
    case True
    then obtain m where "c = media_call m" by auto
    with assms(3) show ?thesis by (cases m) auto
  next
    case False
    with assms(2) have "c \<in> set (click v target)" by simp
    with assms(3) show ?thesis by (cases target) (auto simp: click_simps)
  qed
  then show ?thesis by (auto simp: assms(1))
qed

theorem player_wiring_witness:
  "render (ui demo_final) = AppView (HomeView (render_home (ui demo_final))) (Some demo_new) None
   \<and> OnEdit demo_new \<in> set (click demo_new EditButton) \<union> range media_call
   \<and> offers (render (ui demo_final)) (StartEdit demo_new)"
  using player_wiring [of "ui demo_final" "HomeView (render_home (ui demo_final))" demo_new None
      "OnEdit demo_new" EditButton "StartEdit demo_new"]
  by (simp add: demo_final_def render_def click_simps)

text \<open>C31. A click on a card of the history page plays a video of the history: the
  only callback a card makes on \<open>App\<close> is \<open>onPlay\<close> with the card's own video, which is
  one of the generated videos, and the view offers that event.\<close>

theorem card_wiring:
  assumes "render s = AppView (HomeView h) player modal" and "view s = History"
    and "props \<in> set (cards_of (HistoryPage (generatedVideosHistory s) (loadingVideoId s)))"
    and "c \<in> set (card_click honour (card_video props) target)"
    and "card_event c = Some e"
  shows "offers (render s) e \<and> e \<in> (\<lambda>g. PlayVideo (video_of g)) ` set (generatedVideosHistory s)"
proof -
  from assms(4,5) have e: "e = PlayVideo (video_of (card_video props))"
    by (cases target) (auto simp: card_click_simps)
  from assms(3) have "card_video props \<in> set (generatedVideosHistory s)"
    by (auto simp: cards_of_HistoryPage history_card_def)
  moreover from assms(1) have "\<not> isSaving s" "editingVideo s = None"
    by (auto simp: render_def split: if_splits option.splits)
  ultimately show ?thesis
    using assms(2) e by (auto simp: offers_PlayVideo)
qed

theorem card_wiring_witness:
  "render (ui demo_final) = AppView (HomeView (render_home (ui demo_final))) (Some demo_new) None
   \<and> cards_of (HistoryPage (generatedVideosHistory (ui demo_final)) (loadingVideoId (ui demo_final)))
       = [history_card (Some (ascii ''1'')) (stamp demo_new 1000)]
   \<and> offers (render (ui demo_final)) (PlayVideo demo_new)"
  using card_wiring [of "ui demo_final" "render_home (ui demo_final)" "Some demo_new" None
      "history_card (Some (ascii ''1'')) (stamp demo_new 1000)" "OnPlay (stamp demo_new 1000)"
      True PlayButton "PlayVideo demo_new"]
  by (simp add: demo_final_def render_def card_click_simps cards_of_HistoryPage sortedVideos_def
      history_card_def)

text \<open>C8. From the workflow to the gallery. If a handler is waiting and its call of
  \<open>generateVideoFromText\<close> is fulfilled, then settling it with that result is a step
  of the application, and the step publishes the new video: it is first in the
  gallery and in the history, it is playing, the history tab is selected, and no
  handler is left waiting.\<close>

theorem generate_then_settle:
  assumes "reachable M sys" and "jobs sys = [j]"
    and "generateVideoFromText env (job_prompt j) 1 = Fulfilled videoObjects"
  shows "enabled sys (Settle 0 (Inr videoObjects) (Inr u) now)
   \<and> fire (Settle 0 (Inr videoObjects) (Inr u) now) sys
       = \<lparr>ui = (publish (job_video j videoObjects u) now (ui sys))
                \<lparr>newVideoPrompt := (if job_clears_prompt j then [] else newVideoPrompt (ui sys)),
                 isSaving := False\<rparr>,
          jobs = []\<rparr>"
proof -
  from assms(3) have "possible_outcome (Inr videoObjects)"
    by (rule generate_possible_outcome)
  then show ?thesis
    using assms(2) by (simp add: settle_step_def settle_job_spec settle_spec_def)
qed

theorem generate_then_settle_witness:
  "reachable [demo_mock] demo_saving \<and> jobs demo_saving = [GenerateJob (ascii ''a cat'')]
   \<and> generateVideoFromText demo_env (ascii ''a cat'') 1 = Fulfilled [Some demo_payload]
   \<and> enabled demo_saving (Settle 0 (Inr [Some demo_payload]) (Inr (ascii ''u1'')) 1000)
   \<and> videos (ui (fire (Settle 0 (Inr [Some demo_payload]) (Inr (ascii ''u1'')) 1000) demo_saving))
       = [generated_video_of (ascii ''a cat'') [Some demo_payload] (ascii ''u1''), demo_mock]"
  using generate_then_settle [of "[demo_mock]" demo_saving "GenerateJob (ascii ''a cat'')" demo_env
      "[Some demo_payload]" "ascii ''u1''" 1000]
    demo_saving_reachable demo_generate [of "ascii ''a cat''"]
  by (simp add: demo_saving_def publish_def)

text \<open>C9. From the service to the player. If the browser's \<open>FileReader\<close> follows the
  File API and the first blob that the call of a waiting handler downloads has a media
  type without a comma, then after the handler has resumed the player is open on the
  new video, and the \<open>src\<close> of its \<open>video\<close> element, read as a data URL, is exactly
  the content of that blob, labelled \<open>video/mp4\<close>; the download link carries the
  same.\<close>

theorem served_bytes_are_played:
  assumes "jobs sys = [j]" and "follows_file_api env"
    and "generateVideoFromText env (job_prompt j) 1 = Fulfilled xs"
    and "delivered env (job_prompt j) 1 = Fulfilled bs"
    and "0x2C \<notin> set (blob_type (hd bs))"
  shows "mounted_player (render (ui (fire (Settle 0 (Inr xs) (Inr u) now) sys)))
       = Some (job_video j xs u)
   \<and> data_url_decode (pv_src (render_player (job_video j xs u) st))
       = Some (ascii ''video/mp4'', blob_bytes (hd bs))
   \<and> data_url_decode (href (handleDownload (job_video j xs u)))
       = Some (ascii ''video/mp4'', blob_bytes (hd bs))"
proof -
  from assms(3) have "xs \<noteq> []"
    by (auto dest!: generate_Fulfilled)
  with delivered_strings [OF assms(2-4), of 0] assms(5)
  obtain xs' where xs: "xs = Some (base64 (blob_bytes (hd bs))) # xs'"
    by (cases xs; cases bs) auto
  have "mounted_player (render (ui (fire (Settle 0 (Inr xs) (Inr u) now) sys)))
      = Some (job_video j xs u)"
    using assms(1) \<open>xs \<noteq> []\<close>
    by (simp add: settle_step_def settle_job_spec settle_spec_def publish_def render_def)
  then show ?thesis
    by (simp add: xs render_player_def handleDownload_def video_src_decode)
qed

theorem served_bytes_are_played_witness:
  "follows_file_api demo_env
   \<and> mounted_player (render (ui (fire
         (Settle 0 (Inr [Some demo_payload]) (Inr (ascii ''u1'')) 1000) demo_saving)))
       = Some (generated_video_of (ascii ''a cat'') [Some demo_payload] (ascii ''u1''))
   \<and> data_url_decode
         (videoUrl (generated_video_of (ascii ''a cat'') [Some demo_payload] (ascii ''u1'')))
       = Some (ascii ''video/mp4'', demo_bytes)"
  using served_bytes_are_played [of demo_saving "GenerateJob (ascii ''a cat'')" demo_env
      "[Some demo_payload]" "[\<lparr>blob_type = ascii ''video/mp4'', blob_bytes = demo_bytes\<rparr>]"
      "ascii ''u1''" 1000 initial_share]
    demo_generate [of "ascii ''a cat''"] demo_delivered [of "ascii ''a cat''"] demo_file_api
  by (simp add: demo_saving_def render_player_def)

text \<open>C36. Sharing or downloading a generated video. The URL of every generated video
  is a \<open>data:\<close> URL, so what is shared for it is the address of the page, the same for
  all of them and for every visitor, not the video; the download link carries the
  \<open>data:\<close> URL itself.\<close>

theorem generated_videos_share_page_url:
  assumes "reachable M sys" and "h \<in> set (generatedVideosHistory (ui sys))"
  shows "urlToShare b (video_of h) = location_href b
   \<and> prefix data_video_prefix (href (handleDownload (video_of h)))"
proof -
  have p: "prefix data_video_prefix (videoUrl h)"
    using assms by (rule reachable_history_url)
  from data_prefix_not_http [OF p] have "urlToShare b (video_of h) = location_href b"
    by (simp add: urlToShare_def)
  with p show ?thesis by (simp add: handleDownload_def)
qed

theorem generated_videos_share_page_url_witness:
  "reachable [demo_mock] demo_final \<and> stamp demo_new 1000 \<in> set (generatedVideosHistory (ui demo_final))
   \<and> urlToShare desktop demo_new = ascii ''https://gallery.test/''"
  using generated_videos_share_page_url [of "[demo_mock]" demo_final "stamp demo_new 1000" desktop]
    demo_reachable
  by (simp add: demo_final_def desktop_def)

text \<open>C35. While the clock does not go back, the sort of the history page changes
  nothing: the handlers put each new video in front of the history, so the history is
  already ordered newest first, and the history page shows it in the order of the
  gallery.\<close>

theorem history_sort_is_identity:
  assumes "run (initial_system M) ls = Some sys" and "sorted (settle_times ls)"
  shows "sortedVideos (generatedVideosHistory (ui sys)) = generatedVideosHistory (ui sys)"
  using assms by (intro sortedVideos_id initial_run_history_sorted)

theorem history_sort_is_identity_witness:
  "run (initial_system [demo_mock]) demo_run = Some demo_final \<and> sorted (settle_times demo_run)
   \<and> sortedVideos [stamp demo_new 1000] = [stamp demo_new 1000]"
  using history_sort_is_identity [of "[demo_mock]" demo_run demo_final] demo_run_final
  by (simp add: demo_run_def demo_final_def)

text \<open>When the clock is set back between two generations, the two pages disagree:
  the gallery lists the video generated last first, the history page lists it
  second.\<close>

lemma clock_step_back_reorders:
  "\<exists>sys. run (initial_system []) skewed_run = Some sys
     \<and> map video_id (videos (ui sys)) = [ascii ''u2'', ascii ''u1'']
     \<and> map card_key (cards_of (HistoryPage (generatedVideosHistory (ui sys)) (loadingVideoId (ui sys))))
         = [ascii ''u1'', ascii ''u2'']"
  by (simp add: skewed_run_def demo_run_defs history_page_defs sortedVideos_def newest_first_def
      generated_video_of_def)

end
